(* ===== verification/Prelude.thy ===== *)
theory Prelude
  imports Main "HOL-Library.Word"
begin

text \<open>
  Shared vocabulary of the development: the machine types of the C programs, the
  collections that the component theories fill (\<open>os_simps\<close> for the frame
  equations of system calls, \<open>frame_simps\<close> for the record fields an operation leaves
  alone, \<open>codec_simps\<close> for byte-order facts), and generic lemmas on lists and on the
  "first index that satisfies" loops of the source.
\<close>

unbundle bit_operations_syntax

type_synonym byte = "8 word"
type_synonym u16 = "16 word"
type_synonym u32 = "32 word"
type_synonym u64 = "64 word"

named_theorems os_simps "equations of the modelled system calls"
named_theorems frame_simps "fields an operation leaves unchanged"
named_theorems codec_simps "byte order and encoding equations"

section \<open>\<open>size_t\<close> arithmetic on a 64-bit host\<close>

text \<open>Sizes are naturals; a subtraction of the source that may wrap is written with this.\<close>

definition size_sub :: "nat \<Rightarrow> nat \<Rightarrow> nat" where
  "size_sub a b = nat ((int a - int b) mod 2 ^ 64)"

lemma size_sub_le [simp]: "b \<le> a \<Longrightarrow> a < 2 ^ 64 \<Longrightarrow> size_sub a b = a - b"
  by (simp add: size_sub_def nat_mod_distrib flip: of_nat_diff)

lemma size_sub_zero_one [simp]: "size_sub 0 (Suc 0) = 2 ^ 64 - 1"
  by (simp add: size_sub_def)

section \<open>Loops that stop at the first index with a property\<close>

lemma find_upt_SomeD:
  assumes "find P [a..<b] = Some i"
  shows "P i \<and> a \<le> i \<and> i < b \<and> (\<forall>j. a \<le> j \<longrightarrow> j < i \<longrightarrow> \<not> P j)"
proof -
  from assms obtain k where k: "k < length [a..<b]" "P ([a..<b] ! k)" "i = [a..<b] ! k"
    and before: "\<forall>j<k. \<not> P ([a..<b] ! j)"
    by (auto simp: find_Some_iff)
  have "\<not> P j" if "a \<le> j" "j < i" for j
    using before k that by (auto dest: spec [of _ "j - a"])
  with k show ?thesis by auto
qed

lemma find_upt_NoneD: "find P [a..<b] = None \<Longrightarrow> a \<le> i \<Longrightarrow> i < b \<Longrightarrow> \<not> P i"
  by (auto simp: find_None_iff)

lemma find_upt_SomeI:
  assumes "P i" "a \<le> i" "i < b" "\<And>j. a \<le> j \<Longrightarrow> j < i \<Longrightarrow> \<not> P j"
  shows "find P [a..<b] = Some i"
proof (cases "find P [a..<b]")
  case None
  with assms show ?thesis by (auto dest: find_upt_NoneD)
next
  case (Some k)
  then have "P k" "a \<le> k" "\<forall>j. a \<le> j \<longrightarrow> j < k \<longrightarrow> \<not> P j"
    by (auto dest: find_upt_SomeD)
  with assms have "k = i" by (metis linorder_neqE_nat)
  with Some show ?thesis by simp
qed

lemma find_upt_ex: "P i \<Longrightarrow> a \<le> i \<Longrightarrow> i < b \<Longrightarrow> \<exists>k. find P [a..<b] = Some k"
  by (cases "find P [a..<b]") (auto dest: find_upt_NoneD)

section \<open>Counting the elements of a list under an update\<close>

definition count_if :: "('a \<Rightarrow> bool) \<Rightarrow> 'a list \<Rightarrow> nat" where
  "count_if P xs = length (filter P xs)"

lemma count_if_simps [simp]:
  "count_if P [] = 0"
  "count_if P (x # xs) = (if P x then Suc (count_if P xs) else count_if P xs)"
  by (simp_all add: count_if_def)

lemma count_if_le [simp]: "count_if P xs \<le> length xs"
  by (simp add: count_if_def)

lemma count_if_update:
  "i < length xs \<Longrightarrow>
     count_if P (xs[i := x]) + (if P (xs ! i) then 1 else 0) =
     count_if P xs + (if P x then 1 else 0)"
proof (induction xs arbitrary: i)
  case (Cons y ys)
  show ?case
  proof (cases i)
    case (Suc k)
    with Cons.prems Cons.IH [of k] show ?thesis by simp
  qed simp
qed simp

lemma count_if_update_same:
  "i < length xs \<Longrightarrow> P x = P (xs ! i) \<Longrightarrow> count_if P (xs[i := x]) = count_if P xs"
  using count_if_update [of i xs P x] by (auto split: if_splits)

lemma count_if_pos: "i < length xs \<Longrightarrow> P (xs ! i) \<Longrightarrow> 0 < count_if P xs"
  by (auto simp: count_if_def length_greater_0_conv filter_empty_conv)

lemma count_if_full_iff: "count_if P xs = length xs \<longleftrightarrow> (\<forall>x\<in>set xs. P x)"
proof (induction xs)
  case (Cons x xs)
  then show ?case using count_if_le [of P xs] by (auto simp del: count_if_le)
qed simp

lemma count_if_less: "i < length xs \<Longrightarrow> \<not> P (xs ! i) \<Longrightarrow> count_if P xs < length xs"
  using count_if_full_iff [of P xs] count_if_le [of P xs]
  by (metis le_neq_implies_less nth_mem)

section \<open>Prefixes of lists\<close>

lemma take_append_drop_add [simp]: "take m (drop n xs) @ drop (n + m) xs = drop n xs"
  by (metis add.commute append_take_drop_id drop_drop)

lemma take_drop_chain [simp]:
  "take i (drop n xs) @ take k (drop (n + i) xs) = take (i + k) (drop n xs)"
  by (metis add.commute drop_drop take_add)

lemma takeWhile_zero_append [simp]:
  "0 \<notin> set xs \<Longrightarrow> takeWhile (\<lambda>b. b \<noteq> 0) (xs @ 0 # ys) = xs"
  by (induction xs) auto

text \<open>A loop that takes a non-empty chunk gets nearer to its limit.\<close>

lemma diff_shrinks: "d \<noteq> [] \<Longrightarrow> length d \<le> n - a \<Longrightarrow> n - (a + length d) < n - (a :: nat)"
  by (cases d) auto

lemma diff_shrinks_less: "a < n \<Longrightarrow> d \<noteq> [] \<Longrightarrow> n - (a + length d) < n - (a :: nat)"
  by (cases d) auto

end
