(* ===== verification/Libc.thy ===== *)
theory Libc
  imports Prelude
begin

text \<open>
  The parts of the C standard library the programs use as pure functions, on an x86-64
  (little-endian) host: the memory image of integers and \<open>htonl\<close>/\<open>htons\<close>, C strings
  in byte memory, the \<open>printf\<close> conversions that occur in the sources, and
  \<open>inet_ntop\<close> for IPv4.
\<close>

section \<open>Memory images and byte order\<close>

definition bytes_of_u32 :: "u32 \<Rightarrow> byte list" where
  "bytes_of_u32 w =
     [ucast w, ucast (drop_bit 8 w), ucast (drop_bit 16 w), ucast (drop_bit 24 w)]"

definition u32_of_bytes :: "byte \<Rightarrow> byte \<Rightarrow> byte \<Rightarrow> byte \<Rightarrow> u32" where
  "u32_of_bytes a b c d =
     ucast a OR push_bit 8 (ucast b) OR push_bit 16 (ucast c) OR push_bit 24 (ucast d)"

definition bytes_of_u16 :: "u16 \<Rightarrow> byte list" where
  "bytes_of_u16 w = [ucast w, ucast (drop_bit 8 w)]"

definition u16_of_bytes :: "byte \<Rightarrow> byte \<Rightarrow> u16" where
  "u16_of_bytes a b = ucast a OR push_bit 8 (ucast b)"

definition htonl :: "u32 \<Rightarrow> u32" where
  "htonl w = u32_of_bytes (ucast (drop_bit 24 w)) (ucast (drop_bit 16 w))
               (ucast (drop_bit 8 w)) (ucast w)"

definition htons :: "u16 \<Rightarrow> u16" where
  "htons w = u16_of_bytes (ucast (drop_bit 8 w)) (ucast w)"

definition ntohl :: "u32 \<Rightarrow> u32" where
  "ntohl w = htonl w"

definition ntohs :: "u16 \<Rightarrow> u16" where
  "ntohs w = htons w"

text \<open>The bytes of a 32-bit number in network order, most significant first.\<close>

definition be32 :: "u32 \<Rightarrow> byte list" where
  "be32 w = [ucast (drop_bit 24 w), ucast (drop_bit 16 w), ucast (drop_bit 8 w), ucast w]"

lemma ucast_u32_of_bytes [codec_simps]:
  "(ucast (u32_of_bytes a b c d) :: byte) = a"
  "(ucast (drop_bit 8 (u32_of_bytes a b c d)) :: byte) = b"
  "(ucast (drop_bit 16 (u32_of_bytes a b c d)) :: byte) = c"
  "(ucast (drop_bit 24 (u32_of_bytes a b c d)) :: byte) = d"
  unfolding u32_of_bytes_def
  by (rule bit_word_eqI; auto simp: bit_simps dest: bit_imp_le_length)+

lemma bytes_of_u32_of_bytes [codec_simps]: "bytes_of_u32 (u32_of_bytes a b c d) = [a, b, c, d]"
  by (simp add: bytes_of_u32_def codec_simps)

lemma u32_of_bytes_of_u32 [codec_simps]:
  "u32_of_bytes (ucast w) (ucast (drop_bit 8 w)) (ucast (drop_bit 16 w)) (ucast (drop_bit 24 w)) = w"
  unfolding u32_of_bytes_def
proof (rule bit_word_eqI)
  fix n assume "n < LENGTH(32)"
  then consider "n < 8" | "8 \<le> n" "n < 16" | "16 \<le> n" "n < 24" | "24 \<le> n" "n < 32" by fastforce
  then show "bit (ucast (ucast w :: byte) OR push_bit 8 (ucast (ucast (drop_bit 8 w) :: byte))
      OR push_bit 16 (ucast (ucast (drop_bit 16 w) :: byte))
      OR push_bit 24 (ucast (ucast (drop_bit 24 w) :: byte)) :: u32) n = bit w n"
    by cases (auto simp: bit_simps)
qed

lemma htonl_htonl [codec_simps]: "htonl (htonl w) = w"
  by (simp add: htonl_def codec_simps)

lemma ntohl_htonl [codec_simps]: "ntohl (htonl w) = w"
  by (simp add: ntohl_def codec_simps)

lemma bytes_of_htonl [codec_simps]: "bytes_of_u32 (htonl w) = be32 w"
  by (simp add: htonl_def be32_def codec_simps)

lemma ntohl_be32 [codec_simps]:
  "ntohl (u32_of_bytes (ucast (drop_bit 24 w)) (ucast (drop_bit 16 w)) (ucast (drop_bit 8 w)) (ucast w)) = w"
  using ntohl_htonl [of w] by (simp add: htonl_def)

lemma length_be32 [simp]: "length (be32 w) = 4"
  by (simp add: be32_def)

lemma be32_decode:
  "ntohl (u32_of_bytes (be32 w ! 0) (be32 w ! 1) (be32 w ! 2) (be32 w ! 3)) = w"
  by (simp add: be32_def codec_simps)

lemma be32_inject [simp]: "be32 v = be32 w \<longleftrightarrow> v = w"
  by (metis be32_decode)

lemma u16_of_bytes_of_u16 [codec_simps]: "u16_of_bytes (ucast w) (ucast (drop_bit 8 w)) = w"
  unfolding u16_of_bytes_def
proof (rule bit_word_eqI)
  fix n assume "n < LENGTH(16)"
  then consider "n < 8" | "8 \<le> n" "n < 16" by fastforce
  then show "bit (ucast (ucast w :: byte) OR push_bit 8 (ucast (ucast (drop_bit 8 w) :: byte)) :: u16) n = bit w n"
    by cases (auto simp: bit_simps)
qed

lemma ucast_u16_of_bytes [codec_simps]:
  "(ucast (u16_of_bytes a b) :: byte) = a"
  "(ucast (drop_bit 8 (u16_of_bytes a b)) :: byte) = b"
  unfolding u16_of_bytes_def
  by (rule bit_word_eqI; auto simp: bit_simps dest: bit_imp_le_length)+

section \<open>C strings in memory\<close>

text \<open>
  \<open>cstr_in m\<close> is the C string at the start of the readable memory \<open>m\<close>: its bytes up
  to the first NUL, or \<open>None\<close> when there is no NUL before the memory ends, so that
  reading it leaves the object.
\<close>

definition cstr_in :: "byte list \<Rightarrow> byte list option" where
  "cstr_in m = (if 0 \<in> set m then Some (takeWhile (\<lambda>b. b \<noteq> 0) m) else None)"

lemma cstr_in_terminated [simp]: "0 \<notin> set xs \<Longrightarrow> cstr_in (xs @ 0 # ys) = Some xs"
  by (simp add: cstr_in_def)

definition chars :: "byte list \<Rightarrow> string" where
  "chars bs = map (\<lambda>b. char_of (unat b)) bs"

text \<open>The C string in a buffer that holds the bytes and a final NUL.\<close>

definition c_str :: "byte list \<Rightarrow> byte list" where
  "c_str bs = takeWhile (\<lambda>b. b \<noteq> 0) bs"

lemma c_str_no_nul [simp]: "0 \<notin> set bs \<Longrightarrow> c_str bs = bs"
  by (auto simp: c_str_def takeWhile_eq_all_conv)

lemma c_str_nonzero: "0 \<notin> set (c_str bs)"
  by (auto simp: c_str_def dest: set_takeWhileD)

definition ascii :: "string \<Rightarrow> byte list" where
  "ascii t = map (\<lambda>c. word_of_nat (of_char c)) t"

text \<open>White space of the C locale.\<close>

definition isspace :: "byte \<Rightarrow> bool" where
  "isspace b \<longleftrightarrow> b = 32 \<or> 9 \<le> b \<and> b \<le> 13"

section \<open>The conversions of \<open>printf\<close>\<close>

datatype fmt_arg = AInt int | AStr string

fun dec :: "nat \<Rightarrow> string" where
  "dec n = (if n < 10 then [char_of (48 + n)] else dec (n div 10) @ [char_of (48 + n mod 10)])"

declare dec.simps [simp del]

definition hex_digit :: "nat \<Rightarrow> char" where
  "hex_digit d = (if d < 10 then char_of (48 + d) else char_of (87 + d))"

fun hex :: "nat \<Rightarrow> string" where
  "hex n = (if n < 16 then [hex_digit n] else hex (n div 16) @ [hex_digit (n mod 16)])"

declare hex.simps [simp del]

definition dec_int :: "int \<Rightarrow> string" where
  "dec_int i = (if i < 0 then CHR ''-'' # dec (nat (- i)) else dec (nat i))"

text \<open>
  \<open>vfprintf\<close> for the conversions that occur: \<open>%d %u %hu %lu %ld %zd %s %x %c\<close>, the
  zero-padded \<open>%02x\<close> and the alternate form \<open>%#x\<close>. Length modifiers only select
  the width of the argument, which is already a number here.
\<close>

fun conv :: "char \<Rightarrow> fmt_arg \<Rightarrow> string" where
  "conv c (AStr t) = t"
| "conv c (AInt i) =
     (if c = CHR ''x'' then hex (nat i)
      else if c = CHR ''c'' then [char_of (nat (i mod 256))] else dec_int i)"

function vformat :: "string \<Rightarrow> fmt_arg list \<Rightarrow> string" where
  "vformat fmt args =
     (case fmt of [] \<Rightarrow> []
      | c # cs \<Rightarrow>
          if c \<noteq> CHR ''%'' then c # vformat cs args
          else if take 3 cs = ''02x'' then
            (case args of AInt i # as \<Rightarrow>
               (if i < 16 then CHR ''0'' # hex (nat i) else hex (nat i)) @ vformat (drop 3 cs) as
             | _ \<Rightarrow> [])
          else if take 2 cs = ''#x'' then
            (case args of AInt i # as \<Rightarrow>
               (if i = 0 then ''0'' else ''0x'' @ hex (nat i)) @ vformat (drop 2 cs) as
             | _ \<Rightarrow> [])
          else (case cs of [] \<Rightarrow> []
            | d # ds \<Rightarrow>
                if d = CHR ''l'' \<or> d = CHR ''h'' \<or> d = CHR ''z'' then
                  (case ds of [] \<Rightarrow> [] | e # es \<Rightarrow>
                     (case args of [] \<Rightarrow> [] | a # as \<Rightarrow> conv e a @ vformat es as))
                else if d = CHR ''%'' then CHR ''%'' # vformat ds args
                else (case args of [] \<Rightarrow> [] | a # as \<Rightarrow> conv d a @ vformat ds as)))"
  by pat_completeness auto
termination
  by (relation "measure (\<lambda>(fmt, args). length fmt)") auto

declare vformat.simps [simp del]

section \<open>Answers of \<open>getopt_long\<close>\<close>

text \<open>
  The programs only read what \<open>getopt_long\<close> answers: the index of a long option with its
  argument (empty when it takes none), or anything else, for which it has already reported an
  error. A run of \<open>main\<close> gets the list of the answers and the arguments from \<open>optind\<close> on.
\<close>

datatype getopt = GetOpt nat string | GetBad

section \<open>\<open>inet_ntop\<close> for IPv4\<close>

definition ntop4 :: "byte list \<Rightarrow> string" where
  "ntop4 a = dec (unat (a ! 0)) @ ''.'' @ dec (unat (a ! 1)) @ ''.'' @
             dec (unat (a ! 2)) @ ''.'' @ dec (unat (a ! 3))"

lemma dec_length_byte: "n < 256 \<Longrightarrow> 1 \<le> length (dec n) \<and> length (dec n) \<le> 3"
  by (simp add: dec.simps [of n] dec.simps [of "n div 10"] dec.simps [of "n div 10 div 10"])

lemma dec_length_u16: "n < 65536 \<Longrightarrow> 1 \<le> length (dec n) \<and> length (dec n) \<le> 5"
  by (simp add: dec.simps [of n] dec.simps [of "n div 10"] dec.simps [of "n div 10 div 10"]
      dec.simps [of "n div 10 div 10 div 10"] dec.simps [of "n div 10 div 10 div 10 div 10"])

lemma ntop4_length: "7 \<le> length (ntop4 a) \<and> length (ntop4 a) \<le> 15"
proof -
  have "1 \<le> length (dec (unat b)) \<and> length (dec (unat b)) \<le> 3" for b :: byte
    using unsigned_less [of b, where 'a = nat] by (intro dec_length_byte) simp
  from this [of "a ! 0"] this [of "a ! 1"] this [of "a ! 2"] this [of "a ! 3"]
  show ?thesis unfolding ntop4_def by simp
qed

end
