(* ===== verification/Os.thy ===== *)
theory Os
  imports Libc
begin

text \<open>
  The operating system as the programs see it through the socket API. The state \<open>os\<close>
  holds the open descriptors, the bytes put on each connection and the text printed;
  \<open>answers\<close> holds what the environment decides: the outcome of every call, indexed by
  the number of calls made so far, so that any behaviour of network, peers, scheduler and
  allocator is one value of \<open>answers\<close>. Every property below holds for all of them
  unless it names a hypothesis. A program's own state is a record that extends \<open>os\<close>.
\<close>

section \<open>Answers of the environment\<close>

datatype send_ans = SendFail | SendTake nat
datatype recv_ans = RecvFail | RecvData "byte list"
datatype calloc_ans = CallocNull | CallocOk "byte list"

text \<open>
  A \<open>struct sockaddr\<close>, read as the \<open>sockaddr_in\<close> it holds for IPv4: port and address are
  the 16 and 32 bits in memory, which are in network byte order.
\<close>

record sockaddr =
  sa_family :: u16
  sin_port :: u16
  sin_addr :: u32

datatype accept_ans = AcceptFail | AcceptConn sockaddr
datatype select_ans = SelIntr | SelFail | SelReady "int set"

record addrinfo =
  ai_family :: int
  ai_socktype :: int
  ai_protocol :: int
  ai_addr :: sockaddr

datatype gai_ans = GaiErr string | GaiOk "addrinfo list"

record answers =
  a_send :: "nat \<Rightarrow> send_ans"
  a_recv :: "nat \<Rightarrow> recv_ans"
  a_accept :: "nat \<Rightarrow> accept_ans"
  a_close :: "nat \<Rightarrow> bool"
  a_select :: "nat \<Rightarrow> select_ans"
  a_gai :: "nat \<Rightarrow> gai_ans"
  a_socket :: "nat \<Rightarrow> bool"
  a_bind :: "nat \<Rightarrow> bool"
  a_listen :: "nat \<Rightarrow> bool"
  a_connect :: "nat \<Rightarrow> bool"
  a_calloc :: "nat \<Rightarrow> calloc_ans"
  a_strerror :: "nat \<Rightarrow> string"
  a_ntop6 :: "nat \<Rightarrow> string"
  a_stack :: "nat \<Rightarrow> nat \<Rightarrow> byte"

record os =
  env :: answers
  tick :: nat
  open_fds :: "int list"
  sent :: "int \<Rightarrow> byte list"
  stdout :: string
  gai_live :: nat
  heap_live :: nat

abbreviation step_os :: "'a os_scheme \<Rightarrow> 'a os_scheme" where
  "step_os s \<equiv> s\<lparr>tick := Suc (tick s)\<rparr>"

section \<open>Descriptors\<close>

text \<open>POSIX gives the lowest-numbered descriptor that is not open.\<close>

definition lowest_fd :: "int list \<Rightarrow> int" where
  "lowest_fd fds = int (the (find (\<lambda>n. int n \<notin> set fds) [0..<Suc (length fds)]))"

lemma lowest_fd_found: "\<exists>n. find (\<lambda>n. int n \<notin> set fds) [0..<Suc (length fds)] = Some n"
proof -
  have "\<exists>n\<in>set [0..<Suc (length fds)]. int n \<notin> set fds"
  proof (rule ccontr)
    assume "\<not> ?thesis"
    then have "int ` {0..<Suc (length fds)} \<subseteq> set fds"
      by (auto simp: less_Suc_eq)
    then have "card (int ` {0..<Suc (length fds)}) \<le> length fds"
      by (metis List.finite_set card_length card_mono order_trans)
    then show False by (simp add: card_image)
  qed
  then show ?thesis by (metis (mono_tags, lifting) find_None_iff option.exhaust)
qed

lemma lowest_fd_fresh: "lowest_fd fds \<notin> set fds \<and> 0 \<le> lowest_fd fds"
proof -
  obtain n where n: "find (\<lambda>n. int n \<notin> set fds) [0..<Suc (length fds)] = Some n"
    using lowest_fd_found by blast
  from find_upt_SomeD [OF this] n show ?thesis by (simp add: lowest_fd_def del: upt_Suc)
qed

lemma lowest_fd_least:
  assumes "x \<notin> set fds" "0 \<le> x" shows "lowest_fd fds \<le> x"
proof -
  obtain n where n: "find (\<lambda>n. int n \<notin> set fds) [0..<Suc (length fds)] = Some n"
    using lowest_fd_found by blast
  then have "\<forall>j<n. int j \<in> set fds" by (auto dest!: find_upt_SomeD simp del: upt_Suc)
  with assms have "\<not> nat x < n" by auto
  then show ?thesis using assms n by (simp add: lowest_fd_def del: upt_Suc)
qed

lemma lowest_fd_notin [simp]: "lowest_fd fds \<notin> set fds"
  and lowest_fd_nonneg [simp]: "0 \<le> lowest_fd fds"
  using lowest_fd_fresh by auto

definition sys_close :: "int \<Rightarrow> 'a os_scheme \<Rightarrow> int \<times> 'a os_scheme" where
  "sys_close fd s =
     (if fd \<in> set (open_fds s)
      then (if a_close (env s) (tick s) then 0 else - 1,
            (step_os s)\<lparr>open_fds := removeAll fd (open_fds s)\<rparr>)
      else (- 1, step_os s))"

definition sys_socket :: "'a os_scheme \<Rightarrow> int \<times> 'a os_scheme" where
  "sys_socket s =
     (if a_socket (env s) (tick s)
      then (lowest_fd (open_fds s),
            (step_os s)\<lparr>open_fds := lowest_fd (open_fds s) # open_fds s\<rparr>)
      else (- 1, step_os s))"

text \<open>
  \<open>bind\<close>, \<open>listen\<close> and \<open>connect\<close> succeed or fail as the environment says and fail on a
  descriptor that is not open.
\<close>

definition sys_status :: "(answers \<Rightarrow> nat \<Rightarrow> bool) \<Rightarrow> int \<Rightarrow> 'a os_scheme \<Rightarrow> int \<times> 'a os_scheme" where
  "sys_status ans fd s =
     (if fd \<in> set (open_fds s) \<and> ans (env s) (tick s) then 0 else - 1, step_os s)"

definition sys_accept :: "int \<Rightarrow> 'a os_scheme \<Rightarrow> (int \<times> sockaddr option) \<times> 'a os_scheme" where
  "sys_accept fd s =
     (if fd \<notin> set (open_fds s) then ((- 1, None), step_os s)
      else case a_accept (env s) (tick s) of
        AcceptFail \<Rightarrow> ((- 1, None), step_os s)
      | AcceptConn a \<Rightarrow> ((lowest_fd (open_fds s), Some a),
            (step_os s)\<lparr>open_fds := lowest_fd (open_fds s) # open_fds s\<rparr>))"

section \<open>Data transfer\<close>

text \<open>\<open>send\<close> takes at most the bytes offered; \<open>recv\<close> returns at most \<open>cap\<close> bytes.\<close>

definition sys_send :: "int \<Rightarrow> byte list \<Rightarrow> 'a os_scheme \<Rightarrow> int \<times> 'a os_scheme" where
  "sys_send fd bs s =
     (if fd \<notin> set (open_fds s) then (- 1, step_os s)
      else case a_send (env s) (tick s) of
        SendFail \<Rightarrow> (- 1, step_os s)
      | SendTake n \<Rightarrow>
          (let m = min n (length bs)
           in (int m, (step_os s)\<lparr>sent := (sent s)(fd := sent s fd @ take m bs)\<rparr>)))"

definition sys_recv :: "int \<Rightarrow> nat \<Rightarrow> 'a os_scheme \<Rightarrow> (int \<times> byte list) \<times> 'a os_scheme" where
  "sys_recv fd cap s =
     (if fd \<notin> set (open_fds s) then ((- 1, []), step_os s)
      else case a_recv (env s) (tick s) of
        RecvFail \<Rightarrow> ((- 1, []), step_os s)
      | RecvData d \<Rightarrow> ((int (length (take cap d)), take cap d), step_os s))"

definition FD_SETSIZE :: int where
  "FD_SETSIZE = 1024"

text \<open>\<open>FD_SET\<close> outside \<open>0..FD_SETSIZE-1\<close> writes outside the bit array: \<open>None\<close>.\<close>

definition FD_SET :: "int \<Rightarrow> int set \<Rightarrow> int set option" where
  "FD_SET fd fds = (if 0 \<le> fd \<and> fd < FD_SETSIZE then Some (insert fd fds) else None)"

definition FD_CLR :: "int \<Rightarrow> int set \<Rightarrow> int set" where
  "FD_CLR fd fds = fds - {fd}"

text \<open>
  \<open>pselect\<close> on the descriptors below \<open>nfds\<close> of a read set: EBADF when one of them is not
  open, else interrupted, failed, or the ready part of them. \<open>SelError True\<close> is EINTR.
\<close>

datatype select_res = SelError bool | SelSet "int set"

definition sys_pselect :: "int \<Rightarrow> int set \<Rightarrow> 'a os_scheme \<Rightarrow> select_res \<times> 'a os_scheme" where
  "sys_pselect nfds fds s =
     (if \<not> Set.filter (\<lambda>fd. fd < nfds) fds \<subseteq> set (open_fds s) then (SelError False, step_os s)
      else case a_select (env s) (tick s) of
        SelIntr \<Rightarrow> (SelError True, step_os s)
      | SelFail \<Rightarrow> (SelError False, step_os s)
      | SelReady r \<Rightarrow> (SelSet (Set.filter (\<lambda>fd. fd < nfds) fds \<inter> r), step_os s))"

lemma sys_pselect_inter:
  "sys_pselect nfds fds s =
     (if \<not> fds \<inter> {..<nfds} \<subseteq> set (open_fds s) then (SelError False, step_os s)
      else case a_select (env s) (tick s) of
        SelIntr \<Rightarrow> (SelError True, step_os s)
      | SelFail \<Rightarrow> (SelError False, step_os s)
      | SelReady r \<Rightarrow> (SelSet (fds \<inter> {..<nfds} \<inter> r), step_os s))"
proof -
  have "Set.filter (\<lambda>fd. fd < nfds) fds = fds \<inter> {..<nfds}" by auto
  then show ?thesis by (simp only: sys_pselect_def)
qed

section \<open>Memory and name service\<close>

text \<open>
  \<open>calloc\<close>: \<open>None\<close> is NULL; otherwise the answer gives the readable bytes that happen to
  follow the block. \<open>heap_live\<close> counts the blocks allocated and not freed;
  \<open>heap_free n\<close> is \<open>n\<close> calls of \<open>free\<close> on live blocks.
\<close>

definition sys_calloc :: "'a os_scheme \<Rightarrow> byte list option \<times> 'a os_scheme" where
  "sys_calloc s =
     (case a_calloc (env s) (tick s) of
        CallocNull \<Rightarrow> (None, step_os s)
      | CallocOk slack \<Rightarrow> (Some slack, (step_os s)\<lparr>heap_live := Suc (heap_live s)\<rparr>))"

definition heap_free :: "nat \<Rightarrow> 'a os_scheme \<Rightarrow> 'a os_scheme" where
  "heap_free n s = s\<lparr>heap_live := heap_live s - n\<rparr>"

definition sys_getaddrinfo :: "'a os_scheme \<Rightarrow> gai_ans \<times> 'a os_scheme" where
  "sys_getaddrinfo s =
     (let r = a_gai (env s) (tick s)
      in (r, case r of GaiErr _ \<Rightarrow> step_os s
             | GaiOk _ \<Rightarrow> (step_os s)\<lparr>gai_live := Suc (gai_live s)\<rparr>))"

definition sys_freeaddrinfo :: "'a os_scheme \<Rightarrow> 'a os_scheme" where
  "sys_freeaddrinfo s = s\<lparr>gai_live := gai_live s - 1\<rparr>"

definition strerror :: "'a os_scheme \<Rightarrow> fmt_arg" where
  "strerror s = AStr (a_strerror (env s) (tick s))"

definition printf :: "string \<Rightarrow> fmt_arg list \<Rightarrow> 'a os_scheme \<Rightarrow> 'a os_scheme" where
  "printf fmt args s = s\<lparr>stdout := stdout s @ vformat fmt args\<rparr>"

lemma printf_frame [frame_simps]:
  "env (printf fmt args s) = env s" "tick (printf fmt args s) = tick s"
  "open_fds (printf fmt args s) = open_fds s" "sent (printf fmt args s) = sent s"
  "gai_live (printf fmt args s) = gai_live s" "heap_live (printf fmt args s) = heap_live s"
  "os.more (printf fmt args s) = os.more s"
  by (simp_all add: printf_def)

section \<open>What the calls guarantee\<close>

lemma sys_send_result:
  assumes "sys_send fd bs s = (r, s')"
  shows "- 1 \<le> r \<and> r \<le> int (length bs) \<and> open_fds s' = open_fds s \<and> env s' = env s \<and>
    os.more s' = os.more s \<and>
    sent s' = (if r < 0 then sent s else (sent s)(fd := sent s fd @ take (nat r) bs))"
  using assms
  by (auto simp: sys_send_def Let_def min_def split: if_splits send_ans.splits)

lemma sys_recv_result:
  assumes "sys_recv fd cap s = ((r, d), s')"
  shows "length d \<le> cap \<and> (r = - 1 \<and> d = [] \<or> r = int (length d)) \<and>
    open_fds s' = open_fds s \<and> sent s' = sent s \<and> env s' = env s \<and> os.more s' = os.more s"
  using assms by (auto simp: sys_recv_def split: if_splits recv_ans.splits)

lemma sys_recv_state: "sys_recv fd cap s = (x, s') \<Longrightarrow> s' = step_os s"
  by (auto simp: sys_recv_def split: if_splits recv_ans.splits)

lemma sys_accept_state:
  "sys_accept fd s = (x, s') \<Longrightarrow> s' = step_os s \<or> (\<exists>fds. s' = (step_os s)\<lparr>open_fds := fds\<rparr>)"
  by (auto simp: sys_accept_def split: if_splits accept_ans.splits)

lemma sys_close_state:
  "sys_close fd s = (r, s') \<Longrightarrow> s' = step_os s \<or> (\<exists>fds. s' = (step_os s)\<lparr>open_fds := fds\<rparr>)"
  by (auto simp: sys_close_def split: if_splits)

lemma sys_accept_result:
  assumes "sys_accept fd s = ((r, a), s')"
  shows "r = - 1 \<and> a = None \<and> open_fds s' = open_fds s \<or>
    0 \<le> r \<and> r \<notin> set (open_fds s) \<and> a \<noteq> None \<and> open_fds s' = r # open_fds s"
  using assms by (auto simp: sys_accept_def split: if_splits accept_ans.splits)

lemma sys_close_open_fds [os_simps]:
  "sys_close fd s = (r, s') \<Longrightarrow> set (open_fds s') = set (open_fds s) - {fd}"
  by (auto simp: sys_close_def split: if_splits)

text \<open>A blocking \<open>send\<close> of a non-empty buffer never returns 0.\<close>

definition send_progress :: "'a os_scheme \<Rightarrow> bool" where
  "send_progress s \<longleftrightarrow> (\<forall>n. a_send (env s) n \<noteq> SendTake 0)"

lemma send_progress_cong: "env s' = env s \<Longrightarrow> send_progress s' = send_progress s"
  by (simp add: send_progress_def)

lemma send_progress_pos:
  "send_progress s \<Longrightarrow> sys_send fd bs s = (r, s') \<Longrightarrow> bs \<noteq> [] \<Longrightarrow> r = - 1 \<or> 0 < r"
  unfolding sys_send_def send_progress_def Let_def
  by (fastforce simp: min_def split: if_splits send_ans.splits)

section \<open>A stream that ends\<close>

text \<open>
  \<open>chunks s ds fin\<close>: the environment delivers the non-empty chunks \<open>ds\<close> from the current
  tick on, then \<open>fin\<close>.
\<close>

definition chunks :: "'a os_scheme \<Rightarrow> byte list list \<Rightarrow> recv_ans \<Rightarrow> bool" where
  "chunks s ds fin \<longleftrightarrow>
     (\<forall>k<length ds. a_recv (env s) (tick s + k) = RecvData (ds ! k) \<and> ds ! k \<noteq> []) \<and>
     a_recv (env s) (tick s + length ds) = fin \<and> fin \<in> {RecvFail, RecvData []}"

lemma chunks_Cons:
  "chunks s (d # ds) fin \<Longrightarrow> a_recv (env s) (tick s) = RecvData d \<and> d \<noteq> [] \<and> chunks (step_os s) ds fin"
  unfolding chunks_def by (fastforce simp: nth_Cons split: nat.splits)

definition ending :: "recv_ans \<Rightarrow> int" where
  "ending fin = (if fin = RecvFail then - 1 else 0)"

section \<open>A well-behaved environment\<close>

text \<open>The environment many properties are instantiated with.\<close>

definition plain_env :: answers where
  "plain_env =
     \<lparr>a_send = \<lambda>n. SendTake 100, a_recv = \<lambda>n. RecvData [], a_accept = \<lambda>n. AcceptFail,
      a_close = \<lambda>n. True, a_select = \<lambda>n. SelFail, a_gai = \<lambda>n. GaiErr ''error'',
      a_socket = \<lambda>n. True, a_bind = \<lambda>n. True, a_listen = \<lambda>n. True, a_connect = \<lambda>n. True,
      a_calloc = \<lambda>n. CallocNull, a_strerror = \<lambda>n. ''error'', a_ntop6 = \<lambda>n. ''::'',
      a_stack = \<lambda>n k. 0\<rparr>"

lemma plain_answers [simp]:
  "a_send plain_env n = SendTake 100" "a_recv plain_env n = RecvData []"
  "a_socket plain_env n" "a_connect plain_env n" "a_close plain_env n"
  by (simp_all add: plain_env_def)

end
