(* ===== verification/SocketIO.thy ===== *)
theory SocketIO
  imports Os
begin

text \<open>
  Sending a whole buffer over a stream socket. The programs share the loop
  \<open>send_bytes\<close>: \<open>program_04/registry.c\<close> and \<open>program_01/h1-counter.c\<close> stop on a
  negative result, \<open>lab_04/dl_request.c\<close> on \<open>-1\<close>, and \<open>lab_03\<close> on \<open>\<le> 0\<close> with its own
  bookkeeping. \<open>None\<close> is a call that never returns. The locale \<open>stream_sender\<close> is the
  contract the callers rely on.
\<close>

section \<open>The contract\<close>

locale stream_sender =
  fixes send_all :: "int \<Rightarrow> byte list \<Rightarrow> 's \<Rightarrow> (int \<times> 's) option"
    and wire :: "'s \<Rightarrow> int \<Rightarrow> byte list"
  assumes send_all_ok:
      "send_all fd bs s = Some (0, s') \<Longrightarrow> wire s' = (wire s)(fd := wire s fd @ bs)"
    and send_all_fail:
      "send_all fd bs s = Some (r, s') \<Longrightarrow> r \<noteq> 0 \<Longrightarrow>
         r = - 1 \<and> (\<exists>k<length bs. wire s' = (wire s)(fd := wire s fd @ take k bs))"
begin

lemma result_code: "send_all fd bs s = Some (r, s') \<Longrightarrow> r = 0 \<or> r = - 1"
  using send_all_fail by blast

lemma others_untouched:
  "send_all fd bs s = Some (r, s') \<Longrightarrow> fd' \<noteq> fd \<Longrightarrow> wire s' fd' = wire s fd'"
  using send_all_ok send_all_fail by (cases "r = 0") fastforce+

lemma wire_prefix:
  "send_all fd bs s = Some (r, s') \<Longrightarrow> \<exists>k\<le>length bs. wire s' fd = wire s fd @ take k bs"
proof (cases "r = 0")
  case True
  assume "send_all fd bs s = Some (r, s')"
  with True show ?thesis by (auto simp: send_all_ok intro: exI [of _ "length bs"])
next
  case False
  assume "send_all fd bs s = Some (r, s')"
  from send_all_fail [OF this False] show ?thesis by (auto intro: less_imp_le)
qed

lemma two_messages:
  assumes "send_all fd a s = Some (0, s1)" "send_all fd b s1 = Some (0, s2)"
  shows "wire s2 fd = wire s fd @ a @ b"
  using assms by (simp add: send_all_ok)

end

text \<open>A sender that always returns from states that satisfy \<open>good\<close>.\<close>

locale live_sender = stream_sender +
  fixes good :: "'b \<Rightarrow> bool"
  assumes send_all_returns:
    "good s \<Longrightarrow> \<exists>r s'. send_all fd bs s = Some (r, s') \<and> good s'"
begin

lemma returns_code:
  "good s \<Longrightarrow> \<exists>s'. good s' \<and> (send_all fd bs s = Some (0, s') \<or> send_all fd bs s = Some (- 1, s'))"
  using send_all_returns result_code by metis

end

section \<open>\<open>send_bytes\<close> of the registry and of h1-counter\<close>

partial_function (option) send_loop ::
  "int \<Rightarrow> byte list \<Rightarrow> nat \<Rightarrow> 'a os_scheme \<Rightarrow> (int \<times> 'a os_scheme) option" where
  "send_loop sock buff total_sent s =
     (if total_sent < length buff then
        (case sys_send sock (drop total_sent buff) s of (snt, s') \<Rightarrow>
           if snt < 0 then Some (- 1, s')
           else send_loop sock buff (total_sent + nat snt) s')
      else Some (0, s))"

declare send_loop.simps [code]

definition send_bytes :: "int \<Rightarrow> byte list \<Rightarrow> 'a os_scheme \<Rightarrow> (int \<times> 'a os_scheme) option" where
  "send_bytes sock buff s = send_loop sock buff 0 s"

text \<open>What the loop keeps: everything but the bytes on \<open>sock\<close>.\<close>

lemma send_loop_frame:
  assumes "send_loop sock buff n s = Some (r, s')"
  shows "open_fds s' = open_fds s \<and> env s' = env s \<and> os.more s' = os.more s"
proof -
  have "case res of (r, s') \<Rightarrow> open_fds s' = open_fds s \<and> env s' = env s \<and> os.more s' = os.more s"
    if "send_loop sock buff n s = Some res" for res
    using that
  proof (induction rule: send_loop.raw_induct [rotated, consumes 1])
    case (1 loop sock buff n s res)
    then show ?case
      by (fastforce split: if_splits prod.splits dest!: sys_send_result)
  qed
  with assms show ?thesis by auto
qed

lemma send_loop_wire:
  assumes "send_loop sock buff n s = Some (r, s')" "n \<le> length buff"
  shows "r = 0 \<and> sent s' = (sent s)(sock := sent s sock @ drop n buff) \<or>
    r = - 1 \<and> (\<exists>k<length buff - n. sent s' = (sent s)(sock := sent s sock @ take k (drop n buff)))"
proof -
  define P where "P = (\<lambda>sock buff n (s::'a os_scheme) res. n \<le> length buff \<longrightarrow>
    (case res of (r, s') \<Rightarrow>
      r = (0::int) \<and> sent (s'::'a os_scheme) = (sent s)(sock := sent s sock @ drop n buff) \<or>
      r = - 1 \<and> (\<exists>k<length buff - n. sent s' = (sent s)(sock := sent s sock @ take k (drop n buff)))))"
  have "P sock buff n s res" if "send_loop sock buff n s = Some res" for res
    using that
  proof (induction rule: send_loop.raw_induct [rotated, consumes 1])
    case (1 loop sock buff n s res)
    show ?case
    proof (cases "n < length buff")
      case False
      with 1(2) show ?thesis by (auto simp: P_def)
    next
      case True
      obtain q t where q: "sys_send sock (drop n buff) s = (q, t)" by fastforce
      note w = sys_send_result [OF q]
      show ?thesis
      proof (cases "q < 0")
        case True
        with 1(2) q w \<open>n < length buff\<close> show ?thesis by (auto simp: P_def intro!: exI [of _ 0])
      next
        case False
        with 1(2) q True have "P sock buff (n + nat q) t res"
          by (intro 1(1)) simp
        moreover have "nat q \<le> length buff - n" using w by auto
        then have le: "n + nat q \<le> length buff" using True by arith
        moreover obtain r u where res: "res = (r, u)" by fastforce
        ultimately consider
          "r = 0" "sent u = (sent t)(sock := sent t sock @ drop (n + nat q) buff)"
          | k where "r = - 1" "k < length buff - (n + nat q)"
              "sent u = (sent t)(sock := sent t sock @ take k (drop (n + nat q) buff))"
          by (auto simp: P_def)
        then show ?thesis
        proof cases
          case 1
          with w False res show ?thesis by (simp add: P_def)
        next
          case 2
          with w False have "sent u = (sent s)(sock := sent s sock @ take (nat q + k) (drop n buff))"
            by simp
          moreover have "nat q + k < length buff - n" using 2(2) le by arith
          ultimately show ?thesis using 2(1) res by (auto simp: P_def)
        qed
      qed
    qed
  qed
  with assms show ?thesis by (auto simp: P_def)
qed

lemma send_loop_returns:
  assumes "send_progress s"
  shows "\<exists>r s'. send_loop sock buff n s = Some (r, s')"
  using assms
proof (induction "length buff - n" arbitrary: n s rule: less_induct)
  case less
  obtain q t where q: "sys_send sock (drop n buff) s = (q, t)" by fastforce
  show ?case
  proof (cases "n < length buff \<and> 0 \<le> q")
    case True
    with q less.prems have "0 < q" using send_progress_pos [OF _ q] by fastforce
    moreover have "send_progress t"
      using less.prems sys_send_result [OF q] by (auto cong: send_progress_cong)
    ultimately have "\<exists>r s'. send_loop sock buff (n + nat q) t = Some (r, s')"
      using True by (intro less.hyps) auto
    with q True show ?thesis by (simp add: send_loop.simps [of sock buff n])
  next
    case False
    with q show ?thesis by (auto simp: send_loop.simps [of sock buff n])
  qed
qed

lemma send_bytes_frame [frame_simps]:
  assumes "send_bytes sock buff s = Some (r, s')"
  shows "open_fds s' = open_fds s" "env s' = env s" "os.more s' = os.more s"
  using assms send_loop_frame by (fastforce simp: send_bytes_def)+

interpretation send_bytes: live_sender send_bytes sent send_progress
proof unfold_locales
  fix fd bs and s s' :: "'a os_scheme" and r
  show "send_bytes fd bs s = Some (0, s') \<Longrightarrow> sent s' = (sent s)(fd := sent s fd @ bs)"
    using send_loop_wire [of fd bs 0 s 0 s'] by (auto simp: send_bytes_def)
  show "send_bytes fd bs s = Some (r, s') \<Longrightarrow> r \<noteq> 0 \<Longrightarrow>
      r = - 1 \<and> (\<exists>k<length bs. sent s' = (sent s)(fd := sent s fd @ take k bs))"
    using send_loop_wire [of fd bs 0 s r s'] by (auto simp: send_bytes_def)
  assume good: "send_progress s"
  then obtain r t where "send_bytes fd bs s = Some (r, t)"
    using send_loop_returns by (fastforce simp: send_bytes_def)
  then show "\<exists>r s'. send_bytes fd bs s = Some (r, s') \<and> send_progress s'"
    using good send_bytes_frame(2) send_progress_cong by metis
qed

text \<open>A connection on which every \<open>send\<close> makes progress: the whole buffer gets out.\<close>

definition send_works :: "'a os_scheme \<Rightarrow> bool" where
  "send_works s \<longleftrightarrow>
     (\<forall>n. case a_send (env s) n of SendFail \<Rightarrow> False | SendTake m \<Rightarrow> 0 < m)"

lemma send_works_cong: "env s' = env s \<Longrightarrow> send_works s' = send_works s"
  by (simp add: send_works_def)

lemma send_works_pos:
  assumes "send_works s" "fd \<in> set (open_fds s)" "sys_send fd bs s = (r, s')" "bs \<noteq> []"
  shows "0 < r"
proof -
  from assms(1) have "case a_send (env s) (tick s) of SendFail \<Rightarrow> False | SendTake m \<Rightarrow> 0 < m"
    by (simp add: send_works_def)
  with assms(2-4) show ?thesis
    by (auto simp: sys_send_def Let_def split: send_ans.splits)
qed

lemma send_loop_works:
  assumes "send_works s" "sock \<in> set (open_fds s)"
  shows "\<exists>s'. send_loop sock buff n s = Some (0, s')"
  using assms
proof (induction "length buff - n" arbitrary: n s rule: less_induct)
  case less
  obtain q t where q: "sys_send sock (drop n buff) s = (q, t)" by fastforce
  note w = sys_send_result [OF q]
  show ?case
  proof (cases "n < length buff")
    case True
    with less.prems q have "0 < q" by (auto dest: send_works_pos)
    moreover have "send_works t" "sock \<in> set (open_fds t)"
      using less.prems w by (auto cong: send_works_cong)
    ultimately have "\<exists>s'. send_loop sock buff (n + nat q) t = Some (0, s')"
      using True by (intro less.hyps) auto
    with q True \<open>0 < q\<close> show ?thesis by (simp add: send_loop.simps [of sock buff n])
  qed (simp add: send_loop.simps [of sock buff n])
qed

lemma send_bytes_works:
  assumes "send_works s" "sock \<in> set (open_fds s)"
  shows "\<exists>s'. send_bytes sock buff s = Some (0, s') \<and>
    sent s' = (sent s)(sock := sent s sock @ buff)"
  using send_loop_works [OF assms, of buff 0] send_bytes.send_all_ok
  by (fastforce simp: send_bytes_def)

end
