(* ===== verification/RegTypes.thy ===== *)
theory RegTypes
  imports SocketIO
begin

text \<open>
  \<open>program_04/registry.c\<close>, part 1: the data of the registry server and the operations that
  only touch it. \<open>struct server\<close> extends the operating-system state of theory \<open>Os\<close>, so a
  handler is a function from server to server; \<open>struct client *\<close> is an index into the array
  \<open>clients\<close>. A published file name is a heap block \<open>fblock\<close>: the bytes allocated for it and
  the readable bytes that happen to follow them.
\<close>

section \<open>\<open>enum client_state\<close>\<close>

datatype client_state = CLIENT_UNKNOWN | CLIENT_JOINED | CLIENT_REGISTERED

primrec client_state_int :: "client_state \<Rightarrow> nat" where
  "client_state_int CLIENT_UNKNOWN = 0"
| "client_state_int CLIENT_JOINED = 1"
| "client_state_int CLIENT_REGISTERED = 2"

lemma client_state_int_inject [simp]: "client_state_int a = client_state_int b \<longleftrightarrow> a = b"
  by (cases a; cases b) simp_all

instantiation client_state :: linorder
begin

definition less_eq_client_state :: "client_state \<Rightarrow> client_state \<Rightarrow> bool" where
  "a \<le> b \<longleftrightarrow> client_state_int a \<le> client_state_int b"

definition less_client_state :: "client_state \<Rightarrow> client_state \<Rightarrow> bool" where
  "a < b \<longleftrightarrow> client_state_int a < client_state_int b"

instance
  by standard (auto simp: less_eq_client_state_def less_client_state_def)

end

section \<open>The structures\<close>

record fblock =
  fdata :: "byte list"
  fslack :: "byte list"

record client =
  c_active :: bool
  c_id :: u32
  c_type :: client_state
  c_sock :: int
  c_addr :: sockaddr
  c_files_len :: nat
  c_files :: "fblock list option"

datatype server_output = STDOUT_LOG | FILE_LOG

record server = os +
  max_conn :: nat
  max_files :: nat
  active_clients :: nat
  clients :: "client list"
  listen_sock :: int
  all_socks :: "int set"
  max_socket :: int
  output_type :: server_output
  out_text :: string
  flushed :: string

abbreviation client_at :: "server \<Rightarrow> nat \<Rightarrow> client" where
  "client_at s i \<equiv> clients s ! i"

abbreviation set_client :: "nat \<Rightarrow> client \<Rightarrow> server \<Rightarrow> server" where
  "set_client i c s \<equiv> s\<lparr>clients := (clients s)[i := c]\<rparr>"

definition BUFF_SIZE :: nat where
  "BUFF_SIZE = 2048"

definition IPLEN_AND_PORT :: nat where
  "IPLEN_AND_PORT = 51"

section \<open>Logging\<close>

text \<open>
  The server writes to its log file or, with \<open>STDOUT_LOG\<close>, to standard output; every
  \<open>srv_*\<close> function flushes the file.
\<close>

definition srv_write :: "string \<Rightarrow> server \<Rightarrow> server" where
  "srv_write t s =
     (case output_type s of
        STDOUT_LOG \<Rightarrow> s\<lparr>stdout := stdout s @ t\<rparr>
      | FILE_LOG \<Rightarrow> s\<lparr>out_text := out_text s @ t\<rparr>)"

definition srv_flush :: "server \<Rightarrow> server" where
  "srv_flush s = (if output_type s = FILE_LOG then s\<lparr>flushed := out_text s\<rparr> else s)"

definition srv_log :: "string \<Rightarrow> fmt_arg list \<Rightarrow> server \<Rightarrow> server" where
  "srv_log fmt args s = srv_flush (srv_write (vformat fmt args) s)"

definition srv_info :: "string \<Rightarrow> fmt_arg list \<Rightarrow> server \<Rightarrow> server" where
  "srv_info fmt args s = srv_flush (srv_write (vformat fmt args) (srv_write ''[INFO] '' s))"

definition srv_warn :: "string \<Rightarrow> fmt_arg list \<Rightarrow> server \<Rightarrow> server" where
  "srv_warn fmt args s = srv_flush (srv_write (vformat fmt args) (srv_write ''[WARN] '' s))"

definition srv_error :: "string \<Rightarrow> fmt_arg list \<Rightarrow> server \<Rightarrow> server" where
  "srv_error fmt args s = srv_flush (srv_write (vformat fmt args) (srv_write ''[ERROR] '' s))"

definition srv_debug :: "string \<Rightarrow> fmt_arg list \<Rightarrow> server \<Rightarrow> server" where
  "srv_debug fmt args s = srv_flush (srv_write (vformat fmt args) (srv_write ''[DEBUG] '' s))"

text \<open>
  \<open>quiet s' s\<close>: the two states differ at most in what was printed. Every logging call and
  \<open>printf\<close> is quiet, so the proofs about the tables go through the logging.
\<close>

definition quiet :: "server \<Rightarrow> server \<Rightarrow> bool" where
  "quiet s' s \<longleftrightarrow>
     s' = s\<lparr>stdout := stdout s', out_text := out_text s', flushed := flushed s'\<rparr>"

lemma quiet_refl [simp]: "quiet s s"
  by (simp add: quiet_def)

lemma quiet_fields:
  assumes "quiet s' s"
  shows "env s' = env s" "tick s' = tick s" "open_fds s' = open_fds s" "sent s' = sent s"
    "gai_live s' = gai_live s" "max_conn s' = max_conn s" "max_files s' = max_files s"
    "active_clients s' = active_clients s" "clients s' = clients s"
    "listen_sock s' = listen_sock s" "all_socks s' = all_socks s"
    "max_socket s' = max_socket s" "output_type s' = output_type s" "heap_live s' = heap_live s"
proof -
  from assms have eq: "s' = s\<lparr>stdout := stdout s', out_text := out_text s', flushed := flushed s'\<rparr>"
    by (simp only: quiet_def)
  show "env s' = env s" "tick s' = tick s" "open_fds s' = open_fds s" "sent s' = sent s"
    "gai_live s' = gai_live s" "max_conn s' = max_conn s" "max_files s' = max_files s"
    "active_clients s' = active_clients s" "clients s' = clients s"
    "listen_sock s' = listen_sock s" "all_socks s' = all_socks s"
    "max_socket s' = max_socket s" "output_type s' = output_type s" "heap_live s' = heap_live s"
    by (subst eq, simp)+
qed

lemma quiet_trans [trans]: "quiet a b \<Longrightarrow> quiet b c \<Longrightarrow> quiet a c"
  by (cases a; cases b; cases c) (auto simp: quiet_def)

lemma quiet_srv_write: "quiet (srv_write t s) s"
  by (auto simp: quiet_def srv_write_def split: server_output.splits)

lemma quiet_srv_flush: "quiet (srv_flush s) s"
  by (auto simp: quiet_def srv_flush_def)

lemma quiet_log [simp]:
  "quiet (srv_log fmt args s) s" "quiet (srv_info fmt args s) s" "quiet (srv_warn fmt args s) s"
  "quiet (srv_error fmt args s) s" "quiet (srv_debug fmt args s) s"
  unfolding srv_log_def srv_info_def srv_warn_def srv_error_def srv_debug_def
  by (blast intro: quiet_trans quiet_srv_flush quiet_srv_write)+

lemma quiet_printf [simp]: "quiet (printf fmt args s) (s :: server)"
  by (simp add: quiet_def printf_def)

lemma quiet_sym: "quiet a b \<Longrightarrow> quiet b a"
  by (cases a; cases b) (auto simp: quiet_def)

lemma quiet_absorb:
  assumes "quiet t s"
  shows "quiet u t = quiet u s" "quiet t u = quiet s u"
  using assms quiet_sym quiet_trans by blast+

lemmas quiet_log_absorb [simp] =
  quiet_log [THEN quiet_absorb(1)] quiet_log [THEN quiet_absorb(2)]
  quiet_printf [THEN quiet_absorb(1)] quiet_printf [THEN quiet_absorb(2)]

lemmas log_frame [simp] =
  quiet_log [THEN quiet_fields(1)] quiet_log [THEN quiet_fields(2)]
  quiet_log [THEN quiet_fields(3)] quiet_log [THEN quiet_fields(4)]
  quiet_log [THEN quiet_fields(5)] quiet_log [THEN quiet_fields(6)]
  quiet_log [THEN quiet_fields(7)] quiet_log [THEN quiet_fields(8)]
  quiet_log [THEN quiet_fields(9)] quiet_log [THEN quiet_fields(10)]
  quiet_log [THEN quiet_fields(11)] quiet_log [THEN quiet_fields(12)]
  quiet_log [THEN quiet_fields(13)] quiet_log [THEN quiet_fields(14)]
  quiet_printf [THEN quiet_fields(1)] quiet_printf [THEN quiet_fields(2)]
  quiet_printf [THEN quiet_fields(3)] quiet_printf [THEN quiet_fields(4)]
  quiet_printf [THEN quiet_fields(5)] quiet_printf [THEN quiet_fields(6)]
  quiet_printf [THEN quiet_fields(7)] quiet_printf [THEN quiet_fields(8)]
  quiet_printf [THEN quiet_fields(9)] quiet_printf [THEN quiet_fields(10)]
  quiet_printf [THEN quiet_fields(11)] quiet_printf [THEN quiet_fields(12)]
  quiet_printf [THEN quiet_fields(13)] quiet_printf [THEN quiet_fields(14)]

section \<open>Client slots\<close>

text \<open>
  \<open>clear_client_files\<close> frees \<open>files[0..files_len-1]\<close> and the array (\<open>free(NULL)\<close> is no
  operation) and leaves the length to the caller. \<open>None\<close> is an access outside the array.
  \<open>clear_client\<close> resets every field except \<open>type\<close> and \<open>addr\<close>.
\<close>

definition clear_client_files :: "nat \<Rightarrow> server \<Rightarrow> server option" where
  "clear_client_files i s =
     (let c = client_at s i in
      case c_files c of
        None \<Rightarrow> if c_files_len c = 0 then Some (set_client i (c\<lparr>c_files := None\<rparr>) s) else None
      | Some fs \<Rightarrow>
          if c_files_len c \<le> length fs
          then Some (set_client i (c\<lparr>c_files := None\<rparr>) (heap_free (c_files_len c + 1) s))
          else None)"

definition reset_client :: "client \<Rightarrow> client" where
  "reset_client c = c\<lparr>c_active := False, c_id := 0, c_sock := 0, c_files_len := 0\<rparr>"

definition clear_client :: "nat \<Rightarrow> server \<Rightarrow> server option" where
  "clear_client i s =
     (case clear_client_files i s of
        None \<Rightarrow> None
      | Some s1 \<Rightarrow> Some (set_client i (reset_client (client_at s1 i)) s1))"

text \<open>\<open>close_server_output\<close>: the flag says whether the log file is closed by it.\<close>

definition close_server_output :: "server \<Rightarrow> bool \<times> server" where
  "close_server_output s =
     (if output_type s \<noteq> FILE_LOG then (False, s) else (True, s\<lparr>flushed := out_text s\<rparr>))"

section \<open>Well-formed clients\<close>

text \<open>A published name: non-NUL ASCII bytes.\<close>

definition name_ok :: "byte list \<Rightarrow> bool" where
  "name_ok bs \<longleftrightarrow> (\<forall>b\<in>set bs. b \<noteq> 0 \<and> b < 128)"

definition files_ok :: "nat \<Rightarrow> client \<Rightarrow> bool" where
  "files_ok limit c \<longleftrightarrow>
     (case c_files c of
        None \<Rightarrow> c_files_len c = 0
      | Some fs \<Rightarrow> length fs = c_files_len c \<and> (\<forall>f\<in>set fs. name_ok (fdata f) \<and> 0 \<in> set (fslack f))) \<and>
     c_files_len c \<le> limit"

definition slot_clear :: "client \<Rightarrow> bool" where
  "slot_clear c \<longleftrightarrow> c_id c = 0 \<and> c_sock c = 0 \<and> c_files_len c = 0 \<and> c_files c = None"

lemma files_ok_clear [simp]: "slot_clear c \<Longrightarrow> files_ok n c"
  by (simp add: slot_clear_def files_ok_def)

text \<open>The blocks a client owns: one per name and the array of pointers.\<close>

definition client_blocks :: "client \<Rightarrow> nat" where
  "client_blocks c = (case c_files c of None \<Rightarrow> 0 | Some fs \<Rightarrow> Suc (length fs))"

lemma client_blocks_clear [simp]: "slot_clear c \<Longrightarrow> client_blocks c = 0"
  by (simp add: slot_clear_def client_blocks_def)

text \<open>On a well-formed client both operations succeed and free exactly its blocks.\<close>

lemma clear_client_files_ok:
  assumes "files_ok n (client_at s i)"
  shows "clear_client_files i s =
    Some (set_client i ((client_at s i)\<lparr>c_files := None\<rparr>)
      (heap_free (client_blocks (client_at s i)) s))"
  using assms
  by (auto simp: clear_client_files_def files_ok_def client_blocks_def heap_free_def Let_def
      split: option.splits)

definition cleared :: "client \<Rightarrow> client" where
  "cleared c = reset_client (c\<lparr>c_files := None\<rparr>)"

lemma cleared_fields [simp]:
  "c_active (cleared c) = False" "c_type (cleared c) = c_type c" "c_addr (cleared c) = c_addr c"
  "slot_clear (cleared c)"
  by (simp_all add: cleared_def reset_client_def slot_clear_def)

lemma clear_client_ok:
  assumes "files_ok n (client_at s i)" "i < length (clients s)"
  shows "clear_client i s =
    Some (set_client i (cleared (client_at s i)) (heap_free (client_blocks (client_at s i)) s))"
  using assms by (simp add: clear_client_def clear_client_files_ok cleared_def reset_client_def heap_free_def)

end
