(* ===== verification/RegText.thy ===== *)
theory RegText
  imports RegTypes
begin

text \<open>
  \<open>program_04/registry.c\<close>, part 2: address and buffer formatting. A \<open>char\<close> buffer after
  \<open>inet_ntop\<close> holds the text, a NUL, and whatever was in it before (\<open>old\<close>, the
  uninitialised stack); a read past its \<open>len\<close> bytes is \<open>IpFault\<close>.
\<close>

section \<open>Addresses\<close>

datatype ip_res = IpNull | IpStr string | IpFault

definition AF_INET :: u16 where
  "AF_INET = 2"

definition AF_INET6 :: u16 where
  "AF_INET6 = 10"

definition port_number :: "sockaddr \<Rightarrow> nat" where
  "port_number a = unat (ntohs (sin_port a))"

definition char_buf :: "string \<Rightarrow> (nat \<Rightarrow> char) \<Rightarrow> nat \<Rightarrow> char" where
  "char_buf t old k =
     (if k < length t then t ! k else if k = length t then char_of (0::nat) else old k)"

text \<open>\<open>strlen (str + off) + off\<close>: the first NUL at or after \<open>off\<close> inside the buffer.\<close>

definition strlen_from :: "nat \<Rightarrow> nat \<Rightarrow> (nat \<Rightarrow> char) \<Rightarrow> nat option" where
  "strlen_from off len buf = find (\<lambda>k. buf k = char_of (0::nat)) [off..<len]"

text \<open>\<open>inet_ntop\<close> fails when the text and its NUL do not fit.\<close>

definition inet_ntop :: "string \<Rightarrow> nat \<Rightarrow> string option" where
  "inet_ntop t len = (if length t + 1 \<le> len then Some t else None)"

text \<open>
  The part the two functions share: find the end of the address from \<open>off\<close> on, return the
  bare address when fewer than six bytes are left, else append \<open>:port\<close> with \<open>snprintf\<close>,
  which writes at most \<open>len - wrote - 1\<close> characters.
\<close>

definition append_port ::
  "nat \<Rightarrow> string \<Rightarrow> (nat \<Rightarrow> char) \<Rightarrow> nat \<Rightarrow> nat \<Rightarrow> ip_res" where
  "append_port off t old len port =
     (case strlen_from off len (char_buf t old) of
        None \<Rightarrow> IpFault
      | Some wrote \<Rightarrow>
          if wrote + 6 > len then IpStr t
          else if wrote < length t then
            IpStr (take wrote t @ take (len - wrote - 1) (vformat '':%u'' [AInt (int port)]))
          else if wrote = length t then
            IpStr (t @ take (len - wrote - 1) (vformat '':%u'' [AInt (int port)]))
          else IpStr t)"

definition get_ipv4_port ::
  "sockaddr \<Rightarrow> (nat \<Rightarrow> char) \<Rightarrow> nat \<Rightarrow> bool \<Rightarrow> ip_res" where
  "get_ipv4_port addr old len inc_port =
     (case inet_ntop (ntop4 (bytes_of_u32 (sin_addr addr))) len of
        None \<Rightarrow> IpNull
      | Some t \<Rightarrow> if inc_port then append_port 7 t old len (port_number addr) else IpStr t)"

text \<open>
  For IPv6 the text of the address is the environment's, since \<open>sockaddr_in6\<close> is larger
  than the \<open>struct sockaddr\<close> that \<open>accept\<close> filled.
\<close>

definition get_ipv6_port ::
  "string \<Rightarrow> sockaddr \<Rightarrow> (nat \<Rightarrow> char) \<Rightarrow> nat \<Rightarrow> bool \<Rightarrow> ip_res" where
  "get_ipv6_port text6 addr old len inc_port =
     (case inet_ntop text6 len of
        None \<Rightarrow> IpNull
      | Some t \<Rightarrow> if inc_port then append_port 3 t old len (port_number addr) else IpStr t)"

definition get_ip_port ::
  "string \<Rightarrow> sockaddr \<Rightarrow> (nat \<Rightarrow> char) \<Rightarrow> nat \<Rightarrow> bool \<Rightarrow> ip_res" where
  "get_ip_port text6 addr old len inc_port =
     (if sa_family addr = AF_INET then get_ipv4_port addr old len inc_port
      else if sa_family addr = AF_INET6 then get_ipv6_port text6 addr old len inc_port
      else IpNull)"

section \<open>\<open>print_buffer\<close>\<close>

definition hex_item :: "byte \<Rightarrow> string" where
  "hex_item b =
     (if b \<le> 0x0f then vformat '' 0%x'' [AInt (uint b)] else vformat '' %x'' [AInt (uint b)])"

definition char_item :: "byte \<Rightarrow> string" where
  "char_item b =
     (if b = 10 then vformat (CHR '' '' # CHR 0x5C # ''n'') []
      else if b < 32 then vformat '' CC'' []
      else if b \<ge> 128 then vformat '' EE'' []
      else vformat ''  %c'' [AInt (uint b)])"

definition VERBOSE :: byte where
  "VERBOSE = 1"

definition print_buffer_text :: "byte list \<Rightarrow> byte \<Rightarrow> string" where
  "print_buffer_text buff flags =
     ''buffer:'' @ concat (map hex_item buff) @
     (if flags AND VERBOSE = VERBOSE
      then ''\<newline>      :'' @ concat (map char_item buff) @ ''\<newline>''
      else ''\<newline>'')"

definition print_buffer :: "byte list \<Rightarrow> byte \<Rightarrow> server \<Rightarrow> server" where
  "print_buffer buff flags s = srv_write (print_buffer_text buff flags) s"

lemma quiet_print_buffer [simp]: "quiet (print_buffer buff flags s) s"
  by (simp add: print_buffer_def quiet_srv_write)

section \<open>Lemmas\<close>

lemma vformat_Nil [simp]: "vformat [] args = []"
  by (simp add: vformat.simps)

lemma vformat_char [simp]: "c \<noteq> CHR ''%'' \<Longrightarrow> vformat (c # cs) args = c # vformat cs args"
  by (subst vformat.simps) simp

lemma vformat_conv [simp]:
  "d \<notin> {CHR ''l'', CHR ''h'', CHR ''z'', CHR ''%'', CHR ''0'', CHR ''#''} \<Longrightarrow>
     vformat (CHR ''%'' # d # ds) (a # as) = conv d a @ vformat ds as"
  by (subst vformat.simps) simp

lemma vformat_02x:
  "vformat '' %02x'' [AInt i] =
     CHR '' '' # (if i < 16 then CHR ''0'' # hex (nat i) else hex (nat i))"
  by (simp add: vformat.simps [of "''%02x''"])

text \<open>A hex digit pair: the branch on \<open>0x0f\<close> is the conversion \<open>%02x\<close>.\<close>

lemma hex_item_02x: "hex_item b = vformat '' %02x'' [AInt (uint b)]"
proof -
  have "b \<le> 0x0f \<longleftrightarrow> uint b < 16"
    by (simp add: word_le_def) linarith
  then show ?thesis
    by (simp add: hex_item_def vformat_02x)
qed

lemma hex_length_byte: "n < 256 \<Longrightarrow> length (hex n) = (if n < 16 then 1 else 2)"
proof -
  assume "n < 256"
  then have "n div 16 < 16" by arith
  then show ?thesis by (simp add: hex.simps [of n] hex.simps [of "n div 16"])
qed

lemma hex_item_length: "length (hex_item b) = 3"
proof -
  have "int (unat b) = uint b" by simp
  then have "uint b < 16 \<longleftrightarrow> unat b < 16" by linarith
  moreover have "unat b < 256" using unsigned_less [of b, where 'a = nat] by simp
  ultimately show ?thesis
    by (simp add: hex_item_02x vformat_02x hex_length_byte)
qed

lemma dec_no_nul: "char_of (0::nat) \<notin> set (dec n)"
proof (induction n rule: dec.induct)
  case (1 n)
  have "char_of (48 + d) \<noteq> (char_of (0::nat) :: char)" if "d < 10" for d :: nat
    using that by (simp add: char_of_eq_iff take_bit_eq_mod)
  with 1 show ?case by (subst dec.simps) auto
qed

lemma ntop4_no_nul: "char_of (0::nat) \<notin> set (ntop4 a)"
  using dec_no_nul by (auto simp: ntop4_def char_of_def)

lemma strlen_from_text:
  assumes "char_of (0::nat) \<notin> set t" "off \<le> length t" "length t < len"
  shows "strlen_from off len (char_buf t old) = Some (length t)"
  unfolding strlen_from_def
proof (rule find_upt_SomeI)
  fix j assume "j < length t"
  then show "char_buf t old j \<noteq> char_of (0::nat)"
    using assms(1) nth_mem by (fastforce simp: char_buf_def)
qed (use assms in \<open>auto simp: char_buf_def\<close>)

lemma get_ipv4_port_text:
  assumes "len \<ge> 22"
  shows "get_ipv4_port addr old len True = IpStr (ntop4 (bytes_of_u32 (sin_addr addr)) @ '':'' @ dec (port_number addr))"
proof -
  let ?t = "ntop4 (bytes_of_u32 (sin_addr addr))"
  have l: "7 \<le> length ?t" "length ?t \<le> 15" using ntop4_length by auto
  have "port_number addr < 65536"
    using unsigned_less [of "ntohs _ :: u16", where 'a = nat] by (simp add: port_number_def)
  then have "length (dec (port_number addr)) \<le> 5" using dec_length_u16 by blast
  with l assms show ?thesis
    by (simp add: get_ipv4_port_def inet_ntop_def append_port_def strlen_from_text ntop4_no_nul
        dec_int_def)
qed

end
