(* ===== verification/RegHandlers.thy ===== *)
theory RegHandlers
  imports RegText
begin

text \<open>
  \<open>program_04/registry.c\<close>, part 3: the request handlers. \<open>recv_buffer\<close> is the function
  \<open>buf\<close> on the indices below \<open>BUFF_SIZE\<close>; the parameter \<open>buffer\<close> of a handler is
  \<open>recv_buffer + 1\<close>. A handler returns \<open>None\<close> when the call does not return normally: a
  read outside an object, a NULL dereference, or a \<open>send\<close> loop that never ends.
\<close>

section \<open>Reading the request\<close>

text \<open>The C string at \<open>recv_buffer + k\<close>.\<close>

function buf_str :: "(nat \<Rightarrow> byte) \<Rightarrow> nat \<Rightarrow> byte list option" where
  "buf_str buf k =
     (if k < BUFF_SIZE then
        (if buf k = 0 then Some [] else map_option ((#) (buf k)) (buf_str buf (Suc k)))
      else None)"
  by pat_completeness auto
termination
  by (relation "measure (\<lambda>(buf, k). BUFF_SIZE - k)") auto

declare buf_str.simps [simp del]

text \<open>The string a published block reads as.\<close>

definition block_str :: "fblock \<Rightarrow> byte list option" where
  "block_str f = cstr_in (fdata f @ fslack f)"

text \<open>The text of the peer's address that the handlers log.\<close>

definition client_ip :: "sockaddr \<Rightarrow> server \<Rightarrow> ip_res" where
  "client_ip a s =
     get_ip_port (a_ntop6 (env s) (tick s)) a
       (\<lambda>k. char_of (unat (a_stack (env s) (tick s) k))) IPLEN_AND_PORT True"

section \<open>\<open>handle_join\<close>\<close>

definition join_register :: "nat \<Rightarrow> u32 \<Rightarrow> server \<Rightarrow> server option" where
  "join_register i received_id s =
     (case client_ip (c_addr (client_at s i)) s of
        IpFault \<Rightarrow> None
      | r \<Rightarrow>
          (let s1 =
             (case r of
                IpStr ip \<Rightarrow>
                  srv_info ''handle_join: client addr: %s -> %u\<newline>''
                    [AStr ip, AInt (uint received_id)] s
              | _ \<Rightarrow>
                  srv_info ''handle_join: client registered %u\<newline>'' [AInt (uint received_id)]
                    (srv_error ''handle_join: failed to create ip string from client: %s\<newline>''
                       [strerror s] s));
             s2 = printf ''TEST] JOIN %u\<newline>'' [AInt (uint received_id)] s1
           in Some (set_client i
                ((client_at s2 i)\<lparr>c_id := received_id, c_type := CLIENT_JOINED\<rparr>) s2)))"

definition handle_join :: "nat \<Rightarrow> (nat \<Rightarrow> byte) \<Rightarrow> nat \<Rightarrow> server \<Rightarrow> server option" where
  "handle_join i buf len s =
     (if len \<noteq> 4 then Some (srv_warn ''handle_join: bytes received is not 4\<newline>'' [] s)
      else
        (let received_id = ntohl (u32_of_bytes (buf 1) (buf 2) (buf 3) (buf 4));
             s1 = srv_info ''handle_join: client joining registry. id: %u\<newline>''
                    [AInt (uint received_id)] s
         in case find (\<lambda>k. c_active (client_at s1 k)) [0..<max_conn s1] of
              None \<Rightarrow> Some s1
            | Some k \<Rightarrow>
                if c_id (client_at s1 k) = received_id then
                  Some
                    (if c_sock (client_at s1 k) \<noteq> c_sock (client_at s1 i) then
                       (if c_type (client_at s1 i) = CLIENT_JOINED
                        then srv_warn ''handle_join: client already registered\<newline>'' [] s1
                        else srv_warn ''handle_join: client has been REGISTERED\<newline>'' [] s1)
                     else srv_warn ''handle_join: client id already registered\<newline>'' [] s1)
                else join_register i received_id s1))"

section \<open>\<open>handle_publish\<close>\<close>

datatype scan = FoundNull nat | NonAscii nat | RanOut | ScanFault

text \<open>The inner loop: \<open>for (; str_len < len; ++str_len)\<close> over \<open>p[str_len]\<close>.\<close>

function scan_name :: "(nat \<Rightarrow> byte) \<Rightarrow> nat \<Rightarrow> nat \<Rightarrow> nat \<Rightarrow> scan" where
  "scan_name buf p len str_len =
     (if str_len < len then
        (if p + str_len < BUFF_SIZE then
           (if buf (p + str_len) = 0 then FoundNull str_len
            else if buf (p + str_len) \<ge> 128 then NonAscii str_len
            else scan_name buf p len (Suc str_len))
         else ScanFault)
      else RanOut)"
  by pat_completeness auto
termination
  by (relation "measure (\<lambda>(buf, p, len, k). len - k)") auto

declare scan_name.simps [simp del]

text \<open>
  The loop over \<open>count\<close>, with the number of names still to read, the moving pointer \<open>p\<close>
  and the bytes left. \<open>arr\<close> says whether the array \<open>files\<close> was allocated. The result
  is \<open>clean_up\<close> and the blocks allocated so far.
\<close>

fun publish_loop ::
  "nat \<Rightarrow> bool \<Rightarrow> (nat \<Rightarrow> byte) \<Rightarrow> nat \<Rightarrow> nat \<Rightarrow> fblock list \<Rightarrow> server \<Rightarrow>
     (bool \<times> fblock list \<times> server) option" where
  "publish_loop 0 arr buf p len files s = Some (False, files, s)"
| "publish_loop (Suc n) arr buf p len files s =
     (case scan_name buf p len 0 of
        ScanFault \<Rightarrow> None
      | NonAscii k \<Rightarrow>
          Some (True, files,
            srv_warn ''handle_publish: non null terminated string given by client\<newline>'' []
              (srv_warn ''handle_publish: invalid ASCII character received from client\<newline>'' [] s))
      | RanOut \<Rightarrow>
          Some (True, files,
            srv_warn ''handle_publish: non null terminated string given by client\<newline>'' [] s)
      | FoundNull str_len \<Rightarrow>
          (case sys_calloc s of
             (None, s1) \<Rightarrow>
               Some (True, files, srv_error ''handle_publish: failed allocating string\<newline>'' [] s1)
           | (Some slack, s1) \<Rightarrow>
               (let f = \<lparr>fdata = map (\<lambda>j. buf (p + j)) [0..<str_len], fslack = slack\<rparr>
                in if \<not> arr then None
                   else case block_str f of
                     None \<Rightarrow> None
                   | Some t \<Rightarrow>
                       publish_loop n arr buf (p + (str_len + 1)) (len - (str_len + 1)) (files @ [f])
                         (srv_info ''handle_publish: str: \"%s\" %lu\<newline>''
                            [AStr (chars t), AInt (int str_len)] s1))))"

text \<open>Listing the published names in the log and on standard output.\<close>

definition publish_report :: "nat \<Rightarrow> fblock list \<Rightarrow> server \<Rightarrow> server option" where
  "publish_report files_len files s =
     (case those (map block_str files) of
        None \<Rightarrow> None
      | Some ts \<Rightarrow>
          (let s1 = fold (\<lambda>t. srv_log ''    %s\<newline>'' [AStr (chars t)]) ts s;
               s2 = printf ''TEST] PUBLISH %lu'' [AInt (int files_len)] s1;
               s3 = fold (\<lambda>t. printf '' %s'' [AStr (chars t)]) ts s2
           in Some (printf ''\<newline>'' [] s3)))"

definition publish_store :: "nat \<Rightarrow> nat \<Rightarrow> bool \<Rightarrow> fblock list \<Rightarrow> server \<Rightarrow> server option" where
  "publish_store i files_len arr files s =
     (case clear_client_files i s of
        None \<Rightarrow> None
      | Some s1 \<Rightarrow>
          (let s2 = set_client i ((client_at s1 i)
                      \<lparr>c_files_len := files_len, c_files := (if arr then Some files else None)\<rparr>) s1;
               s3 = srv_info ''handle_publish: published files\<newline>'' [] s2
           in publish_report files_len files s3))"

definition handle_publish :: "nat \<Rightarrow> (nat \<Rightarrow> byte) \<Rightarrow> nat \<Rightarrow> server \<Rightarrow> server option" where
  "handle_publish i buf len s =
     (if c_type (client_at s i) = CLIENT_UNKNOWN then
        Some (srv_warn ''handle_publish: client has not joined or registered\<newline>'' [] s)
      else if len \<ge> 1199 then
        Some (srv_warn ''handle_publish: bytes received is greater than 1200\<newline>'' [] s)
      else
        (let s1 = srv_info ''handle_publish: client %u publishing files\<newline>''
                    [AInt (uint (c_id (client_at s i)))] s
         in if len < 4 then Some (srv_warn ''handle_publish: too few bytes received\<newline>'' [] s1)
            else
              (let files_len = unat (ntohl (u32_of_bytes (buf 1) (buf 2) (buf 3) (buf 4)))
               in if files_len > max_files s1 then
                    Some (srv_warn ''handle_publish: number of files is greater than max. given: %lu\<newline>''
                            [AInt (int files_len)] s1)
                  else
                    (case sys_calloc s1 of (blk, s2) \<Rightarrow>
                       (case publish_loop files_len (blk \<noteq> None) buf 5 (len - 4) [] s2 of
                          None \<Rightarrow> None
                        | Some (True, files, s3) \<Rightarrow>
                            Some (heap_free (length files + (if blk = None then 0 else 1))
                              (srv_log ''handle_publish: cleaning up allocated strings\<newline>'' [] s3))
                        | Some (False, files, s3) \<Rightarrow>
                            publish_store i files_len (blk \<noteq> None) files s3)))))"

section \<open>\<open>handle_search\<close>\<close>

text \<open>
  The comparison loop of \<open>search_client_files\<close> on the memory at the published block and the
  query at \<open>recv_buffer + q\<close>: the end of the published name is tested first.
\<close>

fun match_file :: "byte list \<Rightarrow> (nat \<Rightarrow> byte) \<Rightarrow> nat \<Rightarrow> bool option" where
  "match_file [] buf q = None"
| "match_file (m # ms) buf q =
     (if m = 0 then Some True
      else if q < BUFF_SIZE then
        (if buf q = 0 then Some False
         else if buf q \<noteq> m then Some False
         else match_file ms buf (Suc q))
      else None)"

fun search_files ::
  "fblock list \<Rightarrow> (nat \<Rightarrow> byte) \<Rightarrow> nat \<Rightarrow> server \<Rightarrow> (bool \<times> server) option" where
  "search_files [] buf q s = Some (False, s)"
| "search_files (f # fs) buf q s =
     (case block_str f of
        None \<Rightarrow> None
      | Some t \<Rightarrow>
          (let s1 = srv_debug ''     checking \"%s\"\<newline>'' [AStr (chars t)] s
           in case match_file (fdata f @ fslack f) buf q of
                None \<Rightarrow> None
              | Some True \<Rightarrow> Some (True, s1)
              | Some False \<Rightarrow> search_files fs buf q s1))"

definition search_client_files ::
  "(nat \<Rightarrow> byte) \<Rightarrow> nat \<Rightarrow> nat \<Rightarrow> server \<Rightarrow> (bool \<times> server) option" where
  "search_client_files buf q k s =
     (let c = client_at s k in
      case c_files c of
        None \<Rightarrow> if c_files_len c = 0 then Some (False, s) else None
      | Some fs \<Rightarrow>
          if c_files_len c \<le> length fs then search_files (take (c_files_len c) fs) buf q s
          else None)"

text \<open>The loop over the client array; the result is the index of the owner found.\<close>

fun search_clients ::
  "nat list \<Rightarrow> (nat \<Rightarrow> byte) \<Rightarrow> nat \<Rightarrow> server \<Rightarrow> (nat option \<times> server) option" where
  "search_clients [] buf q s = Some (None, s)"
| "search_clients (k # ks) buf q s =
     (if \<not> c_active (client_at s k) then search_clients ks buf q s
      else
        (let s1 = srv_debug ''handle_search: checking client: %u\<newline>''
                    [AInt (uint (c_id (client_at s k)))] s
         in case search_client_files buf q k s1 of
              None \<Rightarrow> None
            | Some (True, s2) \<Rightarrow>
                Some (Some k, srv_info ''handle_search: found file. id: %u\<newline>''
                  [AInt (uint (c_id (client_at s2 k)))] s2)
            | Some (False, s2) \<Rightarrow> search_clients ks buf q s2))"

text \<open>\<open>send_bytes(client->sock, response, 10)\<close> with its error log; \<open>True\<close>: it failed.\<close>

definition respond :: "nat \<Rightarrow> byte list \<Rightarrow> server \<Rightarrow> (bool \<times> server) option" where
  "respond i response s =
     (case send_bytes (c_sock (client_at s i)) response s of
        None \<Rightarrow> None
      | Some (r, s1) \<Rightarrow>
          if r \<noteq> 0 then
            Some (True, srv_error ''handle_search: error sending resposne: %s\<newline>'' [strerror s1] s1)
          else Some (False, s1))"

definition zero_response :: "byte list" where
  "zero_response = replicate 10 0"

text \<open>The ASCII check: an empty response for every byte above 127, and on.\<close>

fun ascii_loop ::
  "nat list \<Rightarrow> nat \<Rightarrow> (nat \<Rightarrow> byte) \<Rightarrow> server \<Rightarrow> (bool \<times> server) option" where
  "ascii_loop [] i buf s = Some (False, s)"
| "ascii_loop (k # ks) i buf s =
     (if buf (1 + k) \<ge> 128 then
        (case respond i zero_response
                (srv_warn ''handle_search: file name contains non ASCII characters\<newline>'' [] s) of
           None \<Rightarrow> None
         | Some (True, s1) \<Rightarrow> Some (True, s1)
         | Some (False, s1) \<Rightarrow> ascii_loop ks i buf s1)
      else ascii_loop ks i buf s)"

text \<open>The check on \<open>buffer[len - 1]\<close>; with \<open>len = 0\<close> the index wraps to \<open>recv_buffer[0]\<close>.\<close>

definition null_check :: "nat \<Rightarrow> (nat \<Rightarrow> byte) \<Rightarrow> nat \<Rightarrow> server \<Rightarrow> (bool \<times> server) option" where
  "null_check i buf len s =
     (let at = (1 + size_sub len 1) mod 2 ^ 64 in
      if at \<ge> BUFF_SIZE then None
      else if buf at \<noteq> 0 then
        respond i zero_response
          (srv_warn ''handle_search: non null terminated string from client\<newline>'' [] s)
      else Some (False, s))"

text \<open>The answer for a found owner: id, address and port in network byte order.\<close>

definition found_response :: "client \<Rightarrow> byte list" where
  "found_response c =
     (if sa_family (c_addr c) = AF_INET
      then bytes_of_u32 (htonl (c_id c)) @ bytes_of_u32 (sin_addr (c_addr c)) @
             bytes_of_u16 (sin_port (c_addr c))
      else zero_response)"

definition search_report :: "byte list \<Rightarrow> nat option \<Rightarrow> server \<Rightarrow> server option" where
  "search_report query found s =
     (case found of
        None \<Rightarrow>
          Some (printf ''TEST] SEARCH %s 0 0.0.0.0:0\<newline>'' [AStr (chars query)]
            (srv_info ''handle_search: failed to find file\<newline>'' [] s))
      | Some k \<Rightarrow>
          if sa_family (c_addr (client_at s k)) = AF_INET then
            (case get_ipv4_port (c_addr (client_at s k))
                    (\<lambda>j. char_of (unat (a_stack (env s) (tick s) j))) IPLEN_AND_PORT True of
               IpFault \<Rightarrow> None
             | IpNull \<Rightarrow>
                 Some (srv_error ''handle_search: failed to create ipv4 string from client: %s\<newline>''
                   [strerror s] s)
             | IpStr ip \<Rightarrow>
                 Some (printf ''TEST] SEARCH %s %u %s\<newline>''
                   [AStr (chars query), AInt (uint (c_id (client_at s k))), AStr ip] s))
          else Some (srv_warn ''handle_search: client is using non IPv4 address\<newline>'' [] s))"

definition search_answer :: "nat \<Rightarrow> (nat \<Rightarrow> byte) \<Rightarrow> server \<Rightarrow> server option" where
  "search_answer i buf s =
     (case buf_str buf 1 of
        None \<Rightarrow> None
      | Some query \<Rightarrow>
          (let s1 = srv_info ''handle_search: client %u searching files for %s\<newline>''
                      [AInt (uint (c_id (client_at s i))), AStr (chars query)] s
           in case search_clients [0..<max_conn s1] buf 1 s1 of
                None \<Rightarrow> None
              | Some (found, s2) \<Rightarrow>
                  (case search_report query found s2 of
                     None \<Rightarrow> None
                   | Some s3 \<Rightarrow>
                       (case respond i
                               (case found of None \<Rightarrow> zero_response
                                | Some k \<Rightarrow> found_response (client_at s3 k))
                               (srv_info ''handle_search: sending response\<newline>'' [] s3) of
                          None \<Rightarrow> None
                        | Some (_, s4) \<Rightarrow> Some s4))))"

definition handle_search :: "nat \<Rightarrow> (nat \<Rightarrow> byte) \<Rightarrow> nat \<Rightarrow> server \<Rightarrow> server option" where
  "handle_search i buf len s =
     (if c_type (client_at s i) = CLIENT_UNKNOWN then
        Some (srv_warn ''handle_publish: client has not joined or registered\<newline>'' [] s)
      else if len \<ge> 100 then
        Some (srv_warn ''handle_search: received too many bytes from client\<newline>'' [] s)
      else
        (case ascii_loop [0..<len] i buf s of
           None \<Rightarrow> None
         | Some (True, s1) \<Rightarrow> Some s1
         | Some (False, s1) \<Rightarrow>
             (case null_check i buf len s1 of
                None \<Rightarrow> None
              | Some (True, s2) \<Rightarrow> Some s2
              | Some (False, s2) \<Rightarrow> search_answer i buf s2)))"

end
