(* ===== verification/RegServer.thy ===== *)
theory RegServer
  imports RegHandlers
begin

text \<open>
  \<open>program_04/registry.c\<close>, part 4: accepting and serving connections, the main loop, start
  and shutdown. \<open>main\<close> is split at its sections: \<open>server_setup\<close>, \<open>main_loop\<close> over
  \<open>serve_once\<close>, \<open>server_shutdown\<close>.
\<close>

section \<open>\<open>server_accept\<close>\<close>

definition accept_register :: "int \<Rightarrow> sockaddr \<Rightarrow> server \<Rightarrow> server option" where
  "accept_register client_sock client_addr s =
     (case client_ip client_addr s of
        IpFault \<Rightarrow> None
      | r \<Rightarrow>
          (let s1 =
             (case r of
                IpStr ip \<Rightarrow> srv_info ''client addr: %s\<newline>'' [AStr ip] s
              | _ \<Rightarrow> srv_error ''failed to create ip string from client: %s\<newline>'' [strerror s] s)
           in case FD_SET client_sock (all_socks s1) of
                None \<Rightarrow> None
              | Some fds \<Rightarrow>
                  (let s2 = s1\<lparr>all_socks := fds,
                              max_socket := (if client_sock > max_socket s1 then client_sock
                                             else max_socket s1)\<rparr>
                   in Some
                     (case find (\<lambda>k. \<not> c_active (client_at s2 k)) [0..<max_conn s2] of
                        None \<Rightarrow> s2
                      | Some k \<Rightarrow>
                          (set_client k ((client_at s2 k)\<lparr>c_active := True, c_sock := client_sock,
                             c_addr := client_addr\<rparr>) s2)\<lparr>active_clients := active_clients s2 + 1\<rparr>))))"

definition server_accept :: "server \<Rightarrow> server option" where
  "server_accept s =
     (case sys_accept (listen_sock s) (srv_info ''accepting new connection\<newline>'' [] s) of
        ((client_sock, None), s1) \<Rightarrow>
          Some (srv_error ''failed to accept client: %s\<newline>'' [strerror s1] s1)
      | ((client_sock, Some client_addr), s1) \<Rightarrow>
          if active_clients s1 = size_sub (max_conn s1) 1 then
            (case sys_close client_sock (srv_warn ''max server connections reached\<newline>'' [] s1) of
               (r, s2) \<Rightarrow>
                 if r \<noteq> 0 then
                   Some (srv_error ''error closing connected socket: %s\<newline>'' [strerror s2] s2)
                 else accept_register client_sock client_addr s2)
          else accept_register client_sock client_addr s1)"

section \<open>\<open>handle_client\<close>\<close>

text \<open>\<open>recv_buffer\<close> after \<open>recv\<close>: the data, then what the stack held before.\<close>

definition recv_buf :: "byte list \<Rightarrow> (nat \<Rightarrow> byte) \<Rightarrow> nat \<Rightarrow> byte" where
  "recv_buf d old k = (if k < length d then d ! k else old k)"

definition close_client :: "nat \<Rightarrow> int \<Rightarrow> server \<Rightarrow> server option" where
  "close_client i read s =
     (let sock = c_sock (client_at s i);
          s1 = (if read = - 1
                then srv_error ''client %d error: %s\<newline>'' [AInt sock, strerror s] s else s);
          s2 = srv_info ''client: %d closing\<newline>'' [AInt sock] s1;
          s3 = snd (sys_close sock s2);
          s4 = s3\<lparr>all_socks := FD_CLR sock (all_socks s3)\<rparr>
      in case clear_client i s4 of
           None \<Rightarrow> None
         | Some s5 \<Rightarrow> Some (s5\<lparr>active_clients := size_sub (active_clients s5) 1\<rparr>))"

definition dispatch :: "nat \<Rightarrow> (nat \<Rightarrow> byte) \<Rightarrow> nat \<Rightarrow> server \<Rightarrow> server option" where
  "dispatch i buf len s =
     (if buf 0 = 0 then handle_join i buf (len - 1) s
      else if buf 0 = 1 then handle_publish i buf (len - 1) s
      else if buf 0 = 2 then handle_search i buf (len - 1) s
      else Some (srv_warn ''unknown command received from client: %u\<newline>'' [AInt (uint (buf 0))] s))"

definition handle_client :: "nat \<Rightarrow> server \<Rightarrow> server option" where
  "handle_client i s =
     (case sys_recv (c_sock (client_at s i)) BUFF_SIZE s of
        ((read, d), s1) \<Rightarrow>
          if read \<le> 0 then close_client i read s1
          else
            (let s2 = srv_debug ''client %d data:\<newline>'' [AInt (c_sock (client_at s1 i))] s1;
                 s3 = print_buffer d VERBOSE s2
             in dispatch i (recv_buf d (a_stack (env s) (tick s))) (nat read) s3))"

section \<open>The main loop\<close>

definition find_client :: "int \<Rightarrow> server \<Rightarrow> nat option" where
  "find_client fd s =
     find (\<lambda>k. c_active (client_at s k) \<and> c_sock (client_at s k) = fd) [0..<max_conn s]"

definition serve_socket :: "int \<Rightarrow> server \<Rightarrow> server option" where
  "serve_socket fd s =
     (if fd = listen_sock s then server_accept s
      else case find_client fd s of
             None \<Rightarrow> Some (srv_error ''failed to find client based on socket: %d\<newline>'' [AInt fd] s)
           | Some k \<Rightarrow> handle_client k s)"

text \<open>\<open>for (int s = 3; s <= srv.max_socket; ++s)\<close>; the bound may grow in the loop.\<close>

partial_function (option) serve_loop :: "int \<Rightarrow> int set \<Rightarrow> server \<Rightarrow> server option" where
  "serve_loop fd call_set s =
     (if fd \<le> max_socket s then
        (if fd \<notin> call_set then serve_loop (fd + 1) call_set s
         else case serve_socket fd s of
                None \<Rightarrow> None
              | Some s' \<Rightarrow> serve_loop (fd + 1) call_set s')
      else Some s)"

declare serve_loop.simps [code]

datatype iteration = Stop server | Next server

definition serve_once :: "server \<Rightarrow> iteration option" where
  "serve_once s =
     (case sys_pselect (max_socket s + 1) (all_socks s)
             (srv_info ''waiting for activity\<newline>'' [] s) of
        (SelError interrupted, s1) \<Rightarrow>
          Some (Stop (if interrupted then srv_info ''signal interupt\<newline>'' [] s1
                      else srv_error ''pselect: %s\<newline>'' [strerror s1] s1))
      | (SelSet call_set, s1) \<Rightarrow> map_option Next (serve_loop 3 call_set s1))"

partial_function (option) main_loop :: "server \<Rightarrow> server option" where
  "main_loop s =
     (case serve_once s of
        None \<Rightarrow> None
      | Some it \<Rightarrow> (case it of Stop s' \<Rightarrow> Some s' | Next s' \<Rightarrow> main_loop s'))"

declare main_loop.simps [code]

section \<open>Start and shutdown\<close>

fun bind_try :: "addrinfo list \<Rightarrow> server \<Rightarrow> int option \<times> server" where
  "bind_try [] s = (None, s)"
| "bind_try (rp # rps) s =
     (case sys_socket s of (fd, s1) \<Rightarrow>
        if fd = - 1 then bind_try rps s1
        else (case sys_status a_bind fd s1 of (r, s2) \<Rightarrow>
                if r = 0 then (Some fd, s2) else bind_try rps (snd (sys_close fd s2))))"

definition bind_and_listen :: "server \<Rightarrow> int \<times> server" where
  "bind_and_listen s =
     (case sys_getaddrinfo s of
        (GaiErr e, s1) \<Rightarrow> (- 1, srv_error ''bind_and_listen: getaddrinfo: %s\<newline>'' [AStr e] s1)
      | (GaiOk result, s1) \<Rightarrow>
          (case bind_try result s1 of
             (None, s2) \<Rightarrow> (- 1, s2)
           | (Some fd, s2) \<Rightarrow>
               (case sys_status a_listen fd s2 of (r, s3) \<Rightarrow>
                  if r = - 1 then
                    (- 1, snd (sys_close fd
                       (srv_error ''bind_and_listen: failed to listen on socket: %s\<newline>''
                          [strerror s3] s3)))
                  else (fd, sys_freeaddrinfo s3))))"

definition init_client :: client where
  "init_client = \<lparr>c_active = False, c_id = 0, c_type = CLIENT_UNKNOWN, c_sock = 0,
     c_addr = \<lparr>sa_family = 0, sin_port = 0, sin_addr = 0\<rparr>, c_files_len = 0, c_files = None\<rparr>"

text \<open>
  The setup section, with \<open>TEST_OUTPUT\<close>: \<open>log_ok\<close> says whether \<open>fopen\<close> of the log file
  succeeded. \<open>Inl (n, l)\<close> is an exit with status \<open>n\<close> after writing \<open>l\<close> to the log; \<open>None\<close> is
  the \<open>FD_SET\<close> of a bad listening socket, whose result is not checked.
\<close>

definition server_setup :: "bool \<Rightarrow> os \<Rightarrow> (nat \<times> string + server) option" where
  "server_setup log_ok w =
     (if \<not> log_ok then Some (Inl (1, []))
      else
        (let w1 = w\<lparr>open_fds := lowest_fd (open_fds w) # open_fds w\<rparr>;
             s0 = os.extend w1 (server.fields 50 10 0 [] 0 {} 0 FILE_LOG [] [])
         in case sys_calloc s0 of
              (None, s1) \<Rightarrow>
                Some (Inl (1, flushed (snd (close_server_output
                  (srv_error ''failed allocation client connection data: %s\<newline>'' [strerror s1] s1)))))
            | (Some _, s1) \<Rightarrow>
                (let s2 = s1\<lparr>clients := replicate (max_conn s1) init_client\<rparr>;
                     s3 = srv_info ''creating listening socket\<newline>'' [] s2
                 in case bind_and_listen s3 of
                      (fd, s4) \<Rightarrow>
                        (case FD_SET fd {} of
                           None \<Rightarrow> None
                         | Some fds \<Rightarrow>
                             Some (Inr (s4\<lparr>listen_sock := fd, all_socks := fds, max_socket := fd\<rparr>))))))"

fun shutdown_clients :: "nat list \<Rightarrow> server \<Rightarrow> server option" where
  "shutdown_clients [] s = Some s"
| "shutdown_clients (k # ks) s =
     (if \<not> c_active (client_at s k) then shutdown_clients ks s
      else case clear_client k (snd (sys_close (c_sock (client_at s k)) s)) of
             None \<Rightarrow> None
           | Some s1 \<Rightarrow> shutdown_clients ks s1)"

definition server_shutdown :: "server \<Rightarrow> server option" where
  "server_shutdown s =
     (let s1 = srv_info ''closing active sockets\<newline>'' [] s;
          s2 = snd (sys_close (listen_sock s1) s1)
      in case shutdown_clients [0..<max_conn s2] s2 of
           None \<Rightarrow> None
         | Some s3 \<Rightarrow> Some (snd (close_server_output (heap_free 1 s3))))"

section \<open>The whole of \<open>main\<close>\<close>

text \<open>
  The options: \<open>--listen-port\<close>, which a positional argument overrides; \<open>None\<close> is the exit
  for an unknown option. The port is an argument of \<open>getaddrinfo\<close>, whose answer is a parameter.
\<close>

fun registry_options :: "getopt list \<Rightarrow> string \<Rightarrow> string option" where
  "registry_options [] listen_port = Some listen_port"
| "registry_options (GetBad # es) listen_port = None"
| "registry_options (GetOpt k optarg # es) listen_port =
     registry_options es (if k = 0 then optarg else listen_port)"

definition registry_port :: "getopt list \<Rightarrow> string list \<Rightarrow> string option" where
  "registry_port events rest =
     map_option (\<lambda>p. case rest of [] \<Rightarrow> p | a # _ \<Rightarrow> a) (registry_options events ''5432'')"

text \<open>
  \<open>sigs_ok\<close> says whether both calls of \<open>sigaction\<close> succeed. The result is the exit status;
  \<open>None\<close> is a run that does not end or has no defined behaviour.
\<close>

definition registry_main :: "getopt list \<Rightarrow> string list \<Rightarrow> bool \<Rightarrow> bool \<Rightarrow> os \<Rightarrow> nat option" where
  "registry_main events rest sigs_ok log_ok w =
     (case registry_port events rest of
        None \<Rightarrow> Some 1
      | Some listen_port \<Rightarrow>
          if \<not> sigs_ok then Some 1
          else (case server_setup log_ok w of
                  None \<Rightarrow> None
                | Some (Inl (status, _)) \<Rightarrow> Some status
                | Some (Inr s) \<Rightarrow>
                    (case main_loop s of
                       None \<Rightarrow> None
                     | Some t \<Rightarrow> map_option (\<lambda>_. 0) (server_shutdown t))))"

end
