(* ===== verification/RegFrame.thy ===== *)
theory RegFrame
  imports RegServer
begin

text \<open>
  \<open>program_04/registry.c\<close>, part 5: what a request handler leaves alone, and the shape of its
  effect on the client table. \<open>keeps s' s\<close> says that the socket view of the server (which
  slots are active, their sockets and addresses, the descriptor set, the counters) is the
  same in both states; every request handler keeps it.
\<close>

definition sock_view :: "client \<Rightarrow> bool \<times> int \<times> sockaddr" where
  "sock_view c = (c_active c, c_sock c, c_addr c)"

definition keeps :: "server \<Rightarrow> server \<Rightarrow> bool" where
  "keeps s' s \<longleftrightarrow>
     env s' = env s \<and> open_fds s' = open_fds s \<and> max_conn s' = max_conn s \<and>
     max_files s' = max_files s \<and> active_clients s' = active_clients s \<and>
     listen_sock s' = listen_sock s \<and> all_socks s' = all_socks s \<and>
     max_socket s' = max_socket s \<and> map sock_view (clients s') = map sock_view (clients s)"

lemma keeps_refl [simp]: "keeps s s"
  by (simp add: keeps_def)

lemma keeps_trans [trans]: "keeps a b \<Longrightarrow> keeps b c \<Longrightarrow> keeps a c"
  by (simp add: keeps_def)

lemma quiet_keeps: "quiet s' s \<Longrightarrow> keeps s' s"
  by (simp add: keeps_def quiet_fields)

lemma keeps_log [simp]:
  "keeps (srv_log fmt args s) s" "keeps (srv_info fmt args s) s" "keeps (srv_warn fmt args s) s"
  "keeps (srv_error fmt args s) s" "keeps (srv_debug fmt args s) s"
  "keeps (printf fmt args s) s" "keeps (print_buffer d flags s) s"
  by (rule quiet_keeps; simp)+

lemma keeps_quiet:
  assumes "quiet t s"
  shows "keeps u t = keeps u s" "keeps t u = keeps s u"
  using assms by (simp_all add: keeps_def quiet_fields)

lemmas keeps_log_absorb [simp] =
  quiet_log [THEN keeps_quiet(1)] quiet_log [THEN keeps_quiet(2)]
  quiet_printf [THEN keeps_quiet(1)] quiet_printf [THEN keeps_quiet(2)]
  quiet_print_buffer [THEN keeps_quiet(1)] quiet_print_buffer [THEN keeps_quiet(2)]

lemma keeps_length: "keeps s' s \<Longrightarrow> length (clients s') = length (clients s)"
  unfolding keeps_def by (metis length_map)

lemma keeps_client:
  assumes "keeps s' s" "i < length (clients s)"
  shows "c_active (client_at s' i) = c_active (client_at s i)"
    "c_sock (client_at s' i) = c_sock (client_at s i)"
    "c_addr (client_at s' i) = c_addr (client_at s i)"
proof -
  have "map sock_view (clients s') ! i = map sock_view (clients s) ! i"
    using assms(1) by (simp add: keeps_def)
  then have "sock_view (client_at s' i) = sock_view (client_at s i)"
    using assms keeps_length [OF assms(1)] by simp
  then show "c_active (client_at s' i) = c_active (client_at s i)"
    "c_sock (client_at s' i) = c_sock (client_at s i)"
    "c_addr (client_at s' i) = c_addr (client_at s i)"
    by (simp_all add: sock_view_def)
qed

lemma map_update_same: "i < length xs \<Longrightarrow> f y = f (xs ! i) \<Longrightarrow> map f (xs[i := y]) = map f xs"
  by (metis list_update_id map_update)

lemma keeps_set_client:
  assumes "sock_view c = sock_view (client_at s i)"
  shows "keeps (set_client i c s) s"
proof (cases "i < length (clients s)")
  case True
  with assms show ?thesis by (simp add: keeps_def map_update_same)
next
  case False
  then show ?thesis by (simp add: keeps_def list_update_beyond)
qed

lemma keeps_heap_free [simp]: "keeps (heap_free n s) s"
  by (simp add: keeps_def heap_free_def)

lemma keeps_calloc: "sys_calloc s = (b, s') \<Longrightarrow> keeps s' s"
  by (auto simp: sys_calloc_def keeps_def split: calloc_ans.splits)

lemma more_server:
  "os.more s' = os.more (s :: server) \<Longrightarrow>
     clients s' = clients s \<and> max_conn s' = max_conn s \<and> max_files s' = max_files s \<and>
     active_clients s' = active_clients s \<and> listen_sock s' = listen_sock s \<and>
     all_socks s' = all_socks s \<and> max_socket s' = max_socket s"
  by (cases s; cases s') simp

lemma send_bytes_keeps:
  assumes "send_bytes fd bs (s :: server) = Some (r, s')"
  shows "keeps s' s" "clients s' = clients s"
  using send_bytes_frame [OF assms] more_server [of s' s] by (simp_all add: keeps_def)

section \<open>The search handler changes no client\<close>

definition reads :: "server \<Rightarrow> server \<Rightarrow> bool" where
  "reads s' s \<longleftrightarrow> keeps s' s \<and> clients s' = clients s \<and> heap_live s' = heap_live s"

lemma reads_refl [simp]: "reads s s"
  by (simp add: reads_def)

lemma reads_trans [trans]: "reads a b \<Longrightarrow> reads b c \<Longrightarrow> reads a c"
  by (auto simp: reads_def elim: keeps_trans)

lemma quiet_reads: "quiet s' s \<Longrightarrow> reads s' s"
  by (simp add: reads_def quiet_keeps quiet_fields)

lemma reads_quiet:
  assumes "quiet t s"
  shows "reads u t = reads u s" "reads t u = reads s u"
  using assms by (simp_all add: reads_def keeps_quiet quiet_fields)

lemmas reads_log_absorb [simp] =
  quiet_log [THEN reads_quiet(1)] quiet_log [THEN reads_quiet(2)]
  quiet_printf [THEN reads_quiet(1)] quiet_printf [THEN reads_quiet(2)]
  quiet_print_buffer [THEN reads_quiet(1)] quiet_print_buffer [THEN reads_quiet(2)]

lemma send_loop_heap:
  "send_loop sock buff n s = Some (r, s') \<Longrightarrow> heap_live s' = heap_live s"
proof -
  assume "send_loop sock buff n s = Some (r, s')"
  then have "case (r, s') of (r, s') \<Rightarrow> heap_live s' = heap_live s"
  proof (induction rule: send_loop.raw_induct [rotated, consumes 1])
    case (1 loop sock buff n s res)
    then show ?case
      by (fastforce simp: sys_send_def Let_def split: if_splits prod.splits send_ans.splits)
  qed
  then show ?thesis by simp
qed

lemma send_bytes_reads: "send_bytes fd bs (s :: server) = Some (r, s') \<Longrightarrow> reads s' s"
  using send_bytes_keeps send_loop_heap by (auto simp: reads_def send_bytes_def)

lemma respond_reads: "respond i bs s = Some (b, s') \<Longrightarrow> reads s' s"
  by (auto simp: respond_def split: option.splits if_splits dest!: send_bytes_reads)

lemma ascii_loop_reads: "ascii_loop ks i buf s = Some (b, s') \<Longrightarrow> reads s' s"
proof (induction ks arbitrary: s)
  case (Cons k ks)
  show ?case
  proof (cases "buf (1 + k) \<ge> 128")
    case True
    with Cons.prems obtain c u where
      u: "respond i zero_response
            (srv_warn ''handle_search: file name contains non ASCII characters\<newline>'' [] s) = Some (c, u)"
      by (auto split: option.splits)
    then have r: "reads u s" using respond_reads by fastforce
    show ?thesis
    proof (cases c)
      case True
      with Cons.prems u r \<open>buf (1 + k) \<ge> 128\<close> show ?thesis by simp
    next
      case False
      with Cons.prems u \<open>buf (1 + k) \<ge> 128\<close> have "reads s' u" by (auto intro: Cons.IH)
      then show ?thesis using r by (rule reads_trans)
    qed
  next
    case False
    with Cons show ?thesis by simp
  qed
qed simp

lemma null_check_reads: "null_check i buf len s = Some (b, s') \<Longrightarrow> reads s' s"
  by (auto simp: null_check_def Let_def split: if_splits dest!: respond_reads)

lemma search_files_quiet: "search_files fs buf q s = Some (b, s') \<Longrightarrow> quiet s' s"
proof (induction fs arbitrary: s)
  case (Cons f fs)
  from Cons.prems obtain t where "block_str f = Some t" by (auto split: option.splits)
  with Cons show ?case
    by (cases "match_file (fdata f @ fslack f) buf q") (auto simp: Let_def split: bool.splits dest!: Cons.IH)
qed simp

lemma search_client_files_quiet: "search_client_files buf q k s = Some (b, s') \<Longrightarrow> quiet s' s"
  by (auto simp: search_client_files_def Let_def split: option.splits if_splits
      dest: search_files_quiet)

lemma search_clients_quiet: "search_clients ks buf q s = Some (r, s') \<Longrightarrow> quiet s' s"
proof (induction ks arbitrary: s)
  case (Cons k ks)
  show ?case
  proof (cases "c_active (client_at s k)")
    case False
    with Cons show ?thesis by simp
  next
    case True
    define t where "t = srv_debug ''handle_search: checking client: %u\<newline>''
      [AInt (uint (c_id (client_at s k)))] s"
    have t: "quiet t s" by (simp add: t_def)
    from Cons.prems True obtain b u where u: "search_client_files buf q k t = Some (b, u)"
      by (auto simp: t_def Let_def split: option.splits)
    then have ut: "quiet u s" using search_client_files_quiet t quiet_trans by blast
    have "quiet s' u"
    proof (cases b)
      case True
      with Cons.prems \<open>c_active _\<close> u show ?thesis
        by (simp add: Let_def flip: t_def) (auto simp: t_def)
    next
      case False
      with Cons.prems \<open>c_active _\<close> u show ?thesis
        by (intro Cons.IH) (simp add: t_def Let_def)
    qed
    then show ?thesis using ut by (rule quiet_trans)
  qed
qed simp

lemma search_report_quiet: "search_report query found s = Some s' \<Longrightarrow> quiet s' s"
  by (auto simp: search_report_def split: option.splits if_splits ip_res.splits)

text \<open>\<open>search_answer\<close> as a chain: query, lookup, report, response.\<close>

lemma search_answerE:
  assumes "search_answer i buf s = Some s'"
  obtains query found s1 s2 b where
    "buf_str buf 1 = Some query"
    "search_clients [0..<max_conn s] buf 1
       (srv_info ''handle_search: client %u searching files for %s\<newline>''
          [AInt (uint (c_id (client_at s i))), AStr (chars query)] s) = Some (found, s1)"
    "search_report query found s1 = Some s2"
    "respond i (case found of None \<Rightarrow> zero_response | Some k \<Rightarrow> found_response (client_at s2 k))
       (srv_info ''handle_search: sending response\<newline>'' [] s2) = Some (b, s')"
  using assms by (auto simp: search_answer_def Let_def split: option.splits)

lemma search_answer_reads: "search_answer i buf s = Some s' \<Longrightarrow> reads s' s"
proof (erule search_answerE)
  fix query found s1 s2 b
  assume "search_clients [0..<max_conn s] buf 1
       (srv_info ''handle_search: client %u searching files for %s\<newline>''
          [AInt (uint (c_id (client_at s i))), AStr (chars query)] s) = Some (found, s1)"
    and "search_report query found s1 = Some s2"
    and "respond i (case found of None \<Rightarrow> zero_response | Some k \<Rightarrow> found_response (client_at s2 k))
       (srv_info ''handle_search: sending response\<newline>'' [] s2) = Some (b, s')"
  then have "reads s1 s" "reads s2 s1" "reads s' s2"
    by (auto dest!: search_clients_quiet search_report_quiet respond_reads intro: quiet_reads)
  then show "reads s' s" by (blast intro: reads_trans)
qed

text \<open>\<open>handle_search\<close> past its guards.\<close>

lemma handle_searchE:
  assumes "handle_search i buf len s = Some s'"
  obtains (refused) "reads s' s"
  | (answered) s1 s2 where "c_type (client_at s i) \<noteq> CLIENT_UNKNOWN" "len < 100"
      "ascii_loop [0..<len] i buf s = Some (False, s1)"
      "null_check i buf len s1 = Some (False, s2)" "search_answer i buf s2 = Some s'"
  using assms
  by (auto simp: handle_search_def split: if_splits option.splits bool.splits
      dest!: ascii_loop_reads null_check_reads) (metis reads_trans)

lemma handle_search_reads: "handle_search i buf len s = Some s' \<Longrightarrow> reads s' s"
  by (erule handle_searchE)
    (auto dest!: ascii_loop_reads null_check_reads search_answer_reads intro: reads_trans)

end
