(* ===== verification/RegPublish.thy ===== *)
theory RegPublish
  imports RegFrame
begin

text \<open>
  \<open>program_04/registry.c\<close>, part 6: the publish request against an abstract parser.
  \<open>parse_names n bs\<close> reads \<open>n\<close> NUL-terminated ASCII strings; the lemmas show that the
  pointer-and-length loop of \<open>handle_publish\<close> computes it, allocates one block per name,
  and gives everything back when the request is malformed.
\<close>

declare dropWhile_eq_Nil_conv [simp del]

section \<open>The abstract parser\<close>

definition name_char :: "byte \<Rightarrow> bool" where
  "name_char b \<longleftrightarrow> b \<noteq> 0 \<and> b < 128"

fun parse_names :: "nat \<Rightarrow> byte list \<Rightarrow> byte list list option" where
  "parse_names 0 bs = Some []"
| "parse_names (Suc n) bs =
     (case dropWhile name_char bs of
        [] \<Rightarrow> None
      | b # rest \<Rightarrow>
          if b = 0 then map_option ((#) (takeWhile name_char bs)) (parse_names n rest) else None)"

text \<open>The bytes of the buffer from \<open>p\<close> on, \<open>len\<close> of them.\<close>

definition region :: "(nat \<Rightarrow> byte) \<Rightarrow> nat \<Rightarrow> nat \<Rightarrow> byte list" where
  "region buf p len = map (\<lambda>j. buf (p + j)) [0..<len]"

lemma region_simps [simp]: "length (region buf p len) = len" "region buf p 0 = []"
  by (simp_all add: region_def)

lemma region_nth [simp]: "j < len \<Longrightarrow> region buf p len ! j = buf (p + j)"
  by (simp add: region_def)

lemma take_region [simp]: "k \<le> len \<Longrightarrow> take k (region buf p len) = region buf p k"
  by (simp add: region_def take_map)

lemma drop_region [simp]: "drop k (region buf p len) = region buf (p + k) (len - k)"
  by (rule nth_equalityI) (simp_all add: add.assoc)

lemma region_Suc: "region buf p (Suc n) = buf p # region buf (Suc p) n"
  by (rule nth_equalityI) (auto simp: nth_Cons split: nat.splits)

lemma parse_names_encode:
  "\<forall>w\<in>set ws. \<forall>b\<in>set w. name_char b \<Longrightarrow>
     parse_names (length ws) (concat (map (\<lambda>w. w @ [0]) ws) @ rest) = Some ws"
proof (induction ws)
  case (Cons w ws)
  then have "takeWhile name_char (w @ 0 # r) = w" "dropWhile name_char (w @ 0 # r) = 0 # r" for r
    by (simp_all add: takeWhile_append2 dropWhile_append2 name_char_def)
  with Cons show ?case by simp
qed simp

lemma parse_names_result:
  "parse_names n bs = Some ws \<Longrightarrow> length ws = n \<and> (\<forall>w\<in>set ws. name_ok w)"
proof (induction n arbitrary: bs ws)
  case (Suc n)
  from Suc.prems obtain rest ws' where
    "dropWhile name_char bs = 0 # rest" "parse_names n rest = Some ws'"
    "ws = takeWhile name_char bs # ws'"
    by (auto split: list.splits if_splits)
  with Suc.IH [of rest ws'] show ?case
    by (auto simp: name_ok_def name_char_def dest: set_takeWhileD)
qed simp

section \<open>The scan\<close>

definition scan_spec :: "byte list \<Rightarrow> scan" where
  "scan_spec bs =
     (case dropWhile name_char bs of
        [] \<Rightarrow> RanOut
      | b # _ \<Rightarrow> if b = 0 then FoundNull (length (takeWhile name_char bs))
                 else NonAscii (length (takeWhile name_char bs)))"

fun scan_shift :: "nat \<Rightarrow> scan \<Rightarrow> scan" where
  "scan_shift k (FoundNull n) = FoundNull (k + n)"
| "scan_shift k (NonAscii n) = NonAscii (k + n)"
| "scan_shift k r = r"

lemma scan_shift_zero [simp]: "scan_shift 0 r = r"
  by (cases r) simp_all

lemma scan_spec_Cons:
  "scan_spec (b # bs) =
     (if name_char b then scan_shift 1 (scan_spec bs)
      else if b = 0 then FoundNull 0 else NonAscii 0)"
  by (simp add: scan_spec_def split: list.splits)

lemma scan_shift_add: "scan_shift k (scan_shift j r) = scan_shift (k + j) r"
  by (cases r) simp_all

lemma scan_name_spec:
  "p + len \<le> BUFF_SIZE \<Longrightarrow> k \<le> len \<Longrightarrow>
     scan_name buf p len k = scan_shift k (scan_spec (region buf (p + k) (len - k)))"
proof (induction buf p len k rule: scan_name.induct)
  case (1 buf p len k)
  show ?case
  proof (cases "k < len")
    case False
    with 1 show ?thesis by (subst scan_name.simps) (simp add: scan_spec_def)
  next
    case True
    then obtain m where m: "len - k = Suc m" "len - Suc k = m" by (cases "len - k") auto
    have inb: "p + k < BUFF_SIZE" using True 1 by simp
    show ?thesis
    proof (cases "name_char (buf (p + k))")
      case nc: True
      then have b: "buf (p + k) \<noteq> 0" "\<not> 128 \<le> buf (p + k)" by (auto simp: name_char_def not_le)
      with True inb have "scan_name buf p len k = scan_name buf p len (Suc k)"
        by (simp add: scan_name.simps [of buf p len k])
      also have "\<dots> = scan_shift (Suc k) (scan_spec (region buf (p + Suc k) (len - Suc k)))"
        using b True inb 1 by (intro "1.IH") auto
      finally show ?thesis using nc m by (simp add: region_Suc scan_spec_Cons scan_shift_add)
    next
      case False
      with True inb m show ?thesis
        by (auto simp: scan_name.simps [of buf p len k] region_Suc scan_spec_Cons name_char_def
            linorder_not_less)
    qed
  qed
qed

lemma scan_found:
  assumes "scan_name buf p len 0 = FoundNull k" "p + len \<le> BUFF_SIZE"
  shows "k < len" "takeWhile name_char (region buf p len) = region buf p k"
    "dropWhile name_char (region buf p len) = 0 # region buf (p + (k + 1)) (len - (k + 1))"
proof -
  let ?bs = "region buf p len"
  from assms have "scan_spec ?bs = FoundNull k" by (simp add: scan_name_spec)
  then obtain rest where d: "dropWhile name_char ?bs = 0 # rest"
    and k: "k = length (takeWhile name_char ?bs)"
    by (auto simp: scan_spec_def split: list.splits if_splits)
  have "?bs = takeWhile name_char ?bs @ 0 # rest" using d by (metis takeWhile_dropWhile_id)
  then have bs: "take k ?bs = takeWhile name_char ?bs" "drop (Suc k) ?bs = rest" "k < length ?bs"
    using k by (metis append_eq_conv_conj, metis append_eq_conv_conj drop_Suc drop_tl list.sel(3),
      metis length_append length_Cons less_add_Suc1 add_Suc_right)
  then show "k < len" by simp
  with bs show "takeWhile name_char ?bs = region buf p k" by simp
  from bs d show "dropWhile name_char ?bs = 0 # region buf (p + (k + 1)) (len - (k + 1))"
    by simp
qed

lemma scan_none:
  assumes "scan_name buf p len 0 = r" "r = RanOut \<or> (\<exists>k. r = NonAscii k)" "p + len \<le> BUFF_SIZE"
  shows "parse_names (Suc n) (region buf p len) = None"
  using assms by (auto simp: scan_name_spec scan_spec_def split: list.splits if_splits)

lemma scan_no_fault: "p + len \<le> BUFF_SIZE \<Longrightarrow> scan_name buf p len 0 \<noteq> ScanFault"
  by (auto simp: scan_name_spec scan_spec_def split: list.splits)

lemma region_name_ok:
  assumes "takeWhile name_char xs = region buf p k" shows "name_ok (region buf p k)"
  using assms by (metis name_char_def name_ok_def set_takeWhileD)

section \<open>The loop over the names\<close>

definition stored :: "fblock \<Rightarrow> bool" where
  "stored f \<longleftrightarrow> name_ok (fdata f) \<and> 0 \<in> set (fslack f)"

text \<open>What every completed run of the loop has done, successful or not.\<close>

lemma publish_loop_effect:
  assumes "publish_loop n arr buf p len files s = Some (bad, out, s')" "p + len \<le> BUFF_SIZE"
  shows "keeps s' s \<and> clients s' = clients s \<and>
    (\<exists>new. out = files @ new \<and> heap_live s' = heap_live s + length new \<and>
       (\<forall>f\<in>set new. stored f) \<and>
       (\<not> bad \<longrightarrow> length new = n \<and> (0 < n \<longrightarrow> arr) \<and>
          parse_names n (region buf p len) = Some (map fdata new)))"
  using assms
proof (induction n arbitrary: p len files s)
  case 0
  then show ?case by simp
next
  case (Suc n)
  show ?case
  proof (cases "scan_name buf p len 0")
    case (FoundNull k)
    note scan = scan_found [OF FoundNull Suc.prems(2)]
    obtain blk t where c: "sys_calloc s = (blk, t)" by fastforce
    have t: "keeps t s" "clients t = clients s"
      "heap_live t = heap_live s + (if blk = None then 0 else 1)"
      using c by (auto simp: keeps_calloc sys_calloc_def split: calloc_ans.splits)
    show ?thesis
    proof (cases blk)
      case None
      with Suc.prems FoundNull c t show ?thesis by auto
    next
      case (Some slack)
      define f where "f = \<lparr>fdata = region buf p k, fslack = slack\<rparr>"
      define u where "u = srv_info ''handle_publish: str: \"%s\" %lu\<newline>''
        [AStr (chars (the (block_str f))), AInt (int k)] t"
      have f_eq: "\<lparr>fdata = map (\<lambda>j. buf (p + j)) [0..<k], fslack = slack\<rparr> = f"
        by (simp add: f_def region_def)
      have nm: "name_ok (fdata f)" using region_name_ok [OF scan(2)] by (simp add: f_def)
      from Suc.prems FoundNull c Some have arr: "arr" and b: "block_str f \<noteq> None"
        and rec: "publish_loop n arr buf (p + (k + 1)) (len - (k + 1)) (files @ [f]) u =
          Some (bad, out, s')"
        by (auto simp: f_eq Let_def u_def split: if_splits option.splits)
      have "stored f" using b nm
        by (auto simp: stored_def block_str_def cstr_in_def name_ok_def split: if_splits)
      moreover have "keeps s' u \<and> clients s' = clients u \<and> (\<exists>new. out = (files @ [f]) @ new \<and>
          heap_live s' = heap_live u + length new \<and> (\<forall>f\<in>set new. stored f) \<and>
          (\<not> bad \<longrightarrow> length new = n \<and> (0 < n \<longrightarrow> arr) \<and>
             parse_names n (region buf (p + (k + 1)) (len - (k + 1))) = Some (map fdata new)))"
        using scan(1) Suc.prems(2) by (intro Suc.IH [OF rec]) simp
      moreover have "keeps u s" "clients u = clients s" "heap_live u = Suc (heap_live s)"
        using t Some by (simp_all add: u_def)
      moreover have "parse_names (Suc n) (region buf p len) =
          map_option ((#) (fdata f)) (parse_names n (region buf (p + (k + 1)) (len - (k + 1))))"
        using scan by (simp add: f_def)
      ultimately show ?thesis using arr by (force dest: keeps_trans)
    qed
  qed (use Suc.prems scan_no_fault in \<open>auto\<close>)
qed

text \<open>
  With an allocator that never fails and blocks that are followed somewhere by a zero byte,
  the loop always completes, and it fails exactly on the requests the parser rejects.
\<close>

definition alloc_ok :: "'a os_scheme \<Rightarrow> bool" where
  "alloc_ok s \<longleftrightarrow>
     (\<forall>n. case a_calloc (env s) n of CallocNull \<Rightarrow> False | CallocOk slack \<Rightarrow> 0 \<in> set slack)"

lemma alloc_ok_calloc:
  assumes "alloc_ok s"
  obtains slack where "sys_calloc s = (Some slack, (step_os s)\<lparr>heap_live := Suc (heap_live s)\<rparr>)"
    "0 \<in> set slack"
proof -
  from assms have "case a_calloc (env s) (tick s) of CallocNull \<Rightarrow> False | CallocOk slack \<Rightarrow> 0 \<in> set slack"
    by (simp add: alloc_ok_def)
  then show thesis
    by (cases "a_calloc (env s) (tick s)") (auto simp: sys_calloc_def intro: that)
qed

lemma alloc_ok_keeps: "keeps s' s \<Longrightarrow> alloc_ok s' = alloc_ok s"
  by (simp add: alloc_ok_def keeps_def)

lemma publish_loop_total:
  assumes "alloc_ok s" "arr" "p + len \<le> BUFF_SIZE"
  shows "\<exists>bad out s'. publish_loop n arr buf p len files s = Some (bad, out, s') \<and>
    (bad \<longleftrightarrow> parse_names n (region buf p len) = None)"
  using assms
proof (induction n arbitrary: p len files s)
  case 0
  then show ?case by (auto intro: exI [of _ False])
next
  case (Suc n)
  show ?case
  proof (cases "scan_name buf p len 0")
    case (FoundNull k)
    note scan = scan_found [OF FoundNull Suc.prems(3)]
    obtain slack where c: "sys_calloc s = (Some slack, (step_os s)\<lparr>heap_live := Suc (heap_live s)\<rparr>)"
      and sl: "0 \<in> set slack"
      using Suc.prems(1) by (rule alloc_ok_calloc)
    define f where "f = \<lparr>fdata = region buf p k, fslack = slack\<rparr>"
    have f_eq: "\<lparr>fdata = map (\<lambda>j. buf (p + j)) [0..<k], fslack = slack\<rparr> = f"
      by (simp add: f_def region_def)
    obtain w where w: "block_str f = Some w" using sl by (auto simp: block_str_def cstr_in_def f_def)
    define u where "u = srv_info ''handle_publish: str: \"%s\" %lu\<newline>'' [AStr (chars w), AInt (int k)]
      ((step_os s)\<lparr>heap_live := Suc (heap_live s)\<rparr>)"
    have "alloc_ok u" using Suc.prems(1) by (simp add: u_def alloc_ok_def)
    then obtain bad out s' where
      "publish_loop n arr buf (p + (k + 1)) (len - (k + 1)) (files @ [f]) u = Some (bad, out, s')"
      "bad \<longleftrightarrow> parse_names n (region buf (p + (k + 1)) (len - (k + 1))) = None"
      using Suc.IH [of u "p + (k + 1)" "len - (k + 1)" "files @ [f]"] scan(1) Suc.prems by auto
    moreover have "publish_loop (Suc n) arr buf p len files s =
        publish_loop n arr buf (p + (k + 1)) (len - (k + 1)) (files @ [f]) u"
      using Suc.prems(2) by (simp add: FoundNull c f_eq w Let_def u_def)
    moreover have "parse_names (Suc n) (region buf p len) =
        map_option ((#) (fdata f)) (parse_names n (region buf (p + (k + 1)) (len - (k + 1))))"
      using scan by (simp add: f_def)
    ultimately show ?thesis by simp
  qed (use scan_none [OF refl _ Suc.prems(3)] scan_no_fault [OF Suc.prems(3)] in \<open>auto\<close>)
qed

section \<open>The whole handler\<close>

lemma quiet_fold: "(\<And>t s. quiet (f t s) s) \<Longrightarrow> quiet (fold f ts s) s"
  by (induction ts arbitrary: s) (auto intro: quiet_trans)

lemma publish_report_quiet: "publish_report n fs s = Some s' \<Longrightarrow> quiet s' s"
proof -
  assume "publish_report n fs s = Some s'"
  then obtain ts where "s' = printf ''\<newline>'' [] (fold (\<lambda>t. printf '' %s'' [AStr (chars t)]) ts
      (printf ''TEST] PUBLISH %lu'' [AInt (int n)]
        (fold (\<lambda>t. srv_log ''    %s\<newline>'' [AStr (chars t)]) ts s)))"
    by (auto simp: publish_report_def Let_def split: option.splits)
  then show ?thesis
    by simp (rule quiet_trans [OF quiet_fold]; simp add: quiet_fold)
qed

lemma publish_report_total: "\<forall>f\<in>set fs. stored f \<Longrightarrow> \<exists>s'. publish_report n fs s = Some s'"
proof -
  assume "\<forall>f\<in>set fs. stored f"
  then have "those (map block_str fs) \<noteq> None"
    by (induction fs) (auto simp: stored_def block_str_def cstr_in_def)
  then show ?thesis by (auto simp: publish_report_def Let_def split: option.splits)
qed

text \<open>The files part of a client after \<open>publish_store\<close>.\<close>

definition with_files :: "nat \<Rightarrow> bool \<Rightarrow> fblock list \<Rightarrow> client \<Rightarrow> client" where
  "with_files n arr fs c = c\<lparr>c_files_len := n, c_files := (if arr then Some fs else None)\<rparr>"

lemma with_files_fields [simp]:
  "sock_view (with_files n arr fs c) = sock_view c" "c_active (with_files n arr fs c) = c_active c"
  "c_id (with_files n arr fs c) = c_id c" "c_type (with_files n arr fs c) = c_type c"
  "c_files_len (with_files n arr fs c) = n" "c_sock (with_files n arr fs c) = c_sock c"
  "c_files (with_files n arr fs c) = (if arr then Some fs else None)"
  by (simp_all add: with_files_def sock_view_def)

lemma publish_store_effect:
  assumes "files_ok m (client_at s i)" "i < length (clients s)" "\<forall>f\<in>set fs. stored f"
  shows "\<exists>s'. publish_store i n arr fs s = Some s' \<and> keeps s' s \<and>
    clients s' = (clients s)[i := with_files n arr fs (client_at s i)] \<and>
    heap_live s' = heap_live s - client_blocks (client_at s i)"
proof -
  define t where "t = set_client i (with_files n arr fs (client_at s i))
    (heap_free (client_blocks (client_at s i)) s)"
  have "(client_at s i)\<lparr>c_files := None, c_files_len := n, c_files := x\<rparr> =
      (client_at s i)\<lparr>c_files_len := n, c_files := x\<rparr>" for x by simp
  then have eq: "publish_store i n arr fs s =
      publish_report n fs (srv_info ''handle_publish: published files\<newline>'' [] t)"
    using assms clear_client_files_ok [OF assms(1)]
    by (simp add: publish_store_def t_def with_files_def heap_free_def Let_def)
  obtain s' where s': "publish_report n fs (srv_info ''handle_publish: published files\<newline>'' [] t) = Some s'"
    using publish_report_total [OF assms(3)] by blast
  then have q: "quiet s' t" using publish_report_quiet quiet_trans quiet_log(2) by blast
  have "keeps t s"
    using assms(2) by (auto simp: t_def intro!: keeps_trans [OF keeps_set_client]) (simp add: heap_free_def)
  then have "keeps s' s" using q quiet_keeps keeps_trans by blast
  with eq s' q show ?thesis by (auto simp: quiet_fields t_def heap_free_def)
qed

end
