(* ===== verification/RegTable.thy ===== *)
theory RegTable
  imports RegPublish
begin

text \<open>
  \<open>program_04/registry.c\<close>, part 7: the invariant of the client table and the effect of every
  handler on it. \<open>table_ok\<close> says that the array has \<open>max_conn\<close> slots, the counter is the
  number of active ones, free slots are clear, every file list is well formed, and every
  live heap block is owned (one block is the array itself): no leak.
\<close>

definition table_ok :: "server \<Rightarrow> bool" where
  "table_ok s \<longleftrightarrow>
     length (clients s) = max_conn s \<and> 0 < max_conn s \<and> max_conn s < 2 ^ 64 \<and>
     active_clients s = count_if c_active (clients s) \<and>
     (\<forall>c\<in>set (clients s). files_ok (max_files s) c \<and> (\<not> c_active c \<longrightarrow> slot_clear c)) \<and>
     heap_live s = Suc (sum_list (map client_blocks (clients s)))"

lemma table_okD:
  assumes "table_ok s" "i < max_conn s"
  shows "i < length (clients s)" "files_ok (max_files s) (client_at s i)"
    "\<not> c_active (client_at s i) \<Longrightarrow> slot_clear (client_at s i)"
    "client_blocks (client_at s i) < heap_live s"
proof -
  show i: "i < length (clients s)" using assms by (simp add: table_ok_def)
  then show "files_ok (max_files s) (client_at s i)"
    "\<not> c_active (client_at s i) \<Longrightarrow> slot_clear (client_at s i)"
    using assms nth_mem by (auto simp: table_ok_def)
  have "client_blocks (client_at s i) \<le> sum_list (map client_blocks (clients s))"
    using i by (intro member_le_sum_list) (auto intro: rev_image_eqI [OF nth_mem])
  then show "client_blocks (client_at s i) < heap_live s"
    using assms by (simp add: table_ok_def)
qed

lemma sum_list_map_update:
  "i < length xs \<Longrightarrow>
     sum_list (map f (xs[i := x])) + f (xs ! i) = sum_list (map f xs) + (f x :: nat)"
proof -
  assume i: "i < length xs"
  then have "f (xs ! i) \<le> sum_list (map f xs)"
    by (intro member_le_sum_list) (auto intro: rev_image_eqI [OF nth_mem])
  with i show ?thesis by (simp add: map_update sum_list_update)
qed

lemma count_if_view:
  "map sock_view cs = map sock_view ds \<Longrightarrow> count_if c_active cs = count_if c_active ds"
proof (induction cs arbitrary: ds)
  case (Cons c cs)
  then obtain d es where "ds = d # es" "sock_view c = sock_view d" "map sock_view cs = map sock_view es"
    by (auto simp: Cons_eq_map_conv)
  moreover from this(3) have "count_if c_active cs = count_if c_active es" by (rule Cons.IH)
  ultimately show ?case by (simp add: sock_view_def)
qed simp

text \<open>An operation that rewrites one active client.\<close>

lemma table_ok_set:
  assumes "table_ok s" "i < max_conn s" "c_active (client_at s i)" "keeps s' s"
    and new: "clients s' = (clients s)[i := c]" "files_ok (max_files s) c"
    and heap: "heap_live s' + client_blocks (client_at s i) = heap_live s + client_blocks c"
  shows "table_ok s'"
proof -
  have i: "i < length (clients s)" using assms by (simp add: table_ok_def)
  have "c_active c" using keeps_client(1) [OF assms(4) i] i assms(3) new(1) by simp
  then have cs: "\<forall>d\<in>set (clients s'). files_ok (max_files s') d \<and> (\<not> c_active d \<longrightarrow> slot_clear d)"
    using assms set_update_subset_insert [of "clients s" i c]
    by (fastforce simp: table_ok_def keeps_def)
  have "heap_live s' = Suc (sum_list (map client_blocks (clients s')))"
    using heap sum_list_map_update [OF i, of client_blocks c] assms(1) new(1)
    by (simp add: table_ok_def)
  moreover have "count_if c_active (clients s') = count_if c_active (clients s)"
    using assms(4) by (intro count_if_view) (simp add: keeps_def)
  ultimately show ?thesis
    using assms(1,4) cs keeps_length [OF assms(4)] by (simp add: table_ok_def keeps_def)
qed

lemma table_ok_same:
  assumes "table_ok s" "keeps s' s" "clients s' = clients s" "heap_live s' = heap_live s"
  shows "table_ok s'"
  using assms by (simp add: table_ok_def keeps_def)

lemma table_ok_quiet: "quiet s' s \<Longrightarrow> table_ok s' = table_ok s"
  by (simp add: table_ok_def quiet_fields)

section \<open>The handlers\<close>

definition joined_as :: "u32 \<Rightarrow> client \<Rightarrow> client" where
  "joined_as rid c = c\<lparr>c_id := rid, c_type := CLIENT_JOINED\<rparr>"

lemma joined_as_fields [simp]:
  "c_id (joined_as rid c) = rid" "c_type (joined_as rid c) = CLIENT_JOINED"
  "sock_view (joined_as rid c) = sock_view c" "c_active (joined_as rid c) = c_active c"
  "c_sock (joined_as rid c) = c_sock c" "c_addr (joined_as rid c) = c_addr c"
  "files_ok n (joined_as rid c) = files_ok n c"
  "client_blocks (joined_as rid c) = client_blocks c"
  by (simp_all add: joined_as_def sock_view_def files_ok_def client_blocks_def split: option.splits)

lemma join_register_effect:
  assumes "join_register i rid s = Some s'"
  shows "keeps s' s" "clients s' = (clients s)[i := joined_as rid (client_at s i)]"
    "heap_live s' = heap_live s"
proof -
  obtain t where t: "quiet t s" and s': "s' = set_client i (joined_as rid (client_at t i)) t"
  proof (cases "client_ip (c_addr (client_at s i)) s")
    case IpNull
    show thesis
      using assms IpNull
      by (intro that [of "printf ''TEST] JOIN %u\<newline>'' [AInt (uint rid)]
            (srv_info ''handle_join: client registered %u\<newline>'' [AInt (uint rid)]
              (srv_error ''handle_join: failed to create ip string from client: %s\<newline>''
                [strerror s] s))"])
        (simp_all add: join_register_def Let_def joined_as_def)
  next
    case (IpStr ip)
    show thesis
      using assms IpStr
      by (intro that [of "printf ''TEST] JOIN %u\<newline>'' [AInt (uint rid)]
            (srv_info ''handle_join: client addr: %s -> %u\<newline>'' [AStr ip, AInt (uint rid)] s)"])
        (simp_all add: join_register_def Let_def joined_as_def)
  next
    case IpFault
    with assms show thesis by (simp add: join_register_def)
  qed
  have "keeps s' t" unfolding s' by (rule keeps_set_client) simp
  then show "keeps s' s" using t quiet_keeps keeps_trans by blast
  show "clients s' = (clients s)[i := joined_as rid (client_at s i)]" "heap_live s' = heap_live s"
    using t by (simp_all add: s' quiet_fields)
qed

definition join_id :: "(nat \<Rightarrow> byte) \<Rightarrow> u32" where
  "join_id buf = ntohl (u32_of_bytes (buf 1) (buf 2) (buf 3) (buf 4))"

text \<open>The slot the join loop looks at: the first active one.\<close>

definition first_active :: "server \<Rightarrow> nat option" where
  "first_active s = find (\<lambda>k. c_active (client_at s k)) [0..<max_conn s]"

lemma first_active_quiet: "quiet t s \<Longrightarrow> first_active t = first_active s"
  by (simp add: first_active_def quiet_fields)

lemma handle_join_effect:
  assumes "handle_join i buf len s = Some s'"
  shows "keeps s' s \<and> heap_live s' = heap_live s \<and>
    (if len = 4 \<and> (\<exists>k. first_active s = Some k \<and> c_id (client_at s k) \<noteq> join_id buf)
     then clients s' = (clients s)[i := joined_as (join_id buf) (client_at s i)]
     else quiet s' s)"
proof (cases "len = 4")
  case False
  with assms show ?thesis by (auto simp: handle_join_def quiet_fields)
next
  case True
  define t where "t = srv_info ''handle_join: client joining registry. id: %u\<newline>''
    [AInt (uint (join_id buf))] s"
  have t: "quiet t s" by (simp add: t_def)
  have fa: "find (\<lambda>k. c_active (client_at t k)) [0..<max_conn t] = first_active s"
    using first_active_quiet [OF t] by (simp add: first_active_def)
  have eq: "handle_join i buf len s = (case first_active s of None \<Rightarrow> Some t
      | Some k \<Rightarrow> if c_id (client_at t k) = join_id buf then
          Some (if c_sock (client_at t k) \<noteq> c_sock (client_at t i) then
              (if c_type (client_at t i) = CLIENT_JOINED
               then srv_warn ''handle_join: client already registered\<newline>'' [] t
               else srv_warn ''handle_join: client has been REGISTERED\<newline>'' [] t)
            else srv_warn ''handle_join: client id already registered\<newline>'' [] t)
        else join_register i (join_id buf) t)"
    using True unfolding handle_join_def
    by (simp only: Let_def join_id_def [symmetric] t_def [symmetric] fa) simp
  have w: "quiet (srv_warn fmt args t) s" for fmt args
    using t quiet_trans quiet_log(3) by blast
  show ?thesis
  proof (cases "first_active s")
    case None
    with assms eq t show ?thesis by (simp add: quiet_keeps quiet_fields)
  next
    case (Some k)
    show ?thesis
    proof (cases "c_id (client_at s k) = join_id buf")
      case True
      then have "quiet s' s" using assms eq Some w t by (auto simp: quiet_fields split: if_splits)
      with True Some show ?thesis by (simp add: quiet_keeps quiet_fields)
    next
      case False
      then have "join_register i (join_id buf) t = Some s'"
        using assms eq Some t by (simp add: quiet_fields)
      from join_register_effect [OF this] have "keeps s' t"
        "clients s' = (clients s)[i := joined_as (join_id buf) (client_at s i)]"
        "heap_live s' = heap_live s"
        using t by (simp_all add: quiet_fields)
      then show ?thesis using False Some \<open>len = 4\<close> t quiet_keeps keeps_trans by auto
    qed
  qed
qed

definition publish_count :: "(nat \<Rightarrow> byte) \<Rightarrow> nat" where
  "publish_count buf = unat (ntohl (u32_of_bytes (buf 1) (buf 2) (buf 3) (buf 4)))"

definition publish_names :: "(nat \<Rightarrow> byte) \<Rightarrow> nat \<Rightarrow> byte list list option" where
  "publish_names buf len = parse_names (publish_count buf) (region buf 5 (len - 4))"

text \<open>The guards of \<open>handle_publish\<close>.\<close>

definition publish_admitted :: "nat \<Rightarrow> (nat \<Rightarrow> byte) \<Rightarrow> nat \<Rightarrow> server \<Rightarrow> bool" where
  "publish_admitted i buf len s \<longleftrightarrow>
     c_type (client_at s i) \<noteq> CLIENT_UNKNOWN \<and> 4 \<le> len \<and> len < 1199 \<and>
     publish_count buf \<le> max_files s"

lemma handle_publish_refused:
  "\<not> publish_admitted i buf len s \<Longrightarrow> \<exists>s'. handle_publish i buf len s = Some s' \<and> quiet s' s"
  by (auto simp: handle_publish_def publish_admitted_def publish_count_def Let_def
      intro: quiet_trans [OF quiet_log(3) quiet_log(2)])

text \<open>An admitted request: allocate the array, run the loop, then store or clean up.\<close>

lemma handle_publish_admitted:
  assumes "publish_admitted i buf len s"
  obtains blk t where "keeps t s" "clients t = clients s"
    "heap_live t = heap_live s + (if blk = None then 0 else 1)"
    "alloc_ok s \<longrightarrow> blk \<noteq> (None :: byte list option)"
    "handle_publish i buf len s =
      (case publish_loop (publish_count buf) (blk \<noteq> None) buf 5 (len - 4) [] t of
         None \<Rightarrow> None
       | Some (True, files, u) \<Rightarrow>
           Some (heap_free (length files + (if blk = None then 0 else 1))
             (srv_log ''handle_publish: cleaning up allocated strings\<newline>'' [] u))
       | Some (False, files, u) \<Rightarrow> publish_store i (publish_count buf) (blk \<noteq> None) files u)"
proof -
  define t0 where "t0 = srv_info ''handle_publish: client %u publishing files\<newline>''
    [AInt (uint (c_id (client_at s i)))] s"
  obtain blk t where c: "sys_calloc t0 = (blk, t)" by fastforce
  have t0: "quiet t0 s" by (simp add: t0_def)
  have "keeps t s" using keeps_calloc [OF c] t0 quiet_keeps keeps_trans by blast
  moreover have "clients t = clients s" "heap_live t = heap_live s + (if blk = None then 0 else 1)"
    using c t0 by (auto simp: sys_calloc_def quiet_fields split: calloc_ans.splits)
  moreover have "alloc_ok s \<longrightarrow> blk \<noteq> None"
    using c alloc_ok_calloc [of t0] quiet_keeps [OF t0] by (auto simp: alloc_ok_keeps)
  moreover have "handle_publish i buf len s =
      (case publish_loop (publish_count buf) (blk \<noteq> None) buf 5 (len - 4) [] t of
         None \<Rightarrow> None
       | Some (True, files, u) \<Rightarrow>
           Some (heap_free (length files + (if blk = None then 0 else 1))
             (srv_log ''handle_publish: cleaning up allocated strings\<newline>'' [] u))
       | Some (False, files, u) \<Rightarrow> publish_store i (publish_count buf) (blk \<noteq> None) files u)"
    using assms c [unfolded t0_def]
    unfolding handle_publish_def publish_admitted_def publish_count_def Let_def
    by (simp split del: if_split)
  ultimately show thesis by (rule that)
qed

lemma handle_publish_effect:
  assumes "handle_publish i buf len s = Some s'" "publish_admitted i buf len s"
    "files_ok m (client_at s i)" "i < length (clients s)"
    "client_blocks (client_at s i) \<le> heap_live s"
  shows "keeps s' s \<and>
    (clients s' = clients s \<and> heap_live s' = heap_live s \<and> (alloc_ok s \<longrightarrow> publish_names buf len = None) \<or>
     (\<exists>arr fs. publish_names buf len = Some (map fdata fs) \<and> (\<forall>f\<in>set fs. stored f) \<and>
        (0 < length fs \<longrightarrow> arr) \<and>
        clients s' = (clients s)[i := with_files (length fs) arr fs (client_at s i)] \<and>
        heap_live s' + client_blocks (client_at s i) =
          heap_live s + (if arr then Suc (length fs) else 0)))"
proof -
  obtain blk t where t: "keeps t s" "clients t = clients s"
    "heap_live t = heap_live s + (if blk = None then 0 else 1)"
    "alloc_ok s \<longrightarrow> blk \<noteq> (None :: byte list option)"
    and eq: "handle_publish i buf len s =
      (case publish_loop (publish_count buf) (blk \<noteq> None) buf 5 (len - 4) [] t of
         None \<Rightarrow> None
       | Some (True, files, u) \<Rightarrow>
           Some (heap_free (length files + (if blk = None then 0 else 1))
             (srv_log ''handle_publish: cleaning up allocated strings\<newline>'' [] u))
       | Some (False, files, u) \<Rightarrow> publish_store i (publish_count buf) (blk \<noteq> None) files u)"
    using assms(2) by (rule handle_publish_admitted)
  have inb: "5 + (len - 4) \<le> BUFF_SIZE"
    using assms(2) by (simp add: publish_admitted_def BUFF_SIZE_def)
  from assms(1) eq obtain bad fs u where
    loop: "publish_loop (publish_count buf) (blk \<noteq> None) buf 5 (len - 4) [] t = Some (bad, fs, u)"
    by (auto split: option.splits)
  from publish_loop_effect [OF loop inb] have "keeps u t" by blast
  then have ks: "keeps u s" using t(1) by (rule keeps_trans)
  from publish_loop_effect [OF loop inb] t have
    u: "clients u = clients s" "heap_live u = heap_live t + length fs"
    and st: "\<forall>f\<in>set fs. stored f"
    and good: "\<not> bad \<Longrightarrow> length fs = publish_count buf \<and> (0 < publish_count buf \<longrightarrow> blk \<noteq> None) \<and>
      publish_names buf len = Some (map fdata fs)"
    by (auto simp: publish_names_def)
  show ?thesis
  proof (cases bad)
    case True
    with assms(1) eq loop have s': "s' = heap_free (length fs + (if blk = None then 0 else 1))
        (srv_log ''handle_publish: cleaning up allocated strings\<newline>'' [] u)" by simp
    have "publish_names buf len = None" if a: "alloc_ok s"
    proof -
      from a t have "alloc_ok t" "blk \<noteq> None" by (auto simp: alloc_ok_keeps)
      with publish_loop_total [OF _ _ inb, of t "blk \<noteq> None" "publish_count buf" buf "[]"] loop True
      show ?thesis by (auto simp: publish_names_def)
    qed
    moreover have "keeps s' s" using ks by (simp add: s' keeps_def heap_free_def)
    ultimately show ?thesis using u t by (auto simp: s' heap_free_def)
  next
    case False
    with assms(1) eq loop have store: "publish_store i (publish_count buf) (blk \<noteq> None) fs u = Some s'"
      by simp
    from publish_store_effect [of m u i fs "publish_count buf" "blk \<noteq> None"] store assms(3,4) u st
    have "keeps s' u" "clients s' = (clients u)[i := with_files (publish_count buf) (blk \<noteq> None) fs (client_at u i)]"
      "heap_live s' = heap_live u - client_blocks (client_at u i)" by auto
    moreover from this(1) have "keeps s' s" using ks by (rule keeps_trans)
    ultimately show ?thesis using good [OF False] u t st assms(5)
      by (intro conjI disjI2 exI [of _ "blk \<noteq> None"] exI [of _ fs]) auto
  qed
qed

end
