(* ===== verification/RegSearch.thy ===== *)
theory RegSearch
  imports RegTable "HOL-Library.Sublist"
begin

text \<open>
  \<open>program_04/registry.c\<close>, part 8: what a search finds. \<open>owner s q\<close> is the first active
  client with a published name that is a prefix of the query \<open>q\<close>: this is the relation the
  comparison loop decides, and \<open>handle_search\<close> answers with that client.
\<close>

section \<open>The comparison loop decides the prefix relation\<close>

lemma buf_str_Some:
  assumes "buf_str buf k = Some q"
  shows "k < BUFF_SIZE" "(q = [] \<and> buf k = 0) \<or>
    (\<exists>q'. buf k \<noteq> 0 \<and> q = buf k # q' \<and> buf_str buf (Suc k) = Some q')"
  using assms by (auto simp: buf_str.simps [of buf k] split: if_splits)

lemma match_file_prefix:
  "cstr_in m = Some t \<Longrightarrow> buf_str buf k = Some q \<Longrightarrow> match_file m buf k = Some (prefix t q)"
proof (induction m arbitrary: t k q)
  case (Cons b m)
  note q = buf_str_Some [OF Cons.prems(2)]
  show ?case
  proof (cases "b = 0")
    case True
    with Cons.prems show ?thesis by (simp add: cstr_in_def)
  next
    case False
    with Cons.prems(1) obtain t' where t': "t = b # t'" "cstr_in m = Some t'"
      by (auto simp: cstr_in_def split: if_splits)
    from q(2) show ?thesis
    proof
      assume "q = [] \<and> buf k = 0"
      with False q(1) t' show ?thesis by simp
    next
      assume "\<exists>q'. buf k \<noteq> 0 \<and> q = buf k # q' \<and> buf_str buf (Suc k) = Some q'"
      with False q(1) t' show ?thesis by (auto simp: Cons.IH)
    qed
  qed
qed (simp add: cstr_in_def)

text \<open>The name a block shows to readers, and the names of a client.\<close>

definition shown :: "fblock \<Rightarrow> byte list" where
  "shown f = the (block_str f)"

definition client_files :: "client \<Rightarrow> fblock list" where
  "client_files c = (case c_files c of None \<Rightarrow> [] | Some fs \<Rightarrow> fs)"

definition offers :: "client \<Rightarrow> byte list \<Rightarrow> bool" where
  "offers c q \<longleftrightarrow> (\<exists>f\<in>set (client_files c). prefix (shown f) q)"

definition owner :: "server \<Rightarrow> byte list \<Rightarrow> nat option" where
  "owner s q = find (\<lambda>k. c_active (client_at s k) \<and> offers (client_at s k) q) [0..<max_conn s]"

lemma stored_shown: "stored f \<Longrightarrow> block_str f = Some (shown f)"
  by (simp add: stored_def shown_def block_str_def cstr_in_def)

text \<open>A block whose next byte in memory is zero shows exactly the published bytes.\<close>

definition terminated :: "fblock \<Rightarrow> bool" where
  "terminated f \<longleftrightarrow> (\<exists>r. fslack f = 0 # r)"

lemma shown_terminated: "name_ok (fdata f) \<Longrightarrow> terminated f \<Longrightarrow> shown f = fdata f"
  by (auto simp: terminated_def shown_def block_str_def name_ok_def)

lemma files_ok_stored: "files_ok n c \<Longrightarrow> \<forall>f\<in>set (client_files c). stored f"
  by (auto simp: files_ok_def client_files_def stored_def split: option.splits)

lemma search_files_spec:
  assumes "\<forall>f\<in>set fs. stored f" "buf_str buf k = Some q"
  shows "\<exists>s'. search_files fs buf k s = Some (\<exists>f\<in>set fs. prefix (shown f) q, s')"
  using assms(1)
proof (induction fs arbitrary: s)
  case (Cons f fs)
  then have f: "block_str f = Some (shown f)" by (simp add: stored_shown)
  then have m: "match_file (fdata f @ fslack f) buf k = Some (prefix (shown f) q)"
    using assms(2) by (intro match_file_prefix) (simp_all add: block_str_def)
  show ?case
  proof (cases "prefix (shown f) q")
    case True
    with f m show ?thesis by simp
  next
    case False
    with f m Cons show ?thesis by simp
  qed
qed simp

lemma search_client_files_spec:
  assumes "files_ok n (client_at s k)" "buf_str buf j = Some q"
  shows "\<exists>s'. search_client_files buf j k s = Some (offers (client_at s k) q, s')"
proof (cases "c_files (client_at s k)")
  case None
  with assms show ?thesis
    by (simp add: search_client_files_def files_ok_def offers_def client_files_def)
next
  case (Some fs)
  with assms(1) have "c_files_len (client_at s k) = length fs" "\<forall>f\<in>set fs. stored f"
    by (auto simp: files_ok_def stored_def)
  with Some search_files_spec [OF this(2) assms(2), of s] show ?thesis
    by (simp add: search_client_files_def offers_def client_files_def)
qed

lemma search_clients_spec:
  assumes "\<forall>k\<in>set ks. files_ok n (client_at s k)" "buf_str buf j = Some q"
  shows "\<exists>s'. search_clients ks buf j s =
      Some (find (\<lambda>k. c_active (client_at s k) \<and> offers (client_at s k) q) ks, s')"
  using assms(1)
proof (induction ks arbitrary: s)
  case (Cons k ks)
  show ?case
  proof (cases "c_active (client_at s k)")
    case False
    with Cons show ?thesis by simp
  next
    case True
    define t where "t = srv_debug ''handle_search: checking client: %u\<newline>''
      [AInt (uint (c_id (client_at s k)))] s"
    have t: "clients t = clients s" by (simp add: t_def)
    with Cons.prems obtain u where u: "search_client_files buf j k t = Some (offers (client_at s k) q, u)"
      using search_client_files_spec [of n t k, OF _ assms(2)] by auto
    have cu: "clients u = clients s"
      using search_client_files_quiet [OF u] t by (simp add: quiet_fields)
    show ?thesis
    proof (cases "offers (client_at s k) q")
      case True
      with \<open>c_active _\<close> u show ?thesis by (simp add: Let_def flip: t_def)
    next
      case False
      from Cons.IH [of u] Cons.prems cu obtain v where
        "search_clients ks buf j u =
          Some (find (\<lambda>k. c_active (client_at s k) \<and> offers (client_at s k) q) ks, v)"
        by auto
      with \<open>c_active _\<close> u False show ?thesis by (simp add: Let_def flip: t_def)
    qed
  qed
qed simp

section \<open>The answer\<close>

definition answer :: "server \<Rightarrow> byte list \<Rightarrow> byte list" where
  "answer s q = (case owner s q of None \<Rightarrow> zero_response | Some k \<Rightarrow> found_response (client_at s k))"

lemma search_report_total: "\<exists>s'. search_report query found s = Some s'"
  by (auto simp: search_report_def get_ipv4_port_text IPLEN_AND_PORT_def split: option.splits)

text \<open>\<open>emits fd bs s' s\<close>: between the two states exactly \<open>bs\<close> was sent, on \<open>fd\<close>.\<close>

definition emits :: "int \<Rightarrow> byte list \<Rightarrow> server \<Rightarrow> server \<Rightarrow> bool" where
  "emits fd bs s' s \<longleftrightarrow> sent s' = (sent s)(fd := sent s fd @ bs)"

lemma emits_trans: "emits fd a t s \<Longrightarrow> emits fd b u t \<Longrightarrow> emits fd (a @ b) u s"
  by (simp add: emits_def)

lemma emits_Nil [simp]: "emits fd [] s s"
  by (simp add: emits_def)

lemma emits_quiet: "quiet t s \<Longrightarrow> emits fd bs u t = emits fd bs u s"
  by (simp add: emits_def quiet_fields)

text \<open>Client \<open>i\<close> can be answered: its socket is open and sending makes progress.\<close>

definition reachable_client :: "nat \<Rightarrow> server \<Rightarrow> bool" where
  "reachable_client i s \<longleftrightarrow> send_works s \<and> c_sock (client_at s i) \<in> set (open_fds s)"

lemma reads_same:
  assumes "reads s' s"
  shows "c_sock (client_at s' i) = c_sock (client_at s i)" "reachable_client i s' = reachable_client i s"
    "table_ok s' = table_ok s" "max_conn s' = max_conn s" "answer s' q = answer s q"
  using assms
  by (simp_all add: reads_def keeps_def send_works_def table_ok_def reachable_client_def answer_def
      owner_def split: option.splits)

lemma respond_works:
  assumes "reachable_client i s"
  obtains s' where "respond i bs s = Some (False, s')" "emits (c_sock (client_at s i)) bs s' s"
  using assms send_bytes_works [of s "c_sock (client_at s i)" bs]
  by (auto simp: respond_def emits_def reachable_client_def)

lemma search_answer_works:
  assumes "table_ok s" "buf_str buf 1 = Some q" "reachable_client i s"
  obtains s' where "search_answer i buf s = Some s'"
    "emits (c_sock (client_at s i)) (answer s q) s' s"
proof -
  define s1 where "s1 = srv_info ''handle_search: client %u searching files for %s\<newline>''
    [AInt (uint (c_id (client_at s i))), AStr (chars q)] s"
  have q1: "quiet s1 s" by (simp add: s1_def)
  have "\<forall>k\<in>set [0..<max_conn s]. files_ok (max_files s) (client_at s1 k)"
    using assms(1) q1 by (auto simp: quiet_fields table_okD(2))
  then obtain s2 where s2: "search_clients [0..<max_conn s] buf 1 s1 = Some (owner s q, s2)"
    using search_clients_spec [of "[0..<max_conn s]" "max_files s" s1, OF _ assms(2)] quiet_fields(9) [OF q1]
    by (auto simp: owner_def)
  obtain s3 where s3: "search_report q (owner s q) s2 = Some s3"
    using search_report_total by blast
  define s4 where "s4 = srv_info ''handle_search: sending response\<newline>'' [] s3"
  have "quiet s3 s" using search_clients_quiet [OF s2] search_report_quiet [OF s3] q1 quiet_trans by blast
  then have q4: "quiet s4 s" by (simp add: s4_def)
  note r = reads_same [OF quiet_reads [OF q4]]
  obtain s' where s': "respond i (answer s q) s4 = Some (False, s')"
    "emits (c_sock (client_at s i)) (answer s q) s' s"
    using respond_works [of i s4 "answer s q"] assms(3) r q4 by (auto simp: emits_quiet)
  have "clients s3 = clients s" using q4 by (simp add: s4_def quiet_fields)
  then have "(case owner s q of None \<Rightarrow> zero_response | Some k \<Rightarrow> found_response (client_at s3 k)) = answer s q"
    by (simp add: answer_def split: option.splits)
  then have "search_answer i buf s = Some s'"
    using assms(2) s2 s3 s'(1) by (simp add: search_answer_def s1_def s4_def)
  then show thesis using s'(2) by (rule that)
qed

text \<open>The two checks on a request, as counts of empty responses.\<close>

definition zeros :: "nat \<Rightarrow> byte list" where
  "zeros n = replicate (10 * n) 0"

lemma zeros_add: "zeros m @ zeros n = zeros (m + n)"
  by (simp add: zeros_def distrib_left replicate_add)

lemma zero_response_zeros: "zero_response = zeros 1"
  by (simp add: zero_response_def zeros_def)

lemma zeros_0 [simp]: "zeros 0 = []"
  by (simp add: zeros_def)

lemma ascii_loop_works:
  assumes "reachable_client i s"
  shows "\<exists>s'. ascii_loop ks i buf s = Some (False, s') \<and>
    emits (c_sock (client_at s i)) (zeros (count_if (\<lambda>k. buf (1 + k) \<ge> 128) ks)) s' s"
  using assms
proof (induction ks arbitrary: s)
  case (Cons k ks)
  show ?case
  proof (cases "buf (1 + k) \<ge> 128")
    case False
    with Cons.IH [OF Cons.prems] show ?thesis by simp
  next
    case True
    define t where "t = srv_warn ''handle_search: file name contains non ASCII characters\<newline>'' [] s"
    have t: "quiet t s" by (simp add: t_def)
    obtain u where u: "respond i zero_response t = Some (False, u)"
      "emits (c_sock (client_at s i)) (zeros 1) u s"
      using respond_works [of i t zero_response] Cons.prems reads_same [OF quiet_reads [OF t]] t
      by (auto simp: emits_quiet zero_response_zeros)
    have r: "reads u s" using respond_reads [OF u(1)] t by (simp add: reads_quiet)
    obtain v where "ascii_loop ks i buf u = Some (False, v)"
      "emits (c_sock (client_at s i)) (zeros (count_if (\<lambda>k. buf (1 + k) \<ge> 128) ks)) v u"
      using Cons.IH [of u] Cons.prems reads_same [OF r] by auto
    with True u emits_trans [OF u(2) this(2)] show ?thesis
      by (simp add: t_def zeros_add)
  qed
qed simp

lemma null_check_works:
  assumes "reachable_client i s" "0 < len" "len < 100"
  shows "\<exists>s'. null_check i buf len s = Some (False, s') \<and>
    emits (c_sock (client_at s i)) (zeros (if buf len = 0 then 0 else 1)) s' s"
proof -
  have at: "(1 + size_sub len 1) mod 2 ^ 64 = len" "len < BUFF_SIZE"
    using assms(2,3) by (simp_all add: BUFF_SIZE_def)
  define t where "t = srv_warn ''handle_search: non null terminated string from client\<newline>'' [] s"
  have t: "quiet t s" by (simp add: t_def)
  obtain u where u: "respond i zero_response t = Some (False, u)"
    "emits (c_sock (client_at s i)) (zeros 1) u s"
    using respond_works [of i t zero_response] assms(1) reads_same [OF quiet_reads [OF t]] t
    by (auto simp: emits_quiet zero_response_zeros)
  have "null_check i buf len s = (if buf len \<noteq> 0 then respond i zero_response t else Some (False, s))"
    unfolding null_check_def Let_def at(1) t_def using at(2) by simp
  then show ?thesis using u by auto
qed

text \<open>The number of complaints a request draws before its answer.\<close>

definition complaints :: "(nat \<Rightarrow> byte) \<Rightarrow> nat \<Rightarrow> nat" where
  "complaints buf len =
     count_if (\<lambda>k. buf (1 + k) \<ge> 128) [0..<len] + (if buf len = 0 then 0 else 1)"

lemma handle_search_works:
  assumes "table_ok s" "c_type (client_at s i) \<noteq> CLIENT_UNKNOWN" "0 < len" "len < 100"
    "buf_str buf 1 = Some q" "reachable_client i s"
  shows "\<exists>s'. handle_search i buf len s = Some s' \<and> reads s' s \<and>
    emits (c_sock (client_at s i)) (zeros (complaints buf len) @ answer s q) s' s"
proof -
  obtain s1 where s1: "ascii_loop [0..<len] i buf s = Some (False, s1)"
    "emits (c_sock (client_at s i)) (zeros (count_if (\<lambda>k. buf (1 + k) \<ge> 128) [0..<len])) s1 s"
    using ascii_loop_works [OF assms(6), of "[0..<len]" buf] by auto
  have r1: "reads s1 s" using ascii_loop_reads [OF s1(1)] .
  obtain s2 where s2: "null_check i buf len s1 = Some (False, s2)"
    "emits (c_sock (client_at s i)) (zeros (if buf len = 0 then 0 else 1)) s2 s1"
    using null_check_works [of i s1 len buf] assms reads_same [OF r1] by auto
  have r2: "reads s2 s" using null_check_reads [OF s2(1)] r1 reads_trans by blast
  obtain s' where s': "search_answer i buf s2 = Some s'"
    "emits (c_sock (client_at s i)) (answer s q) s' s2"
    using search_answer_works [of s2 buf q i] assms reads_same [OF r2] by auto
  have h: "handle_search i buf len s = Some s'"
    using assms s1(1) s2(1) s'(1) by (simp add: handle_search_def)
  have "emits (c_sock (client_at s i)) (zeros (complaints buf len) @ answer s q) s' s"
    using emits_trans [OF emits_trans [OF s1(2) s2(2)] s'(2)]
    by (simp only: complaints_def zeros_add)
  with h handle_search_reads [OF h] show ?thesis by blast
qed

end
