(* ===== verification/RegInv.thy ===== *)
theory RegInv
  imports RegSearch Machine
begin

text \<open>
  \<open>program_04/registry.c\<close>, part 9: the server as a state machine. A configuration is the
  head of the main loop, a position in the scan over the ready descriptors, or the end of
  the loop; \<open>server_step\<close> is one transition, \<open>main_loop\<close> computes its runs. The invariant
  ties the descriptor set to the client table: every watched descriptor but the listening
  one is the socket of exactly one active client.
\<close>

section \<open>The socket invariant\<close>

definition active_slots :: "server \<Rightarrow> nat set" where
  "active_slots s = {i. i < max_conn s \<and> c_active (client_at s i)}"

definition socks_ok :: "server \<Rightarrow> bool" where
  "socks_ok s \<longleftrightarrow>
     inj_on (\<lambda>i. c_sock (client_at s i)) (active_slots s) \<and>
     listen_sock s \<notin> (\<lambda>i. c_sock (client_at s i)) ` active_slots s \<and>
     all_socks s = insert (listen_sock s) ((\<lambda>i. c_sock (client_at s i)) ` active_slots s) \<and>
     (\<forall>fd\<in>all_socks s. 3 \<le> fd \<and> fd \<le> max_socket s) \<and>
     {0, 1, 2} \<subseteq> set (open_fds s)"

text \<open>Every watched descriptor is open; at the limit of connections this can fail.\<close>

definition healthy :: "server \<Rightarrow> bool" where
  "healthy s \<longleftrightarrow> all_socks s \<subseteq> set (open_fds s)"

definition server_ok :: "server \<Rightarrow> bool" where
  "server_ok s \<longleftrightarrow> table_ok s \<and> socks_ok s \<and> (healthy s \<longrightarrow> active_clients s < max_conn s)"

lemma keeps_active_slots: "table_ok s \<Longrightarrow> keeps s' s \<Longrightarrow> active_slots s' = active_slots s"
  using keeps_client(1) [of s' s] by (auto simp: active_slots_def table_ok_def keeps_def)

lemma keeps_socks:
  assumes "table_ok s" "keeps s' s"
  shows "socks_ok s' = socks_ok s" "healthy s' = healthy s"
proof -
  have a: "active_slots s' = active_slots s" using assms by (rule keeps_active_slots)
  have "c_sock (client_at s' i) = c_sock (client_at s i)" if "i \<in> active_slots s" for i
    using keeps_client(2) [OF assms(2)] assms(1) that by (auto simp: active_slots_def table_ok_def)
  then have "(\<lambda>i. c_sock (client_at s' i)) ` active_slots s = (\<lambda>i. c_sock (client_at s i)) ` active_slots s"
    "inj_on (\<lambda>i. c_sock (client_at s' i)) (active_slots s) = inj_on (\<lambda>i. c_sock (client_at s i)) (active_slots s)"
    by (auto intro!: image_cong inj_on_cong)
  then show "socks_ok s' = socks_ok s" using assms(2) a by (simp add: socks_ok_def keeps_def)
  show "healthy s' = healthy s" using assms(2) by (simp add: healthy_def keeps_def)
qed

lemma keeps_server_ok:
  "keeps s' s \<Longrightarrow> table_ok s \<Longrightarrow> table_ok s' \<Longrightarrow> server_ok s \<Longrightarrow> server_ok s'"
  using keeps_socks [of s s'] by (auto simp: server_ok_def keeps_def)

lemma reads_ok:
  assumes "reads t s"
  shows "table_ok t = table_ok s" "server_ok t = server_ok s" "healthy t = healthy s"
    "active_slots t = active_slots s" "client_at t i = client_at s i"
    "listen_sock t = listen_sock s" "all_socks t = all_socks s" "open_fds t = open_fds s"
    "max_socket t = max_socket s" "max_conn t = max_conn s" "active_clients t = active_clients s"
    "keeps t s"
  using assms
  by (simp_all add: reads_def keeps_def table_ok_def server_ok_def healthy_def socks_ok_def
      active_slots_def)

section \<open>Requests preserve the table\<close>

lemma handle_join_table:
  assumes "table_ok s" "i \<in> active_slots s" "handle_join i buf len s = Some s'"
  shows "table_ok s' \<and> keeps s' s"
proof -
  note e = handle_join_effect [OF assms(3)]
  show ?thesis
  proof (cases "clients s' = (clients s)[i := joined_as (join_id buf) (client_at s i)]")
    case True
    then have "table_ok s'"
      using assms(1,2) e table_okD(2) [OF assms(1), of i]
      by (intro table_ok_set [of s i s' "joined_as (join_id buf) (client_at s i)"])
        (auto simp: active_slots_def)
    with e show ?thesis by simp
  next
    case False
    with e have "quiet s' s" by (auto split: if_splits)
    with assms(1) e show ?thesis by (simp add: table_ok_quiet)
  qed
qed

lemma handle_publish_table:
  assumes "table_ok s" "i \<in> active_slots s" "handle_publish i buf len s = Some s'"
  shows "table_ok s' \<and> keeps s' s"
proof (cases "publish_admitted i buf len s")
  case False
  from handle_publish_refused [OF this] assms(3) have "quiet s' s" by auto
  with assms(1) show ?thesis by (simp add: table_ok_quiet quiet_keeps)
next
  case True
  have i: "i < max_conn s" "c_active (client_at s i)" using assms(2) by (auto simp: active_slots_def)
  note t = table_okD [OF assms(1) i(1)]
  from handle_publish_effect [OF assms(3) True t(2,1)] t(4) consider
    (same) "keeps s' s" "clients s' = clients s" "heap_live s' = heap_live s"
    | (stored) arr fs where "keeps s' s" "publish_names buf len = Some (map fdata fs)"
        "\<forall>f\<in>set fs. stored f" "0 < length fs \<longrightarrow> arr"
        "clients s' = (clients s)[i := with_files (length fs) arr fs (client_at s i)]"
        "heap_live s' + client_blocks (client_at s i) = heap_live s + (if arr then Suc (length fs) else 0)"
    by auto
  then show ?thesis
  proof cases
    case same
    with assms(1) table_ok_same show ?thesis by blast
  next
    case stored
    have "length fs = publish_count buf"
      using stored(2) parse_names_result by (fastforce simp: publish_names_def)
    then have "length fs \<le> max_files s" using True by (simp add: publish_admitted_def)
    with stored(3,4) have "files_ok (max_files s) (with_files (length fs) arr fs (client_at s i))"
      by (auto simp: files_ok_def stored_def)
    moreover have "client_blocks (with_files (length fs) arr fs (client_at s i)) =
        (if arr then Suc (length fs) else 0)" by (simp add: client_blocks_def)
    ultimately show ?thesis using table_ok_set [OF assms(1) i stored(1,5)] stored(1,6) by simp
  qed
qed

lemma dispatch_table:
  assumes "table_ok s" "i \<in> active_slots s" "dispatch i buf len s = Some s'"
  shows "table_ok s' \<and> keeps s' s"
proof -
  have "table_ok s' \<and> keeps s' s" if "handle_search i buf (len - 1) s = Some s'"
    using handle_search_reads [OF that] assms(1) reads_same(3) by (auto simp: reads_def)
  then show ?thesis
    using assms handle_join_table [OF assms(1,2)] handle_publish_table [OF assms(1,2)]
    by (auto simp: dispatch_def table_ok_quiet [OF quiet_log(3)] split: if_splits)
qed

section \<open>Closing a client\<close>

lemma close_client_effect:
  assumes "table_ok s" "i \<in> active_slots s" "close_client i r s = Some s'"
  shows "table_ok s' \<and> clients s' = (clients s)[i := cleared (client_at s i)] \<and>
    set (open_fds s') = set (open_fds s) - {c_sock (client_at s i)} \<and>
    all_socks s' = all_socks s - {c_sock (client_at s i)} \<and> max_conn s' = max_conn s \<and>
    listen_sock s' = listen_sock s \<and> max_socket s' = max_socket s \<and>
    active_clients s' = active_clients s - 1 \<and> 0 < active_clients s \<and> env s' = env s"
proof -
  have i: "i < max_conn s" "c_active (client_at s i)" using assms(2) by (auto simp: active_slots_def)
  note t = table_okD [OF assms(1) i(1)]
  define sock where "sock = c_sock (client_at s i)"
  define s2 where "s2 = srv_info ''client: %d closing\<newline>'' [AInt sock]
    (if r = - 1 then srv_error ''client %d error: %s\<newline>'' [AInt sock, strerror s] s else s)"
  have q: "quiet s2 s" by (simp add: s2_def)
  define s3 where "s3 = snd (sys_close sock s2)"
  have s3: "set (open_fds s3) = set (open_fds s) - {sock}" "clients s3 = clients s"
    "all_socks s3 = all_socks s" "max_conn s3 = max_conn s" "max_files s3 = max_files s"
    "listen_sock s3 = listen_sock s" "max_socket s3 = max_socket s" "env s3 = env s"
    "active_clients s3 = active_clients s" "heap_live s3 = heap_live s"
    using q by (auto simp: s3_def sys_close_def quiet_fields)
  define s4 where "s4 = s3\<lparr>all_socks := FD_CLR sock (all_socks s3)\<rparr>"
  have c: "clear_client i s4 = Some (set_client i (cleared (client_at s i))
      (heap_free (client_blocks (client_at s i)) s4))"
    using clear_client_ok [of "max_files s" s4 i] t s3 by (simp add: s4_def)
  have s': "s' = (set_client i (cleared (client_at s i))
      (heap_free (client_blocks (client_at s i)) s4))\<lparr>active_clients := size_sub (active_clients s) 1\<rparr>"
  proof -
    have "close_client i r s = (case clear_client i s4 of None \<Rightarrow> None
        | Some s5 \<Rightarrow> Some (s5\<lparr>active_clients := size_sub (active_clients s5) 1\<rparr>))"
      unfolding close_client_def Let_def s4_def s3_def s2_def sock_def by (rule refl)
    with assms(3) c s3 show ?thesis by (simp add: heap_free_def s4_def)
  qed
  have pos: "0 < active_clients s" "active_clients s < 2 ^ 64"
    using assms(1) t(1) i(2) count_if_pos [of i "clients s" c_active] count_if_le [of c_active "clients s"]
    by (auto simp: table_ok_def)
  then have ac: "active_clients s' = active_clients s - 1" by (simp add: s')
  have cs: "clients s' = (clients s)[i := cleared (client_at s i)]" "max_conn s' = max_conn s"
    "max_files s' = max_files s" "heap_live s' = heap_live s - client_blocks (client_at s i)"
    using s3 by (simp_all add: s' s4_def heap_free_def)
  have "count_if c_active (clients s') = active_clients s'"
    using count_if_update [OF t(1), of c_active "cleared (client_at s i)"] i(2) assms(1) ac
    by (simp add: cs table_ok_def)
  moreover have "heap_live s' = Suc (sum_list (map client_blocks (clients s')))"
    using sum_list_map_update [OF t(1), of client_blocks "cleared (client_at s i)"] assms(1) cs
    by (simp add: table_ok_def)
  moreover have "\<forall>d\<in>set (clients s'). files_ok (max_files s') d \<and> (\<not> c_active d \<longrightarrow> slot_clear d)"
    using assms(1) set_update_subset_insert [of "clients s" i "cleared (client_at s i)"]
    by (fastforce simp: table_ok_def cs)
  ultimately have "table_ok s'" using assms(1) cs by (simp add: table_ok_def)
  with ac cs pos s3 show ?thesis by (simp add: s' s4_def heap_free_def FD_CLR_def sock_def)
qed

lemma close_client_ok:
  assumes "server_ok s" "i \<in> active_slots s" "close_client i r s = Some s'"
  shows "server_ok s' \<and> (healthy s \<longrightarrow> healthy s') \<and> listen_sock s' = listen_sock s \<and>
    all_socks s' = all_socks s - {c_sock (client_at s i)}"
proof -
  have t: "table_ok s" "socks_ok s" using assms(1) by (auto simp: server_ok_def)
  note e = close_client_effect [OF t(1) assms(2,3)]
  have i: "i < length (clients s)" using assms(2) t(1) by (simp add: active_slots_def table_ok_def)
  have act: "active_slots s' = active_slots s - {i}"
    using e i by (auto simp: active_slots_def nth_list_update)
  have sock: "c_sock (client_at s' j) = c_sock (client_at s j)" if "j \<in> active_slots s - {i}" for j
    using e that by simp
  have inj: "inj_on (\<lambda>i. c_sock (client_at s i)) (active_slots s)" using t(2) by (simp add: socks_ok_def)
  have "(\<lambda>j. c_sock (client_at s' j)) ` active_slots s' = (\<lambda>j. c_sock (client_at s j)) ` (active_slots s - {i})"
    unfolding act using sock by (rule image_cong [OF refl])
  also have "\<dots> = (\<lambda>j. c_sock (client_at s j)) ` active_slots s - {c_sock (client_at s i)}"
    using inj_on_image_set_diff [OF inj, of "active_slots s" "{i}"] assms(2) by simp
  finally have img: "(\<lambda>j. c_sock (client_at s' j)) ` active_slots s' =
      (\<lambda>j. c_sock (client_at s j)) ` active_slots s - {c_sock (client_at s i)}" .
  have inj': "inj_on (\<lambda>j. c_sock (client_at s' j)) (active_slots s')"
    unfolding act using sock inj by (metis (no_types, lifting) inj_on_cong inj_on_diff)
  have "c_sock (client_at s i) \<in> (\<lambda>j. c_sock (client_at s j)) ` active_slots s"
    using assms(2) by (rule imageI)
  then have ge: "3 \<le> c_sock (client_at s i)" "c_sock (client_at s i) \<noteq> listen_sock s"
    using t(2) by (auto simp: socks_ok_def)
  have all: "all_socks s' = insert (listen_sock s') ((\<lambda>j. c_sock (client_at s' j)) ` active_slots s')"
    unfolding img using t(2) e ge by (simp add: socks_ok_def insert_Diff_if)
  have rng: "\<forall>fd\<in>all_socks s'. 3 \<le> fd \<and> fd \<le> max_socket s'" "{0, 1, 2} \<subseteq> set (open_fds s')"
    using t(2) e ge(1) by (auto simp: socks_ok_def)
  have "listen_sock s' \<notin> (\<lambda>j. c_sock (client_at s' j)) ` active_slots s'"
    unfolding img using t(2) e by (simp add: socks_ok_def)
  with inj' all rng have "socks_ok s'" by (simp only: socks_ok_def simp_thms)
  moreover have "healthy s \<longrightarrow> healthy s'" using e by (auto simp: healthy_def)
  moreover have "active_clients s' < max_conn s'"
    using e t(1) count_if_le [of c_active "clients s"] by (auto simp: table_ok_def)
  ultimately show ?thesis using e by (simp add: server_ok_def)
qed

section \<open>Serving a client\<close>

lemma handle_client_ok:
  assumes "server_ok s" "i \<in> active_slots s" "handle_client i s = Some s'"
  shows "server_ok s' \<and> (healthy s \<longrightarrow> healthy s') \<and> listen_sock s' = listen_sock s \<and>
    all_socks s - {c_sock (client_at s i)} \<subseteq> all_socks s'"
proof -
  obtain r d s1 where recv: "sys_recv (c_sock (client_at s i)) BUFF_SIZE s = ((r, d), s1)"
    by (metis surj_pair)
  have "reads s1 s"
    by (simp add: sys_recv_state [OF recv] reads_def keeps_def)
  note r1 = reads_ok [OF this]
  show ?thesis
  proof (cases "r \<le> 0")
    case True
    with assms(3) recv have "close_client i r s1 = Some s'" by (simp add: handle_client_def)
    from close_client_ok [OF _ _ this] assms(1,2) show ?thesis by (simp add: r1)
  next
    case False
    define s3 where "s3 = print_buffer d VERBOSE
      (srv_debug ''client %d data:\<newline>'' [AInt (c_sock (client_at s1 i))] s1)"
    have "reads s3 s1" by (simp add: s3_def)
    note r3 = reads_ok [OF this]
    have ok3: "table_ok s3" "i \<in> active_slots s3"
      using assms(1,2) by (simp_all add: r1 r3 server_ok_def)
    have "table_ok s' \<and> keeps s' s3"
      using dispatch_table [OF ok3] assms(3) recv False
      by (simp add: handle_client_def s3_def Let_def)
    then have t': "table_ok s'" and "keeps s' s3" by auto
    then have k': "keeps s' s" using r3(12) r1(12) keeps_trans by blast
    have t: "table_ok s" using assms(1) by (simp add: server_ok_def)
    have "server_ok s'" "healthy s' = healthy s"
      using keeps_server_ok [OF k' t t' assms(1)] keeps_socks(2) [OF t k'] by auto
    moreover have "listen_sock s' = listen_sock s" "all_socks s' = all_socks s"
      using k' by (simp_all add: keeps_def)
    ultimately show ?thesis by auto
  qed
qed

end
