(* ===== verification/RegMachine.thy ===== *)
theory RegMachine
  imports RegInv
begin

text \<open>
  \<open>program_04/registry.c\<close>, part 10: accepting a connection, the transitions of the main
  loop, and the invariant of every reachable configuration. \<open>main_loop\<close> returns exactly
  the results of complete runs of \<open>server_step\<close>.
\<close>

section \<open>Accepting\<close>

definition same_table :: "server \<Rightarrow> server \<Rightarrow> bool" where
  "same_table t s \<longleftrightarrow>
     clients t = clients s \<and> max_conn t = max_conn s \<and> max_files t = max_files s \<and>
     active_clients t = active_clients s \<and> listen_sock t = listen_sock s \<and>
     all_socks t = all_socks s \<and> max_socket t = max_socket s \<and> heap_live t = heap_live s"

lemma same_table_ok: "same_table t s \<Longrightarrow> table_ok t = table_ok s"
  by (simp add: same_table_def table_ok_def)

lemma same_table_socks:
  "same_table t s \<Longrightarrow> socks_ok s \<Longrightarrow> {0, 1, 2} \<subseteq> set (open_fds t) \<Longrightarrow> socks_ok t"
  by (simp add: same_table_def socks_ok_def active_slots_def)

lemma same_table_quiet: "quiet t s \<Longrightarrow> same_table t s"
  by (simp add: same_table_def quiet_fields)

lemma same_table_trans: "same_table a b \<Longrightarrow> same_table b c \<Longrightarrow> same_table a c"
  by (simp add: same_table_def)

lemma same_table_open_fds:
  "s1 = step_os s0 \<or> (\<exists>fds. s1 = (step_os s0)\<lparr>open_fds := fds\<rparr>) \<Longrightarrow> same_table s0 s \<Longrightarrow> same_table s1 s"
  by (elim disjE exE) (simp_all add: same_table_def)

definition accepted :: "int \<Rightarrow> sockaddr \<Rightarrow> client \<Rightarrow> client" where
  "accepted fd a c = c\<lparr>c_active := True, c_sock := fd, c_addr := a\<rparr>"

lemma accepted_fields [simp]:
  "c_active (accepted fd a c)" "c_sock (accepted fd a c) = fd" "c_addr (accepted fd a c) = a"
  "c_type (accepted fd a c) = c_type c" "c_id (accepted fd a c) = c_id c"
  "files_ok n (accepted fd a c) = files_ok n c" "client_blocks (accepted fd a c) = client_blocks c"
  by (simp_all add: accepted_def files_ok_def client_blocks_def split: option.splits)

text \<open>The first free slot takes the connection.\<close>

lemma accept_register_effect:
  assumes "accept_register fd a s = Some s'" "table_ok s" "active_clients s < max_conn s"
  obtains k t where "quiet t s" "k < max_conn s" "\<not> c_active (client_at s k)"
    "\<forall>j<k. c_active (client_at s j)" "0 \<le> fd" "fd < FD_SETSIZE"
    "s' = (set_client k (accepted fd a (client_at s k))
        (t\<lparr>all_socks := insert fd (all_socks s), max_socket := max fd (max_socket s)\<rparr>))
        \<lparr>active_clients := active_clients s + 1\<rparr>"
proof -
  obtain k where k: "find (\<lambda>k. \<not> c_active (client_at s k)) [0..<max_conn s] = Some k"
  proof (cases "find (\<lambda>k. \<not> c_active (client_at s k)) [0..<max_conn s]")
    case None
    then have "\<forall>c\<in>set (clients s). c_active c"
      using assms(2) by (auto simp: find_None_iff table_ok_def in_set_conv_nth)
    then have "count_if c_active (clients s) = length (clients s)" by (simp add: count_if_full_iff)
    with assms(2,3) show thesis by (simp add: table_ok_def)
  qed
  obtain t where t: "quiet t s" and eq: "accept_register fd a s =
      (case FD_SET fd (all_socks t) of None \<Rightarrow> None
       | Some fds \<Rightarrow>
           (let s2 = t\<lparr>all_socks := fds, max_socket := (if fd > max_socket t then fd else max_socket t)\<rparr>
            in Some (case find (\<lambda>k. \<not> c_active (client_at s2 k)) [0..<max_conn s2] of
                       None \<Rightarrow> s2
                     | Some k \<Rightarrow>
                         (set_client k ((client_at s2 k)\<lparr>c_active := True, c_sock := fd, c_addr := a\<rparr>) s2)
                         \<lparr>active_clients := active_clients s2 + 1\<rparr>)))"
  proof (cases "client_ip a s")
    case IpNull
    show thesis
      by (rule that [of "srv_error ''failed to create ip string from client: %s\<newline>'' [strerror s] s"])
        (simp_all add: accept_register_def IpNull Let_def)
  next
    case (IpStr ip)
    show thesis
      by (rule that [of "srv_info ''client addr: %s\<newline>'' [AStr ip] s"])
        (simp_all add: accept_register_def IpStr Let_def)
  next
    case IpFault
    with assms(1) show thesis by (simp add: accept_register_def)
  qed
  note q = quiet_fields [OF t]
  have "0 \<le> fd \<and> fd < FD_SETSIZE" using assms(1) by (simp add: eq FD_SET_def split: if_splits)
  moreover from this have "s' = (set_client k (accepted fd a (client_at s k))
        (t\<lparr>all_socks := insert fd (all_socks s), max_socket := max fd (max_socket s)\<rparr>))
        \<lparr>active_clients := active_clients s + 1\<rparr>"
    using assms(1) k
    by (cases "max_socket s < fd") (simp_all add: eq FD_SET_def Let_def q accepted_def max_def)
  ultimately show thesis using find_upt_SomeD [OF k] t by (intro that [of t k]) auto
qed

lemma accept_register_ok:
  assumes "accept_register fd a s = Some s'" "table_ok s" "socks_ok s"
    "active_clients s < max_conn s" "fd \<notin> all_socks s" "3 \<le> fd"
  shows "table_ok s'" "socks_ok s'" "all_socks s' = insert fd (all_socks s)"
    "open_fds s' = open_fds s" "listen_sock s' = listen_sock s"
    "active_clients s' = Suc (active_clients s)" "max_conn s' = max_conn s"
proof -
  obtain k t where t: "quiet t s" and k: "k < max_conn s" "\<not> c_active (client_at s k)"
    and s': "s' = (set_client k (accepted fd a (client_at s k))
        (t\<lparr>all_socks := insert fd (all_socks s), max_socket := max fd (max_socket s)\<rparr>))
        \<lparr>active_clients := active_clients s + 1\<rparr>"
    using assms(1,2,4) by (rule accept_register_effect)
  note q = quiet_fields [OF t]
  have len: "k < length (clients s)" using k assms(2) by (simp add: table_ok_def)
  note tk = table_okD [OF assms(2) k(1)]
  have cs: "clients s' = (clients s)[k := accepted fd a (client_at s k)]" "max_files s' = max_files s"
    "heap_live s' = heap_live s" "max_socket s' = max fd (max_socket s)" by (simp_all add: s' q)
  show 1: "all_socks s' = insert fd (all_socks s)" "open_fds s' = open_fds s"
    "listen_sock s' = listen_sock s" "active_clients s' = Suc (active_clients s)"
    "max_conn s' = max_conn s" by (simp_all add: s' q)
  have "count_if c_active (clients s') = active_clients s'"
    using count_if_update [OF len, of c_active "accepted fd a (client_at s k)"] k(2) assms(2) 1
    by (simp add: cs table_ok_def)
  moreover have "heap_live s' = Suc (sum_list (map client_blocks (clients s')))"
    using sum_list_map_update [OF len, of client_blocks "accepted fd a (client_at s k)"] assms(2)
    by (simp add: cs table_ok_def)
  moreover have "\<forall>d\<in>set (clients s'). files_ok (max_files s') d \<and> (\<not> c_active d \<longrightarrow> slot_clear d)"
    using assms(2) tk(2) set_update_subset_insert [of "clients s" k "accepted fd a (client_at s k)"]
    by (fastforce simp: table_ok_def cs)
  ultimately show "table_ok s'" using assms(2) 1 cs by (simp add: table_ok_def)
  have act: "active_slots s' = insert k (active_slots s)"
    using k len cs(1) 1(5) by (auto simp: active_slots_def nth_list_update)
  have kn: "k \<notin> active_slots s" using k by (simp add: active_slots_def)
  have sock: "c_sock (client_at s' j) = c_sock (client_at s j)" if "j \<in> active_slots s" for j
    using that kn cs(1) by (cases "j = k") auto
  have sk: "c_sock (client_at s' k) = fd" using len cs(1) by simp
  have "(\<lambda>j. c_sock (client_at s' j)) ` active_slots s = (\<lambda>j. c_sock (client_at s j)) ` active_slots s"
    using sock by (rule image_cong [OF refl])
  then have img: "(\<lambda>j. c_sock (client_at s' j)) ` active_slots s' =
      insert fd ((\<lambda>j. c_sock (client_at s j)) ` active_slots s)"
    by (simp only: act image_insert sk)
  have all: "all_socks s = insert (listen_sock s) ((\<lambda>j. c_sock (client_at s j)) ` active_slots s)"
    and inj: "inj_on (\<lambda>j. c_sock (client_at s j)) (active_slots s)"
    and ln: "listen_sock s \<notin> (\<lambda>j. c_sock (client_at s j)) ` active_slots s"
    and rng: "\<forall>fd\<in>all_socks s. 3 \<le> fd \<and> fd \<le> max_socket s" "{0, 1, 2} \<subseteq> set (open_fds s)"
    using assms(3) unfolding socks_ok_def by blast+
  have "inj_on (\<lambda>j. c_sock (client_at s' j)) (active_slots s)"
    using inj sock by (metis (no_types, lifting) inj_on_cong)
  moreover have "fd \<notin> (\<lambda>j. c_sock (client_at s' j)) ` active_slots s"
    using assms(5) all sock by auto
  ultimately have inj': "inj_on (\<lambda>j. c_sock (client_at s' j)) (active_slots s')"
    unfolding act using kn sk by simp
  have all': "all_socks s' = insert (listen_sock s') ((\<lambda>j. c_sock (client_at s' j)) ` active_slots s')"
    unfolding img 1 all by blast
  have "listen_sock s' \<notin> (\<lambda>j. c_sock (client_at s' j)) ` active_slots s'"
    unfolding img 1 using ln assms(5) all by auto
  moreover have "\<forall>x\<in>all_socks s'. 3 \<le> x \<and> x \<le> max_socket s'" "{0, 1, 2} \<subseteq> set (open_fds s')"
    unfolding 1 cs(4) using rng assms(6) by auto
  ultimately show "socks_ok s'" using inj' all' by (simp only: socks_ok_def simp_thms)
qed

lemma same_table_server_ok:
  assumes "same_table t s" "set (open_fds t) = set (open_fds s)"
  shows "server_ok t = server_ok s" "healthy t = healthy s"
  using assms same_table_ok [OF assms(1)]
  by (simp_all add: server_ok_def socks_ok_def healthy_def active_slots_def same_table_def)

lemma same_table_watched:
  "same_table t s \<Longrightarrow> listen_sock t = listen_sock s \<and> all_socks t = all_socks s \<and>
    active_clients t = active_clients s \<and> max_conn t = max_conn s"
  by (simp add: same_table_def)

text \<open>
  Registering a fresh descriptor keeps the invariant, also when it was just closed; then
  the table may be full and the server is no longer healthy.
\<close>

lemma accept_register_server_ok:
  assumes reg: "accept_register fd a s1 = Some s'" and st: "same_table s1 s"
    and s: "server_ok s" "healthy s" and fd: "0 \<le> fd" "fd \<notin> set (open_fds s)"
    and opn: "set (open_fds s) \<subseteq> set (open_fds s1)"
    and cap: "fd \<in> set (open_fds s1) \<longrightarrow> Suc (active_clients s) < max_conn s"
  shows "server_ok s' \<and> listen_sock s' = listen_sock s \<and> all_socks s \<subseteq> all_socks s'"
proof -
  note w = same_table_watched [OF st]
  have t: "table_ok s" "socks_ok s" "active_clients s < max_conn s" "{0, 1, 2} \<subseteq> set (open_fds s)"
    "all_socks s \<subseteq> set (open_fds s)"
    using s unfolding server_ok_def healthy_def socks_ok_def by blast+
  have t1: "table_ok s1" "socks_ok s1"
    using t(1) same_table_ok [OF st] same_table_socks [OF st t(2)] t(4) opn by auto
  have "fd \<noteq> 0" "fd \<noteq> 1" "fd \<noteq> 2" using fd(2) t(4) by auto
  then have fd3: "3 \<le> fd" using fd(1) by linarith
  have "active_clients s1 < max_conn s1" "fd \<notin> all_socks s1" using t(3,5) w fd(2) by auto
  note r = accept_register_ok [OF reg t1 this fd3]
  have "healthy s' \<longrightarrow> active_clients s' < max_conn s'"
    using cap r(3-7) w by (simp add: healthy_def)
  with r w show ?thesis by (auto simp: server_ok_def)
qed

lemma server_accept_ok:
  assumes "server_ok s" "healthy s" "server_accept s = Some s'"
  shows "server_ok s' \<and> listen_sock s' = listen_sock s \<and> all_socks s \<subseteq> all_socks s'"
proof -
  define s0 where "s0 = srv_info ''accepting new connection\<newline>'' [] s"
  have q0: "quiet s0 s" by (simp add: s0_def)
  obtain fd a s1 where acc: "sys_accept (listen_sock s) s0 = ((fd, a), s1)" by (metis surj_pair)
  have st1: "same_table s1 s"
    using sys_accept_state [OF acc] same_table_quiet [OF q0] by (rule same_table_open_fds)
  note w1 = same_table_watched [OF st1]
  have kept: ?thesis if "same_table s' s" "set (open_fds s') = set (open_fds s)"
    using same_table_server_ok [OF that] assms(1) same_table_watched [OF that(1)] by simp
  show ?thesis
  proof (cases a)
    case None
    define s2 where "s2 = srv_error ''failed to accept client: %s\<newline>'' [strerror s1] s1"
    have "same_table s2 s1" unfolding s2_def by (rule same_table_quiet) simp
    from this st1 have st2: "same_table s2 s" by (rule same_table_trans)
    have "open_fds s1 = open_fds s0" using sys_accept_result [OF acc] None by auto
    then have "open_fds s2 = open_fds s" by (simp add: s2_def s0_def)
    moreover have "s' = s2" using assms(3) acc None by (simp add: server_accept_def s0_def s2_def)
    ultimately show ?thesis using st2 by (intro kept) simp_all
  next
    case (Some addr)
    have fd: "0 \<le> fd" "fd \<notin> set (open_fds s)" and o1: "open_fds s1 = fd # open_fds s"
      using sys_accept_result [OF acc] Some quiet_fields(3) [OF q0] by auto
    show ?thesis
    proof (cases "active_clients s1 = size_sub (max_conn s1) 1")
      case False
      have reg: "accept_register fd addr s1 = Some s'"
        using assms(3) acc Some False by (simp add: server_accept_def s0_def)
      have mc: "active_clients s < max_conn s" "0 < max_conn s" "max_conn s < 2 ^ 64"
        using assms(1,2) unfolding server_ok_def table_ok_def by blast+
      then have "active_clients s \<noteq> max_conn s - 1" using False w1 by simp
      with mc have "Suc (active_clients s) < max_conn s" by linarith
      moreover have "set (open_fds s) \<subseteq> set (open_fds s1)" using o1 by auto
      ultimately show ?thesis
        using accept_register_server_ok [OF reg st1 assms(1,2) fd] by blast
    next
      case True
      define w where "w = srv_warn ''max server connections reached\<newline>'' [] s1"
      obtain r s2 where cl: "sys_close fd w = (r, s2)" by fastforce
      have w: "quiet w s1" by (simp add: w_def)
      have st2: "same_table s2 s"
        using sys_close_state [OF cl] same_table_trans [OF same_table_quiet [OF w] st1]
        by (rule same_table_open_fds)
      have o2: "set (open_fds s2) = set (open_fds s)"
        using sys_close_open_fds [OF cl] quiet_fields(3) [OF w] o1 fd(2) by auto
      have eq: "Some s' = (if r \<noteq> 0 then
          Some (srv_error ''error closing connected socket: %s\<newline>'' [strerror s2] s2)
          else accept_register fd addr s2)"
        using assms(3) acc Some True cl by (simp add: server_accept_def s0_def w_def)
      show ?thesis
      proof (cases "r = 0")
        case True
        with eq have reg: "accept_register fd addr s2 = Some s'" by simp
        show ?thesis using accept_register_server_ok [OF reg st2 assms(1,2) fd] o2 fd(2) by auto
      next
        case False
        with eq have q: "quiet s' s2" by simp
        have "same_table s' s" using same_table_quiet [OF q] st2 by (rule same_table_trans)
        then show ?thesis using quiet_fields(3) [OF q] o2 by (intro kept) simp_all
      qed
    qed
  qed
qed

section \<open>Configurations and transitions\<close>

datatype conf = Head server | Scan int "int set" server | Halted server

inductive server_step :: "conf \<Rightarrow> conf \<Rightarrow> bool" where
  stop: "serve_once s = Some (Stop s') \<Longrightarrow> server_step (Head s) (Halted s')"
| ready: "sys_pselect (max_socket s + 1) (all_socks s)
      (srv_info ''waiting for activity\<newline>'' [] s) = (SelSet C, s') \<Longrightarrow>
    server_step (Head s) (Scan 3 C s')"
| skip: "fd \<le> max_socket s \<Longrightarrow> fd \<notin> C \<Longrightarrow> server_step (Scan fd C s) (Scan (fd + 1) C s)"
| serve: "fd \<le> max_socket s \<Longrightarrow> fd \<in> C \<Longrightarrow> serve_socket fd s = Some s' \<Longrightarrow>
    server_step (Scan fd C s) (Scan (fd + 1) C s')"
| scanned: "max_socket s < fd \<Longrightarrow> server_step (Scan fd C s) (Head s)"

inductive_cases from_Head: "server_step (Head s) c"
inductive_cases from_Scan: "server_step (Scan fd C s) c"
inductive_cases from_Halted: "server_step (Halted s) c"

text \<open>The result the program computes from a configuration.\<close>

fun run_conf :: "conf \<Rightarrow> server option" where
  "run_conf (Head s) = main_loop s"
| "run_conf (Scan fd C s) = (case serve_loop fd C s of None \<Rightarrow> None | Some s' \<Rightarrow> main_loop s')"
| "run_conf (Halted s) = Some s"

lemma server_step_run: "server_step c d \<Longrightarrow> run_conf c = run_conf d"
proof (induction rule: server_step.induct)
  case (stop s s')
  then show ?case by (simp add: main_loop.simps [of s])
next
  case (ready s C s')
  then have "serve_once s = map_option Next (serve_loop 3 C s')" by (simp add: serve_once_def)
  then show ?case
    by (cases "serve_loop 3 C s'") (simp_all add: main_loop.simps [of s])
qed (simp_all add: serve_loop.simps)

lemma steps_run: "steps server_step c d \<Longrightarrow> run_conf c = run_conf d"
  by (induction rule: steps.induct) (auto dest: server_step_run)

lemma serve_loop_steps: "serve_loop fd C s = Some s' \<Longrightarrow> steps server_step (Scan fd C s) (Head s')"
proof (induction rule: serve_loop.raw_induct [rotated, consumes 1])
  case (1 loop fd C s s')
  show ?case
  proof (cases "fd \<le> max_socket s")
    case False
    with 1(2) show ?thesis by (auto intro!: steps_one server_step.scanned simp: not_le)
  next
    case le: True
    show ?thesis
    proof (cases "fd \<in> C")
      case False
      with 1(2) le have "loop (fd + 1) C s = Some s'" by simp
      from 1(1) [OF this] server_step.skip [OF le False] show ?thesis by (blast intro: steps_Cons)
    next
      case True
      with 1(2) le obtain t where t: "serve_socket fd s = Some t" "loop (fd + 1) C t = Some s'"
        by (auto split: option.splits)
      from 1(1) [OF t(2)] server_step.serve [OF le True t(1)] show ?thesis
        by (blast intro: steps_Cons)
    qed
  qed
qed

lemma serve_once_steps:
  assumes "serve_once s = Some (Next t)" shows "steps server_step (Head s) (Head t)"
proof -
  from assms obtain C u where u: "sys_pselect (max_socket s + 1) (all_socks s)
      (srv_info ''waiting for activity\<newline>'' [] s) = (SelSet C, u)" "serve_loop 3 C u = Some t"
    by (auto simp: serve_once_def split: prod.splits select_res.splits)
  show ?thesis using server_step.ready [OF u(1)] serve_loop_steps [OF u(2)] by (rule steps_Cons)
qed

lemma main_loop_steps: "main_loop s = Some s' \<Longrightarrow> steps server_step (Head s) (Halted s')"
proof (induction rule: main_loop.raw_induct [rotated, consumes 1])
  case (1 loop s s')
  show ?case
  proof (cases "serve_once s")
    case None
    with 1(2) show ?thesis by simp
  next
    case (Some it)
    show ?thesis
    proof (cases it)
      case (Stop t)
      with 1(2) Some show ?thesis by (auto intro: steps_one server_step.stop)
    next
      case (Next t)
      with 1 Some have "steps server_step (Head t) (Halted s')" by auto
      with serve_once_steps [of s t] Some Next show ?thesis by (blast intro: steps_trans)
    qed
  qed
qed

section \<open>The invariant of every configuration\<close>

fun conf_ok :: "conf \<Rightarrow> bool" where
  "conf_ok (Head s) = server_ok s"
| "conf_ok (Scan fd C s) =
     (server_ok s \<and> (fd \<le> listen_sock s \<longrightarrow> healthy s) \<and> (\<forall>t\<in>C. fd \<le> t \<longrightarrow> t \<in> all_socks s))"
| "conf_ok (Halted s) = server_ok s"

text \<open>A watched descriptor that is not the listening one belongs to an active client.\<close>

lemma find_client_watched:
  assumes "socks_ok s" "fd \<in> all_socks s" "fd \<noteq> listen_sock s"
  obtains k where "find_client fd s = Some k" "k \<in> active_slots s" "c_sock (client_at s k) = fd"
proof -
  from assms obtain i where "i \<in> active_slots s" "c_sock (client_at s i) = fd"
    by (auto simp: socks_ok_def)
  then obtain k where k: "find_client fd s = Some k"
    unfolding find_client_def active_slots_def
    using find_upt_ex [of "\<lambda>k. c_active (client_at s k) \<and> c_sock (client_at s k) = fd" i 0 "max_conn s"]
    by auto
  with find_upt_SomeD [of "\<lambda>k. c_active (client_at s k) \<and> c_sock (client_at s k) = fd" 0 "max_conn s" k]
  show thesis by (intro that [of k]) (auto simp: find_client_def active_slots_def)
qed

lemma serve_socket_ok:
  assumes "conf_ok (Scan fd C s)" "fd \<in> C" "serve_socket fd s = Some s'"
  shows "conf_ok (Scan (fd + 1) C s')"
proof -
  have ok: "server_ok s" "fd \<le> listen_sock s \<Longrightarrow> healthy s" "\<forall>t\<in>C. fd \<le> t \<longrightarrow> t \<in> all_socks s"
    using assms(1) by auto
  show ?thesis
  proof (cases "fd = listen_sock s")
    case True
    with assms(3) have "server_accept s = Some s'" by (simp add: serve_socket_def)
    from server_accept_ok [OF ok(1) ok(2) this] True ok(3) show ?thesis by auto
  next
    case False
    obtain k where k: "find_client fd s = Some k" "k \<in> active_slots s" "c_sock (client_at s k) = fd"
      using find_client_watched [of s fd] ok(1,3) assms(2) False by (auto simp: server_ok_def)
    with assms(3) False have "handle_client k s = Some s'" by (simp add: serve_socket_def)
    from handle_client_ok [OF ok(1) k(2) this] k(3) ok show ?thesis by fastforce
  qed
qed

lemma socks_range: "socks_ok s \<Longrightarrow> fd \<in> all_socks s \<Longrightarrow> 3 \<le> fd \<and> fd \<le> max_socket s"
  unfolding socks_ok_def by blast

lemma unhealthy_stops:
  assumes "socks_ok s" "\<not> healthy s"
  shows "\<exists>s'. serve_once s = Some (Stop s')"
proof -
  have "all_socks s \<inter> {..<max_socket s + 1} = all_socks s"
    using socks_range [OF assms(1)] by force
  with assms(2) show ?thesis by (simp add: serve_once_def sys_pselect_inter healthy_def)
qed

lemma pselect_table:
  assumes "sys_pselect n (all_socks s) (srv_info fmt args s) = (r, s')"
  shows "same_table s' s" "open_fds s' = open_fds s"
    "r = SelSet C \<Longrightarrow> C \<subseteq> all_socks s \<and> all_socks s \<inter> {..<n} \<subseteq> set (open_fds s)"
  using assms by (auto simp: sys_pselect_inter same_table_def split: if_splits select_ans.splits)

lemma serve_once_stop:
  assumes "serve_once s = Some (Stop s')"
  shows "same_table s' s" "open_fds s' = open_fds s"
proof -
  obtain r t where p: "sys_pselect (max_socket s + 1) (all_socks s)
      (srv_info ''waiting for activity\<newline>'' [] s) = (r, t)" by fastforce
  with assms have "quiet s' t"
    by (auto simp: serve_once_def split: select_res.splits if_splits)
  then show "same_table s' s" "open_fds s' = open_fds s"
    using pselect_table(1,2) [OF p] same_table_quiet same_table_trans quiet_fields(3) by metis+
qed

lemma conf_ok_step: "server_step c d \<Longrightarrow> conf_ok c \<Longrightarrow> conf_ok d"
proof (induction rule: server_step.induct)
  case (stop s s')
  note e = serve_once_stop [OF stop.hyps]
  show ?case using stop.prems same_table_server_ok(1) [OF e(1)] e(2) by simp
next
  case (ready s C s')
  note p = pselect_table [OF ready.hyps]
  have "all_socks s \<inter> {..<max_socket s + 1} = all_socks s"
    using socks_range [of s] ready.prems by (force simp: server_ok_def)
  then have "healthy s" using p(3) by (auto simp: healthy_def)
  then show ?case
    using ready.prems p same_table_server_ok [OF p(1)] by (auto simp: same_table_def)
next
  case (serve fd s C s')
  then show ?case using serve_socket_ok by blast
qed auto

end
