(* ===== verification/Addresses.thy ===== *)
theory Addresses
  imports Os
begin

text \<open>
  The loop over the list of \<open>getaddrinfo\<close> that every program has: open a socket for an address,
  \<open>bind\<close> or \<open>connect\<close> it, close it when that fails and go on with the next address. The
  programs differ in what they print; the locale \<open>address_loop\<close> proves once what the loop does
  to the descriptors and is interpreted on the loop of each program.
\<close>

locale address_loop =
  fixes attempt :: "addrinfo list \<Rightarrow> 'a os_scheme \<Rightarrow> int option \<times> 'a os_scheme"
    and ans :: "answers \<Rightarrow> nat \<Rightarrow> bool"
    and no_socket refused accepted :: "'a os_scheme \<Rightarrow> 'a os_scheme"
    and view :: "'a os_scheme \<Rightarrow> 'v"
  assumes attempt_Nil: "attempt [] s = (None, s)"
    and attempt_Cons:
      "attempt (rp # rps) s =
         (case sys_socket s of (fd, s1) \<Rightarrow>
            if fd = - 1 then attempt rps (no_socket s1)
            else (case sys_status ans fd s1 of (r, s2) \<Rightarrow>
                    if r = 0 then (Some fd, accepted s2)
                    else attempt rps (snd (sys_close fd (refused s2)))))"
    and hooks_fds: "open_fds (no_socket s) = open_fds s" "open_fds (refused s) = open_fds s"
      "open_fds (accepted s) = open_fds s"
    and hooks_view: "view (no_socket s) = view s" "view (refused s) = view s" "view (accepted s) = view s"
    and view_os: "view (step_os s) = view s" "view (s\<lparr>open_fds := fds\<rparr>) = view s"
begin

lemma socket_view: "sys_socket s = (fd, t) \<Longrightarrow> view t = view s"
  by (auto simp: sys_socket_def view_os split: if_splits)

lemma close_view: "view (snd (sys_close fd s)) = view s"
  by (simp add: sys_close_def view_os)

text \<open>
  Either every socket tried is closed again, or one fresh descriptor is open; the part of the
  state under \<open>view\<close> is untouched.
\<close>

lemma exact:
  "attempt rps s = (res, s') \<Longrightarrow>
     view s' = view s \<and>
     (case res of None \<Rightarrow> set (open_fds s') = set (open_fds s)
      | Some fd \<Rightarrow> 0 \<le> fd \<and> fd \<notin> set (open_fds s) \<and> set (open_fds s') = insert fd (set (open_fds s)))"
proof (induction rps arbitrary: s)
  case Nil
  then show ?case by (auto simp: attempt_Nil)
next
  case (Cons rp rps)
  define fd where "fd = lowest_fd (open_fds s)"
  have new: "0 \<le> fd" "fd \<notin> set (open_fds s)" by (simp_all add: fd_def)
  show ?case
  proof (cases "a_socket (env s) (tick s)")
    case False
    then have "sys_socket s = (- 1, step_os s)" by (simp add: sys_socket_def)
    with Cons.prems have "attempt rps (no_socket (step_os s)) = (res, s')" by (simp add: attempt_Cons)
    from Cons.IH [OF this] show ?thesis by (cases res) (simp_all add: hooks_fds hooks_view view_os)
  next
    case True
    define s1 where "s1 = (step_os s)\<lparr>open_fds := fd # open_fds s\<rparr>"
    have sock: "sys_socket s = (fd, s1)" using True by (simp add: sys_socket_def s1_def fd_def)
    obtain b where b: "sys_status ans fd s1 = (b, step_os s1)" by (simp add: sys_status_def)
    have v: "view s1 = view s" by (rule socket_view [OF sock])
    show ?thesis
    proof (cases "b = 0")
      case True
      with Cons.prems sock b new(1) have "res = Some fd" "s' = accepted (step_os s1)"
        by (auto simp: attempt_Cons)
      with new v show ?thesis by (simp add: hooks_fds hooks_view view_os) (simp add: s1_def)
    next
      case False
      define t where "t = snd (sys_close fd (refused (step_os s1)))"
      have "set (open_fds t) = set (open_fds s)"
        using sys_close_open_fds [of fd "refused (step_os s1)" "fst (sys_close fd (refused (step_os s1)))" t] new
        by (simp add: t_def hooks_fds) (auto simp: s1_def)
      moreover have "view t = view s" by (simp add: t_def close_view hooks_view view_os v)
      moreover have "attempt rps t = (res, s')"
        using Cons.prems sock b new(1) False by (simp add: attempt_Cons t_def)
      ultimately show ?thesis using Cons.IH [of t] by (cases res) simp_all
    qed
  qed
qed

lemma exact_None: "attempt rps s = (None, s') \<Longrightarrow> set (open_fds s') = set (open_fds s)"
  using exact by fastforce

lemma exact_Some:
  "attempt rps s = (Some fd, s') \<Longrightarrow>
     0 \<le> fd \<and> fd \<notin> set (open_fds s) \<and> set (open_fds s') = insert fd (set (open_fds s))"
  using exact by fastforce

lemma kept: "attempt rps s = (res, s') \<Longrightarrow> view s' = view s"
  using exact by fastforce

end

end
