(* ===== verification/RegInit.thy ===== *)
theory RegInit
  imports RegMachine Addresses
begin

text \<open>
  \<open>program_04/registry.c\<close>, part 11: the state the main loop starts in, the invariant of every
  reachable configuration (the interpretation of \<open>invariant_machine\<close> on the server), and
  the shutdown after the loop.
\<close>

section \<open>The listening socket\<close>

interpretation reg_addresses: address_loop bind_try a_bind id id id
  "\<lambda>s. (os.more s, gai_live s, heap_live s, env s)"
  by unfold_locales (auto split: prod.splits)

lemma bind_try_effect:
  assumes "bind_try rps s = (r, s')"
  shows "same_table s' s \<and> gai_live s' = gai_live s \<and> env s' = env s \<and> output_type s' = output_type s \<and>
    (case r of None \<Rightarrow> set (open_fds s') = set (open_fds s)
     | Some fd \<Rightarrow> 0 \<le> fd \<and> fd \<notin> set (open_fds s) \<and> set (open_fds s') = insert fd (set (open_fds s)))"
proof -
  have k: "os.more s' = os.more s" "gai_live s' = gai_live s" "heap_live s' = heap_live s" "env s' = env s"
    using reg_addresses.kept [OF assms] by simp_all
  then have "output_type s' = output_type s" by (cases s; cases s') simp
  with k more_server [OF k(1)] reg_addresses.exact [OF assms] show ?thesis
    by (simp add: same_table_def)
qed

lemma bind_and_listen_effect:
  assumes "bind_and_listen s = (fd, s')"
  shows "same_table s' s" "env s' = env s"
    "fd = - 1 \<and> set (open_fds s') = set (open_fds s) \<or>
     0 \<le> fd \<and> fd \<notin> set (open_fds s) \<and> set (open_fds s') = insert fd (set (open_fds s)) \<and>
     gai_live s' = gai_live s"
    "fd = - 1 \<Longrightarrow> gai_live s' = gai_live s + (if \<exists>l. fst (sys_getaddrinfo s) = GaiOk l then 1 else 0)"
proof -
  have "same_table s' s \<and> env s' = env s \<and>
    (fd = - 1 \<and> set (open_fds s') = set (open_fds s) \<or>
     0 \<le> fd \<and> fd \<notin> set (open_fds s) \<and> set (open_fds s') = insert fd (set (open_fds s)) \<and>
     gai_live s' = gai_live s) \<and>
    (fd = - 1 \<longrightarrow> gai_live s' = gai_live s + (if \<exists>l. fst (sys_getaddrinfo s) = GaiOk l then 1 else 0))"
  proof (cases "a_gai (env s) (tick s)")
    case (GaiErr e)
    with assms have "fd = - 1" "quiet s' (step_os s)"
      by (auto simp: bind_and_listen_def sys_getaddrinfo_def)
    with GaiErr quiet_fields [OF this(2)] show ?thesis
      by (auto simp: same_table_def sys_getaddrinfo_def)
  next
    case (GaiOk l)
    define s1 where "s1 = (step_os s)\<lparr>gai_live := Suc (gai_live s)\<rparr>"
    have g: "sys_getaddrinfo s = (GaiOk l, s1)" using GaiOk by (simp add: sys_getaddrinfo_def s1_def)
    obtain r s2 where b: "bind_try l s1 = (r, s2)" by fastforce
    note e = bind_try_effect [OF b]
    have st2: "same_table s2 s" using e by (simp add: s1_def same_table_def)
    show ?thesis
    proof (cases r)
      case None
      with assms g b have "fd = - 1" "s' = s2" by (simp_all add: bind_and_listen_def)
      with e None st2 g show ?thesis by (simp add: s1_def)
    next
      case (Some k)
      with e have k: "0 \<le> k" "k \<notin> set (open_fds s)" "set (open_fds s2) = insert k (set (open_fds s))"
        "gai_live s2 = Suc (gai_live s)" "env s2 = env s" by (simp_all add: s1_def)
      obtain x s3 where x: "sys_status a_listen k s2 = (x, s3)" by fastforce
      have s3: "s3 = step_os s2" using x by (simp add: sys_status_def)
      show ?thesis
      proof (cases "x = - 1")
        case False
        with assms g b Some x have "fd = k" "s' = sys_freeaddrinfo s3"
          by (simp_all add: bind_and_listen_def)
        with k st2 s3 show ?thesis by (simp add: sys_freeaddrinfo_def same_table_def)
      next
        case True
        define s4 where "s4 = srv_error ''bind_and_listen: failed to listen on socket: %s\<newline>'' [strerror s3] s3"
        have "fd = - 1" "s' = snd (sys_close k s4)"
          using assms g b Some x True by (simp_all add: bind_and_listen_def s4_def)
        moreover have "quiet s4 s3" by (simp add: s4_def)
        ultimately show ?thesis
          using k st2 s3 g quiet_fields [of s4 s3]
          by (auto simp: sys_close_def same_table_def)
      qed
    qed
  qed
  then show "same_table s' s" "env s' = env s"
    "fd = - 1 \<and> set (open_fds s') = set (open_fds s) \<or>
     0 \<le> fd \<and> fd \<notin> set (open_fds s) \<and> set (open_fds s') = insert fd (set (open_fds s)) \<and>
     gai_live s' = gai_live s"
    "fd = - 1 \<Longrightarrow> gai_live s' = gai_live s + (if \<exists>l. fst (sys_getaddrinfo s) = GaiOk l then 1 else 0)"
    by blast+
qed

section \<open>The initial state\<close>

lemma setup_initial:
  assumes "server_setup log_ok w = Some (Inr s)" "{0, 1, 2} \<subseteq> set (open_fds w)" "heap_live w = 0"
  shows "clients s = replicate 50 init_client" "max_conn s = 50" "max_files s = 10"
    "active_clients s = 0" "all_socks s = {listen_sock s}" "max_socket s = listen_sock s"
    "heap_live s = 1" "3 \<le> listen_sock s" "{0, 1, 2, listen_sock s} \<subseteq> set (open_fds s)"
    "env s = env w"
proof -
  define s0 where "s0 = os.extend (w\<lparr>open_fds := lowest_fd (open_fds w) # open_fds w\<rparr>)
    (server.fields 50 10 0 [] 0 {} 0 FILE_LOG [] [])"
  have s0: "max_conn s0 = 50" "max_files s0 = 10" "active_clients s0 = 0" "env s0 = env w"
    "open_fds s0 = lowest_fd (open_fds w) # open_fds w" "heap_live s0 = heap_live w"
    by (simp_all add: s0_def os.extend_def server.fields_def)
  obtain b s1 where c: "sys_calloc s0 = (Some b, s1)"
  proof (cases "fst (sys_calloc s0)")
    case None
    with assms(1) show thesis
      by (auto simp: server_setup_def s0_def [symmetric] split: if_splits prod.splits)
  qed (metis prod.collapse that)
  then have s1: "s1 = (step_os s0)\<lparr>heap_live := Suc (heap_live s0)\<rparr>"
    by (auto simp: sys_calloc_def split: calloc_ans.splits)
  define s3 where "s3 = srv_info ''creating listening socket\<newline>'' []
    (s1\<lparr>clients := replicate (max_conn s1) init_client\<rparr>)"
  obtain fd s4 where b: "bind_and_listen s3 = (fd, s4)" by fastforce
  note e = bind_and_listen_effect [OF b]
  have fd: "0 \<le> fd" "s = s4\<lparr>listen_sock := fd, all_socks := {fd}, max_socket := fd\<rparr>"
    using assms(1) c b
    by (auto simp: server_setup_def s0_def [symmetric] s3_def FD_SET_def Let_def split: if_splits)
  have o3: "set (open_fds s3) = insert (lowest_fd (open_fds w)) (set (open_fds w))"
    by (simp add: s3_def s1 s0)
  from e(3) fd(1) have new: "fd \<notin> set (open_fds s3)" "set (open_fds s4) = insert fd (set (open_fds s3))"
    by auto
  have "fd \<noteq> 0" "fd \<noteq> 1" "fd \<noteq> 2" using new(1) o3 assms(2) by auto
  with fd show "3 \<le> listen_sock s" by simp
  show "clients s = replicate 50 init_client" "max_conn s = 50" "max_files s = 10"
    "active_clients s = 0" "all_socks s = {listen_sock s}" "max_socket s = listen_sock s"
    "heap_live s = 1" "{0, 1, 2, listen_sock s} \<subseteq> set (open_fds s)" "env s = env w"
    using e(1,2) fd(2) new o3 assms(2,3) by (auto simp: same_table_def s3_def s1 s0)
qed

lemma setup_ok:
  assumes "server_setup log_ok w = Some (Inr s)" "{0, 1, 2} \<subseteq> set (open_fds w)" "heap_live w = 0"
  shows "server_ok s \<and> healthy s"
proof -
  note i = setup_initial [OF assms]
  have act: "active_slots s = {}" by (simp add: active_slots_def i init_client_def)
  have "slot_clear init_client" by (simp add: slot_clear_def init_client_def)
  then have "table_ok s"
    by (simp add: table_ok_def i count_if_def init_client_def sum_list_replicate)
  moreover have "socks_ok s" using i by (simp add: socks_ok_def act)
  ultimately show ?thesis using i by (simp add: server_ok_def healthy_def)
qed

definition conf_init :: "conf \<Rightarrow> bool" where
  "conf_init c \<longleftrightarrow> (\<exists>log_ok w s. c = Head s \<and> server_setup log_ok w = Some (Inr s) \<and>
     {0, 1, 2} \<subseteq> set (open_fds w) \<and> heap_live w = 0)"

interpretation srv: invariant_machine conf_init server_step conf_ok
proof
  show "conf_ok s" if "conf_init s" for s
    using that setup_ok by (auto simp: conf_init_def)
  show "conf_ok t" if "server_step s t" "conf_ok s" for s t
    using that by (rule conf_ok_step)
qed

section \<open>Shutdown\<close>

definition slots_ok :: "server \<Rightarrow> bool" where
  "slots_ok s \<longleftrightarrow>
     (\<forall>c\<in>set (clients s). files_ok (max_files s) c \<and> (\<not> c_active c \<longrightarrow> slot_clear c)) \<and>
     heap_live s = Suc (sum_list (map client_blocks (clients s)))"

lemma shutdown_clients_effect:
  assumes "slots_ok s" "distinct ks" "\<forall>k\<in>set ks. k < length (clients s)"
  shows "\<exists>s'. shutdown_clients ks s = Some s' \<and> slots_ok s' \<and> length (clients s') = length (clients s) \<and>
    (\<forall>k\<in>set ks. \<not> c_active (client_at s' k)) \<and>
    (\<forall>k<length (clients s). k \<notin> set ks \<longrightarrow> client_at s' k = client_at s k) \<and>
    set (open_fds s') = set (open_fds s) - {c_sock (client_at s k) |k. k \<in> set ks \<and> c_active (client_at s k)}"
  using assms
proof (induction ks arbitrary: s)
  case Nil
  then show ?case by simp
next
  case (Cons k ks)
  show ?case
  proof (cases "c_active (client_at s k)")
    case False
    then have socks: "{c_sock (client_at s j) |j. j \<in> set (k # ks) \<and> c_active (client_at s j)} =
        {c_sock (client_at s j) |j. j \<in> set ks \<and> c_active (client_at s j)}" by auto
    from Cons.IH [of s] Cons.prems obtain s' where s': "shutdown_clients ks s = Some s'" "slots_ok s'"
      "length (clients s') = length (clients s)" "\<forall>j\<in>set ks. \<not> c_active (client_at s' j)"
      "\<forall>j<length (clients s). j \<notin> set ks \<longrightarrow> client_at s' j = client_at s j"
      "set (open_fds s') = set (open_fds s) -
        {c_sock (client_at s j) |j. j \<in> set (k # ks) \<and> c_active (client_at s j)}"
      unfolding socks by auto
    moreover have "shutdown_clients (k # ks) s = Some s'" using s'(1) False by simp
    moreover have "\<not> c_active (client_at s' k)" using s'(5) False Cons.prems by simp
    ultimately show ?thesis by (intro exI [of _ s']) simp
  next
    case True
    have k: "k < length (clients s)" "k \<notin> set ks" using Cons.prems by auto
    define s1 where "s1 = snd (sys_close (c_sock (client_at s k)) s)"
    have s1: "clients s1 = clients s" "max_files s1 = max_files s" "heap_live s1 = heap_live s"
      "set (open_fds s1) = set (open_fds s) - {c_sock (client_at s k)}"
      by (auto simp: s1_def sys_close_def)
    have f: "files_ok (max_files s) (client_at s k)" using Cons.prems(1) k(1) by (simp add: slots_ok_def)
    define s2 where "s2 = set_client k (cleared (client_at s k)) (heap_free (client_blocks (client_at s k)) s1)"
    have c: "clear_client k s1 = Some s2"
      using clear_client_ok [of "max_files s" s1 k] f k(1) by (simp add: s1 s2_def)
    have s2: "clients s2 = (clients s)[k := cleared (client_at s k)]" "max_files s2 = max_files s"
      "heap_live s2 = heap_live s - client_blocks (client_at s k)" "open_fds s2 = open_fds s1"
      by (simp_all add: s2_def s1 heap_free_def)
    have "heap_live s2 = Suc (sum_list (map client_blocks (clients s2)))"
      using sum_list_map_update [OF k(1), of client_blocks "cleared (client_at s k)"] Cons.prems(1)
      by (simp add: s2 slots_ok_def)
    moreover have "\<forall>d\<in>set (clients s2). files_ok (max_files s2) d \<and> (\<not> c_active d \<longrightarrow> slot_clear d)"
      using Cons.prems(1) set_update_subset_insert [of "clients s" k "cleared (client_at s k)"]
      by (fastforce simp: slots_ok_def s2)
    ultimately have ok2: "slots_ok s2" by (simp add: slots_ok_def)
    from Cons.IH [OF ok2] Cons.prems(2,3) s2(1) obtain s' where s': "shutdown_clients ks s2 = Some s'"
      "slots_ok s'" "length (clients s') = length (clients s2)"
      "\<forall>j\<in>set ks. \<not> c_active (client_at s' j)"
      "\<forall>j<length (clients s2). j \<notin> set ks \<longrightarrow> client_at s' j = client_at s2 j"
      "set (open_fds s') = set (open_fds s2) - {c_sock (client_at s2 j) |j. j \<in> set ks \<and> c_active (client_at s2 j)}"
      by auto
    have old: "client_at s2 j = client_at s j" if "j \<in> set ks" for j
      using that k(2) s2(1) by (cases "j = k") auto
    have "{c_sock (client_at s2 j) |j. j \<in> set ks \<and> c_active (client_at s2 j)} =
        {c_sock (client_at s j) |j. j \<in> set ks \<and> c_active (client_at s j)}"
      by (rule Collect_cong) (metis old)
    then have "set (open_fds s') = set (open_fds s) -
        {c_sock (client_at s j) |j. j \<in> set (k # ks) \<and> c_active (client_at s j)}"
      using s'(6) s2(4) s1(4) True by auto
    moreover have "shutdown_clients (k # ks) s = Some s'"
      using True c s'(1) by (simp add: s1_def [symmetric])
    moreover have "\<forall>j\<in>set (k # ks). \<not> c_active (client_at s' j)"
      using s'(4,5) k s2(1) by auto
    moreover have "\<forall>j<length (clients s). j \<notin> set (k # ks) \<longrightarrow> client_at s' j = client_at s j"
      using s'(5) s2(1) by auto
    ultimately show ?thesis using s'(2,3) s2(1) by auto
  qed
qed

lemma server_shutdown_effect:
  assumes "server_ok s"
  shows "\<exists>s'. server_shutdown s = Some s' \<and> heap_live s' = 0 \<and>
    set (open_fds s') = set (open_fds s) - all_socks s \<and>
    (\<forall>k<max_conn s. \<not> c_active (client_at s' k))"
proof -
  define s2 where "s2 = snd (sys_close (listen_sock s) (srv_info ''closing active sockets\<newline>'' [] s))"
  have s2: "clients s2 = clients s" "max_files s2 = max_files s" "heap_live s2 = heap_live s"
    "max_conn s2 = max_conn s" "set (open_fds s2) = set (open_fds s) - {listen_sock s}"
    by (auto simp: s2_def sys_close_def)
  have t: "table_ok s" "socks_ok s" using assms by (auto simp: server_ok_def)
  then have len: "length (clients s2) = max_conn s" by (simp add: s2 table_ok_def)
  have "slots_ok s2" using t by (auto simp: slots_ok_def table_ok_def s2)
  from shutdown_clients_effect [OF this, of "[0..<max_conn s2]"] len s2(4)
  obtain s3 where s3: "shutdown_clients [0..<max_conn s2] s2 = Some s3" "slots_ok s3"
    "length (clients s3) = max_conn s" "\<forall>k<max_conn s. \<not> c_active (client_at s3 k)"
    "set (open_fds s3) = set (open_fds s2) -
      {c_sock (client_at s2 k) |k. k < max_conn s \<and> c_active (client_at s2 k)}"
    by auto
  have "\<forall>c\<in>set (clients s3). \<not> c_active c" using s3(3,4) by (metis in_set_conv_nth)
  then have "\<forall>c\<in>set (clients s3). client_blocks c = 0"
    using s3(2) by (simp add: slots_ok_def)
  then have "map client_blocks (clients s3) = map (\<lambda>_. 0) (clients s3)" by simp
  then have h: "heap_live s3 = 1" using s3(2) by (simp add: slots_ok_def)
  have "{c_sock (client_at s2 k) |k. k < max_conn s \<and> c_active (client_at s2 k)} =
      (\<lambda>i. c_sock (client_at s i)) ` active_slots s"
    by (auto simp: s2 active_slots_def)
  then have "set (open_fds s3) = set (open_fds s) - all_socks s"
    using s3(5) s2(5) t(2) unfolding socks_ok_def by auto
  moreover have "server_shutdown s = Some (snd (close_server_output (heap_free 1 s3)))"
    using s3(1) by (simp add: server_shutdown_def s2_def)
  ultimately show ?thesis using h s3(4)
    by (auto simp: close_server_output_def heap_free_def)
qed

end
