(* ===== verification/RegOutcome.thy ===== *)
theory RegOutcome
  imports RegInit
begin

text \<open>
  \<open>program_04/registry.c\<close>, part 12: the handlers return, and what they leave behind. Under
  the table invariant a JOIN from an IPv4 peer always completes; a PUBLISH completes when
  the allocator serves every call, and then stores exactly the names the parser reads or
  changes nothing.
\<close>

section \<open>JOIN\<close>

lemma client_ip_v4:
  "sa_family a = AF_INET \<Longrightarrow> client_ip a s =
     IpStr (ntop4 (bytes_of_u32 (sin_addr a)) @ '':'' @ dec (port_number a))"
  by (simp add: client_ip_def get_ip_port_def get_ipv4_port_text IPLEN_AND_PORT_def)

lemma join_register_total:
  "sa_family (c_addr (client_at s i)) = AF_INET \<Longrightarrow> \<exists>s'. join_register i rid s = Some s'"
  by (simp add: join_register_def client_ip_v4)

lemma handle_join_total:
  assumes "sa_family (c_addr (client_at s i)) = AF_INET"
  shows "\<exists>s'. handle_join i buf len s = Some s'"
proof -
  have "\<exists>s'. join_register i rid t = Some s'" if "quiet t s" for rid t
    using assms that by (intro join_register_total) (simp add: quiet_fields)
  then show ?thesis
    by (auto simp: handle_join_def Let_def split: option.splits)
qed

section \<open>PUBLISH\<close>

lemma handle_publish_total:
  assumes "table_ok s" "i < max_conn s" "alloc_ok s"
  shows "\<exists>s'. handle_publish i buf len s = Some s'"
proof (cases "publish_admitted i buf len s")
  case False
  then show ?thesis using handle_publish_refused by blast
next
  case True
  note t = table_okD [OF assms(1,2)]
  have inb: "5 + (len - 4) \<le> BUFF_SIZE"
    using True by (simp add: publish_admitted_def BUFF_SIZE_def)
  from True show ?thesis
  proof (rule handle_publish_admitted)
    fix blk u
    assume u: "keeps u s" "clients u = clients s" "alloc_ok s \<longrightarrow> blk \<noteq> (None :: byte list option)"
      and eq: "handle_publish i buf len s =
        (case publish_loop (publish_count buf) (blk \<noteq> None) buf 5 (len - 4) [] u of
           None \<Rightarrow> None
         | Some (True, files, v) \<Rightarrow>
             Some (heap_free (length files + (if blk = None then 0 else 1))
               (srv_log ''handle_publish: cleaning up allocated strings\<newline>'' [] v))
         | Some (False, files, v) \<Rightarrow> publish_store i (publish_count buf) (blk \<noteq> None) files v)"
    have "alloc_ok u" "blk \<noteq> None" using u assms(3) by (auto simp: alloc_ok_keeps)
    then obtain bad fs v where
      loop: "publish_loop (publish_count buf) (blk \<noteq> None) buf 5 (len - 4) [] u = Some (bad, fs, v)"
      using publish_loop_total [OF _ _ inb, of u "blk \<noteq> None" "publish_count buf" buf "[]"] by blast
    show ?thesis
    proof (cases bad)
      case True
      with eq loop show ?thesis by simp
    next
      case False
      note e = publish_loop_effect [OF loop inb]
      have "clients v = clients s" "\<forall>f\<in>set fs. stored f" using e u(2) by auto
      then obtain s' where "publish_store i (publish_count buf) (blk \<noteq> None) fs v = Some s'"
        using publish_store_effect [of "max_files s" v i fs] t(1,2) by fastforce
      with eq loop False show ?thesis by simp
    qed
  qed
qed

text \<open>The published names of a client, as the bytes that were received.\<close>

definition names_of :: "client \<Rightarrow> byte list list" where
  "names_of c = map fdata (client_files c)"

lemma handle_publish_outcome:
  assumes "table_ok s" "i \<in> active_slots s" "alloc_ok s"
  shows "\<exists>s'. handle_publish i buf len s = Some s' \<and> table_ok s' \<and> keeps s' s \<and>
    (case (if publish_admitted i buf len s then publish_names buf len else None) of
       None \<Rightarrow> clients s' = clients s \<and> heap_live s' = heap_live s
     | Some ws \<Rightarrow> (\<exists>c. clients s' = (clients s)[i := c] \<and> names_of c = ws \<and> c_files_len c = length ws \<and>
         c_id c = c_id (client_at s i) \<and> c_type c = c_type (client_at s i)))"
proof -
  have i: "i < max_conn s" using assms(2) by (simp add: active_slots_def)
  note t = table_okD [OF assms(1) i]
  obtain s' where s': "handle_publish i buf len s = Some s'"
    using handle_publish_total [OF assms(1) i assms(3)] by blast
  have tb: "table_ok s'" "keeps s' s" using handle_publish_table [OF assms(1,2) s'] by auto
  show ?thesis
  proof (cases "publish_admitted i buf len s")
    case False
    with handle_publish_refused [OF this] s' have "quiet s' s" by auto
    with False s' tb show ?thesis by (simp add: quiet_fields)
  next
    case True
    from handle_publish_effect [OF s' True t(2,1)] t(4) assms(3) consider
      (same) "clients s' = clients s" "heap_live s' = heap_live s" "publish_names buf len = None"
      | (new) arr fs where "publish_names buf len = Some (map fdata fs)" "0 < length fs \<longrightarrow> arr"
        "clients s' = (clients s)[i := with_files (length fs) arr fs (client_at s i)]"
      by auto
    then show ?thesis
    proof cases
      case same
      with s' tb show ?thesis by simp
    next
      case new
      then have "names_of (with_files (length fs) arr fs (client_at s i)) = map fdata fs"
        by (cases arr) (auto simp: names_of_def client_files_def)
      with new s' tb True show ?thesis
        by (auto intro!: exI [of _ "with_files (length fs) arr fs (client_at s i)"])
    qed
  qed
qed

section \<open>SEARCH\<close>

text \<open>A request shorter than 100 bytes that ends in NUL is a C string inside the buffer.\<close>

lemma buf_str_found:
  assumes "buf n = 0" "k \<le> n" "n < BUFF_SIZE"
  shows "\<exists>q. buf_str buf k = Some q \<and> length q \<le> n - k"
  using assms(2)
proof (induction "n - k" arbitrary: k)
  case 0
  with assms show ?case by (auto simp: buf_str.simps [of buf k])
next
  case (Suc m)
  show ?case
  proof (cases "buf k = 0")
    case True
    with Suc assms show ?thesis by (auto simp: buf_str.simps [of buf k])
  next
    case False
    from Suc have "m = n - Suc k" "Suc k \<le> n" by auto
    from Suc.hyps(1) [OF this] obtain q where "buf_str buf (Suc k) = Some q" "length q \<le> n - Suc k"
      by blast
    with False Suc assms(3) show ?thesis by (auto simp: buf_str.simps [of buf k])
  qed
qed

lemma buf_str_region:
  "\<forall>j<length q. buf (k + j) = q ! j \<and> q ! j \<noteq> 0 \<Longrightarrow> buf (k + length q) = 0 \<Longrightarrow>
     k + length q < BUFF_SIZE \<Longrightarrow> buf_str buf k = Some q"
proof (induction q arbitrary: k)
  case Nil
  then show ?case by (simp add: buf_str.simps [of buf k])
next
  case (Cons b q)
  have "buf k = b" "b \<noteq> 0" using Cons.prems(1) by force+
  moreover have "buf_str buf (Suc k) = Some q"
  proof (rule Cons.IH)
    show "\<forall>j<length q. buf (Suc k + j) = q ! j \<and> q ! j \<noteq> 0"
      using Cons.prems(1) by fastforce
  qed (use Cons.prems in auto)
  ultimately show ?case using Cons.prems(3) by (simp add: buf_str.simps [of buf k])
qed

lemma length_found_response: "length (found_response c) = 10"
  by (simp add: found_response_def zero_response_def bytes_of_u32_def bytes_of_u16_def)

lemma length_answer: "length (answer s q) = 10"
  by (simp add: answer_def length_found_response zero_response_def split: option.splits)

end
