(* ===== verification/RegDemo.thy ===== *)
theory RegDemo
  imports RegOutcome
begin

text \<open>
  A concrete environment and two concrete servers, on which the properties of
  \<open>program_04/registry.c\<close> are instantiated: a fresh process, and a table of three slots with
  a joined client that published a name, a second client, and a free slot.
\<close>

definition demo_addr :: sockaddr where
  "demo_addr = \<lparr>sa_family = 2, sin_port = 0x3412, sin_addr = 0x0100007f\<rparr>"

definition demo_env :: answers where
  "demo_env =
     \<lparr>a_send = \<lambda>n. SendTake 100, a_recv = \<lambda>n. RecvData [], a_accept = \<lambda>n. AcceptConn demo_addr,
      a_close = \<lambda>n. True, a_select = \<lambda>n. if n = 5 then SelReady {4} else if n = 7 then SelReady {5} else SelIntr,
      a_gai = \<lambda>n. GaiOk [\<lparr>ai_family = 2, ai_socktype = 1, ai_protocol = 0, ai_addr = demo_addr\<rparr>],
      a_socket = \<lambda>n. True, a_bind = \<lambda>n. True, a_listen = \<lambda>n. True, a_connect = \<lambda>n. True,
      a_calloc = \<lambda>n. CallocOk [0], a_strerror = \<lambda>n. ''error'', a_ntop6 = \<lambda>n. ''::'',
      a_stack = \<lambda>n k. 0\<rparr>"

definition demo_os :: os where
  "demo_os = \<lparr>env = demo_env, tick = 0, open_fds = [0, 1, 2], sent = \<lambda>fd. [], stdout = [],
     gai_live = 0, heap_live = 0\<rparr>"

definition demo_client :: client where
  "demo_client = \<lparr>c_active = True, c_id = 7, c_type = CLIENT_JOINED, c_sock = 5,
     c_addr = demo_addr, c_files_len = 1,
     c_files = Some [\<lparr>fdata = [97, 98], fslack = [0]\<rparr>]\<rparr>"

definition demo_peer :: client where
  "demo_peer = \<lparr>c_active = True, c_id = 0, c_type = CLIENT_UNKNOWN, c_sock = 6,
     c_addr = demo_addr, c_files_len = 0, c_files = None\<rparr>"

definition demo_server :: server where
  "demo_server = os.extend (demo_os\<lparr>open_fds := [6, 5, 4, 3, 0, 1, 2], heap_live := 3\<rparr>)
     (server.fields 4 10 2 [demo_client, demo_peer, init_client, init_client] 4 {4, 5, 6} 6 FILE_LOG [] [])"

lemmas demo_defs = demo_server_def demo_client_def demo_peer_def demo_os_def demo_env_def
  demo_addr_def init_client_def os.extend_def server.fields_def

lemma demo_fields [simp]:
  "env demo_server = demo_env" "tick demo_server = 0" "max_conn demo_server = 4"
  "max_files demo_server = 10" "active_clients demo_server = 2"
  "clients demo_server = [demo_client, demo_peer, init_client, init_client]"
  "listen_sock demo_server = 4" "all_socks demo_server = {4, 5, 6}" "max_socket demo_server = 6"
  "open_fds demo_server = [6, 5, 4, 3, 0, 1, 2]" "heap_live demo_server = 3"
  by (simp_all add: demo_server_def demo_os_def os.extend_def server.fields_def)

lemma active_slots_filter: "active_slots s = set (filter (\<lambda>i. c_active (client_at s i)) [0..<max_conn s])"
  by (auto simp: active_slots_def)

lemma demo_active: "active_slots demo_server = {0, 1}"
  by (simp add: active_slots_filter upt_rec demo_client_def demo_peer_def init_client_def)

lemma demo_table: "table_ok demo_server"
  by (simp add: table_ok_def count_if_def demo_client_def demo_peer_def init_client_def files_ok_def
      slot_clear_def client_blocks_def name_ok_def)

lemma demo_ok: "server_ok demo_server" "healthy demo_server"
  using demo_table
  by (simp_all add: server_ok_def socks_ok_def demo_active healthy_def)
    (auto simp: demo_client_def demo_peer_def)

lemma demo_works: "send_works demo_server" "alloc_ok demo_server" "send_progress demo_server"
  by (simp_all add: send_works_def alloc_ok_def send_progress_def demo_env_def)

text \<open>The same table one connection below its limit.\<close>

definition demo_full :: server where
  "demo_full = demo_server\<lparr>max_conn := 3, clients := [demo_client, demo_peer, init_client]\<rparr>"

lemma demo_full_fields [simp]:
  "env demo_full = demo_env" "tick demo_full = 0" "max_conn demo_full = 3"
  "max_files demo_full = 10" "active_clients demo_full = 2"
  "clients demo_full = [demo_client, demo_peer, init_client]"
  "listen_sock demo_full = 4" "all_socks demo_full = {4, 5, 6}" "max_socket demo_full = 6"
  "open_fds demo_full = [6, 5, 4, 3, 0, 1, 2]" "heap_live demo_full = 3"
  by (simp_all add: demo_full_def)

lemma demo_full_ok: "server_ok demo_full" "healthy demo_full"
proof -
  have act: "active_slots demo_full = {0, 1}"
    by (simp add: active_slots_filter upt_rec demo_client_def demo_peer_def init_client_def)
  have "table_ok demo_full"
    by (simp add: table_ok_def count_if_def demo_client_def demo_peer_def init_client_def files_ok_def
        slot_clear_def client_blocks_def name_ok_def)
  then show "server_ok demo_full" "healthy demo_full"
    by (simp_all add: server_ok_def socks_ok_def act healthy_def)
      (auto simp: demo_client_def demo_peer_def)
qed

text \<open>The same process when a signal arrives before any connection.\<close>

definition demo_idle :: os where
  "demo_idle = demo_os\<lparr>env := demo_env\<lparr>a_select := \<lambda>n. SelIntr\<rparr>\<rparr>"

lemma demo_setup:
  "\<exists>s. server_setup True demo_os = Some (Inr s)" "\<exists>s. server_setup True demo_idle = Some (Inr s)"
  by (simp_all add: server_setup_def sys_calloc_def demo_os_def demo_idle_def demo_env_def os.extend_def
      server.fields_def Let_def bind_and_listen_def sys_getaddrinfo_def sys_socket_def lowest_fd_def
      sys_status_def FD_SET_def FD_SETSIZE_def sys_freeaddrinfo_def)

lemma demo_start:
  "{0, 1, 2} \<subseteq> set (open_fds demo_os)" "heap_live demo_os = 0"
  "{0, 1, 2} \<subseteq> set (open_fds demo_idle)" "heap_live demo_idle = 0"
  by (simp_all add: demo_os_def demo_idle_def)

lemma interrupted_loop:
  assumes "socks_ok s" "healthy s" "a_select (env s) (tick s) = SelIntr"
  shows "\<exists>t. main_loop s = Some t"
proof -
  have "all_socks s \<inter> {..<max_socket s + 1} \<subseteq> set (open_fds s)"
    using assms(2) by (auto simp: healthy_def)
  with assms(3) have "\<exists>t. serve_once s = Some (Stop t)"
    by (simp add: serve_once_def sys_pselect_inter)
  then show ?thesis by (auto simp: main_loop.simps [of s])
qed

text \<open>The first round of the server: a connection is accepted, then its socket is ready.\<close>

definition demo_s0 :: server where
  "demo_s0 = projr (the (server_setup True demo_os))"

lemma demo_s0: "server_setup True demo_os = Some (Inr demo_s0)"
  using demo_setup(1) by (auto simp: demo_s0_def)

lemma demo_round:
  "case serve_once demo_s0 of
     Some (Next t) \<Rightarrow> listen_sock t = 4 \<and>
       (case sys_pselect (max_socket t + 1) (all_socks t) (srv_info ''waiting for activity\<newline>'' [] t) of
          (SelSet C, u) \<Rightarrow> C = {5} \<and> listen_sock u = 4 \<and> max_socket u = 5
        | _ \<Rightarrow> False)
   | _ \<Rightarrow> False"
  by code_simp

end
