(* ===== verification/RegProps.thy ===== *)
theory RegProps
  imports RegDemo
begin

text \<open>
  The properties of the registry server \<open>program_04/registry.c\<close>, each a few steps over the
  component theories, with a concrete instance where there are hypotheses.
\<close>

section \<open>The server as a whole\<close>


lemma demo_reach: "reach conf_init server_step (Head demo_s0)"
proof (rule reach_init)
  show "conf_init (Head demo_s0)" unfolding conf_init_def using demo_s0 demo_start(1,2) by blast
qed


text \<open>
  C4: In the scan over the ready descriptors the error branch ``failed to find client based
  on socket'' is never taken: a ready descriptor other than the listening one is the socket
  of exactly one active client.
\<close>

theorem ready_socket_has_client:
  assumes "reach conf_init server_step (Scan fd C s)" "fd \<in> C" "fd \<noteq> listen_sock s"
  shows "\<exists>k. find_client fd s = Some k \<and>
    {i. i < max_conn s \<and> c_active (client_at s i) \<and> c_sock (client_at s i) = fd} = {k}"
proof -
  have ok: "socks_ok s" "fd \<in> all_socks s"
    using srv.inv_reach [OF assms(1)] assms(2) by (auto simp: server_ok_def)
  obtain k where k: "find_client fd s = Some k" "k \<in> active_slots s" "c_sock (client_at s k) = fd"
    using find_client_watched [OF ok assms(3)] .
  have "inj_on (\<lambda>i. c_sock (client_at s i)) (active_slots s)" using ok(1) unfolding socks_ok_def by blast
  with k(2,3) have "{i. i \<in> active_slots s \<and> c_sock (client_at s i) = fd} = {k}"
    by (auto dest: inj_onD)
  with k(1) show ?thesis by (auto simp: active_slots_def)
qed

lemma demo_scan: "\<exists>u. reach conf_init server_step (Scan 5 {5} u) \<and> listen_sock u = 4"
proof -
  obtain it where it: "serve_once demo_s0 = Some it"
    using demo_round by (cases "serve_once demo_s0") simp_all
  then obtain t where "it = Next t" using demo_round by (cases it) simp_all
  with it have t: "serve_once demo_s0 = Some (Next t)" by simp
  obtain r u where p: "sys_pselect (max_socket t + 1) (all_socks t)
      (srv_info ''waiting for activity\<newline>'' [] t) = (r, u)" by (metis surj_pair)
  then obtain C where "r = SelSet C" using demo_round t by (cases r) simp_all
  with p t demo_round have u: "sys_pselect (max_socket t + 1) (all_socks t)
      (srv_info ''waiting for activity\<newline>'' [] t) = (SelSet {5}, u)" "listen_sock u = 4" "max_socket u = 5"
    by simp_all
  have "reach conf_init server_step (Head t)" using serve_once_steps [OF t] demo_reach by (rule reach_steps)
  then have "reach conf_init server_step (Scan 3 {5} u)"
    using server_step.ready [OF u(1)] by (rule reach_step)
  moreover have "server_step (Scan 3 {5} u) (Scan 4 {5} u)" "server_step (Scan 4 {5} u) (Scan 5 {5} u)"
    using server_step.skip [of 3 u "{5}"] server_step.skip [of 4 u "{5}"] u(3) by simp_all
  ultimately have "reach conf_init server_step (Scan 5 {5} u)" by (blast intro: reach_step)
  with u(2) show ?thesis by auto
qed

theorem ready_socket_has_client_witness:
  "\<exists>s k. reach conf_init server_step (Scan 5 {5} s) \<and> find_client 5 s = Some k"
proof -
  obtain u where u: "reach conf_init server_step (Scan 5 {5} u)" "listen_sock u = 4"
    using demo_scan by blast
  from ready_socket_has_client [OF u(1)] u show ?thesis by auto
qed


text \<open>
  C3: However the main loop ends, the shutdown code completes, frees every heap block of
  the process, closes every watched descriptor and leaves no client active.
\<close>

theorem shutdown_releases_everything:
  assumes "server_setup log_ok w = Some (Inr s)" "{0, 1, 2} \<subseteq> set (open_fds w)" "heap_live w = 0"
    "main_loop s = Some t"
  shows "\<exists>u. server_shutdown t = Some u \<and> heap_live u = 0 \<and>
    set (open_fds u) \<inter> all_socks t = {} \<and> (\<forall>k<max_conn t. \<not> c_active (client_at u k))"
proof -
  have "conf_ok (Head s)" using setup_ok [OF assms(1-3)] by simp
  then have "conf_ok (Halted t)" using main_loop_steps [OF assms(4)] srv.inv_steps by blast
  then show ?thesis using server_shutdown_effect [of t] by auto
qed

theorem shutdown_releases_everything_witness:
  "\<exists>s t u. server_setup True demo_idle = Some (Inr s) \<and> main_loop s = Some t \<and>
     server_shutdown t = Some u \<and> heap_live u = 0"
proof -
  obtain s where s: "server_setup True demo_idle = Some (Inr s)" using demo_setup(2) by blast
  have "socks_ok s" "healthy s" "a_select (env s) (tick s) = SelIntr"
    using setup_ok [OF s demo_start(3,4)] setup_initial(10) [OF s demo_start(3,4)]
    by (simp_all add: server_ok_def demo_idle_def)
  then obtain t where t: "main_loop s = Some t" using interrupted_loop by blast
  from shutdown_releases_everything [OF s demo_start(3,4) t] s t show ?thesis by blast
qed

text \<open>
  The exit status of the registry is 0 or 1, and once the main loop was entered and left, the
  process exits with 0: no step of the shutdown is undefined.
\<close>

lemma registry_status: "registry_main events rest sigs_ok log_ok w = Some c \<Longrightarrow> c = 0 \<or> c = 1"
  by (auto simp: registry_main_def server_setup_def Let_def
      split: option.splits if_splits sum.splits prod.splits)

lemma registry_exits_after_loop:
  assumes "registry_port events rest \<noteq> None" "server_setup log_ok w = Some (Inr s)"
    "{0, 1, 2} \<subseteq> set (open_fds w)" "heap_live w = 0" "main_loop s = Some t"
  shows "registry_main events rest True log_ok w = Some 0"
proof -
  have "conf_ok (Head s)" using setup_ok [OF assms(2-4)] by simp
  then have "conf_ok (Halted t)" using main_loop_steps [OF assms(5)] srv.inv_steps by blast
  then obtain u where "server_shutdown t = Some u" using server_shutdown_effect [of t] by auto
  with assms show ?thesis by (auto simp: registry_main_def)
qed

section \<open>Accepting and closing\<close>

text \<open>
  C12: One connection below the limit, \<open>server_accept\<close> closes the new socket and then, with no
  \<open>return\<close> after a successful close, registers it all the same: the table is full, a closed
  descriptor is watched, and the next \<open>pselect\<close> fails, which ends the server.
\<close>

theorem limit_stops_server:
  assumes "server_ok s" "healthy s" "active_clients s = max_conn s - 1"
    "a_accept (env s) (tick s) = AcceptConn a" "a_close (env s) (Suc (tick s))"
    "server_accept s = Some s'"
  shows "active_clients s' = max_conn s' \<and> \<not> all_socks s' \<subseteq> set (open_fds s') \<and>
    (\<exists>t. serve_once s' = Some (Stop t))"
proof -
  define s0 where "s0 = srv_info ''accepting new connection\<newline>'' [] s"
  have q0: "quiet s0 s" by (simp add: s0_def)
  note q = quiet_fields [OF q0]
  have t: "table_ok s" "socks_ok s" "active_clients s < max_conn s" "{0, 1, 2} \<subseteq> set (open_fds s)"
    "all_socks s \<subseteq> set (open_fds s)" "0 < max_conn s" "max_conn s < 2 ^ 64"
    using assms(1,2) unfolding server_ok_def healthy_def socks_ok_def table_ok_def by blast+
  have l: "listen_sock s \<in> set (open_fds s)" using t(2,5) unfolding socks_ok_def by blast
  define fd where "fd = lowest_fd (open_fds s)"
  have fd: "0 \<le> fd" "fd \<notin> set (open_fds s)" by (simp_all add: fd_def)
  define s1 where "s1 = (step_os s0)\<lparr>open_fds := fd # open_fds s\<rparr>"
  have acc: "sys_accept (listen_sock s) s0 = ((fd, Some a), s1)"
    using assms(4) l by (simp add: sys_accept_def q s1_def fd_def)
  define w where "w = srv_warn ''max server connections reached\<newline>'' [] s1"
  define s2 where "s2 = (step_os w)\<lparr>open_fds := removeAll fd (fd # open_fds s)\<rparr>"
  have cl: "sys_close fd w = (0, s2)"
    using assms(5) by (simp add: sys_close_def w_def s2_def s1_def q)
  have st1: "same_table s1 s" using q by (simp add: s1_def same_table_def)
  have st2: "same_table s2 s" using st1 by (simp add: s2_def w_def same_table_def)
  note w1 = same_table_watched [OF st1] and w2 = same_table_watched [OF st2]
  have "active_clients s1 = size_sub (max_conn s1) 1" using assms(3) w1 t by simp
  then have reg: "accept_register fd a s2 = Some s'"
    using assms(6) acc cl by (simp add: server_accept_def s0_def w_def)
  have o2: "set (open_fds s2) = set (open_fds s)" using fd by (auto simp: s2_def)
  have t2: "table_ok s2" "socks_ok s2"
    using t(1) same_table_ok [OF st2] same_table_socks [OF st2 t(2)] t(4) o2 by auto
  have "fd \<noteq> 0" "fd \<noteq> 1" "fd \<noteq> 2" using fd(2) t(4) by auto
  then have fd3: "3 \<le> fd" using fd(1) by linarith
  have "active_clients s2 < max_conn s2" "fd \<notin> all_socks s2" using t(3,5) w2 fd(2) by auto
  note r = accept_register_ok [OF reg t2 this fd3]
  have "\<not> healthy s'" using r(3,4) o2 fd(2) by (simp add: healthy_def)
  with unhealthy_stops [OF r(2)] r(6,7) w2 assms(3) t(3) show ?thesis by (auto simp: healthy_def)
qed

theorem limit_stops_server_witness:
  "\<exists>s' t. server_accept demo_full = Some s' \<and> serve_once s' = Some (Stop t)"
proof -
  have "server_accept demo_full \<noteq> None"
    by (simp add: server_accept_def sys_accept_def demo_env_def demo_addr_def lowest_fd_def sys_close_def
        accept_register_def client_ip_v4 AF_INET_def FD_SET_def FD_SETSIZE_def Let_def)
  then obtain s' where s': "server_accept demo_full = Some s'" by blast
  have "a_accept (env demo_full) (tick demo_full) = AcceptConn demo_addr"
    "a_close (env demo_full) (Suc (tick demo_full))" "active_clients demo_full = max_conn demo_full - 1"
    by (simp_all add: demo_env_def)
  with limit_stops_server [OF demo_full_ok _ _ _ s'] s' show ?thesis by blast
qed

text \<open>
  C30: \<open>clear_client\<close> does not reset \<open>type\<close>: when a client disconnects and the next connection
  gets its slot, the new client has the old one's registration state, so after a JOINED one
  it is served as joined without having sent a JOIN.
\<close>

theorem reused_slot_keeps_type:
  assumes "server_ok s" "i \<in> active_slots s" "close_client i r s = Some s1"
    "\<forall>j<i. c_active (client_at s j)" "accept_register fd a s1 = Some s2"
  shows "c_active (client_at s2 i) \<and> c_sock (client_at s2 i) = fd \<and> c_id (client_at s2 i) = 0 \<and>
    c_type (client_at s2 i) = c_type (client_at s i)"
proof -
  have t: "table_ok s" using assms(1) by (simp add: server_ok_def)
  note e = close_client_effect [OF t assms(2,3)]
  have i: "i < max_conn s" "i < length (clients s)" using assms(2) t by (auto simp: active_slots_def table_ok_def)
  have c1: "clients s1 = (clients s)[i := cleared (client_at s i)]" "table_ok s1" "max_conn s1 = max_conn s"
    using e by auto
  have cap: "active_clients s1 < max_conn s1"
    using e t count_if_le [of c_active "clients s"] by (auto simp: table_ok_def)
  obtain k u where k: "quiet u s1" "k < max_conn s1" "\<not> c_active (client_at s1 k)"
      "\<forall>j<k. c_active (client_at s1 j)"
    and s2: "s2 = (set_client k (accepted fd a (client_at s1 k))
        (u\<lparr>all_socks := insert fd (all_socks s1), max_socket := max fd (max_socket s1)\<rparr>))
        \<lparr>active_clients := active_clients s1 + 1\<rparr>"
    using assms(5) c1(2) cap by (rule accept_register_effect)
  have "k = i"
  proof (rule linorder_cases [of k i])
    assume "k < i"
    with k(3) assms(4) c1(1) show ?thesis by simp
  next
    assume "i < k"
    with k(4) c1(1) i have "c_active (cleared (client_at s i))" by fastforce
    then show ?thesis by simp
  qed
  moreover have "c_id (cleared (client_at s i)) = 0" using cleared_fields(4) by (simp add: slot_clear_def)
  ultimately show ?thesis using i c1(1) k(1) by (simp add: s2 quiet_fields)
qed

theorem reused_slot_keeps_type_witness:
  "\<exists>s1 s2. close_client 0 0 demo_server = Some s1 \<and> accept_register 5 demo_addr s1 = Some s2 \<and>
     c_type (client_at s2 0) = CLIENT_JOINED"
proof -
  have "close_client 0 0 demo_server \<noteq> None"
    by (simp add: close_client_def sys_close_def clear_client_def clear_client_files_def demo_client_def
        Let_def FD_CLR_def heap_free_def)
  then obtain s1 where s1: "close_client 0 0 demo_server = Some s1" by blast
  have "accept_register 5 demo_addr s1 \<noteq> None"
    by (simp add: accept_register_def client_ip_v4 demo_addr_def AF_INET_def FD_SET_def FD_SETSIZE_def Let_def)
  then obtain s2 where s2: "accept_register 5 demo_addr s1 = Some s2" by blast
  from reused_slot_keeps_type [OF demo_ok(1) _ s1 _ s2] demo_active s1 s2 show ?thesis
    by (simp add: demo_client_def)
qed

text \<open>
  \<open>bind_and_listen\<close> keeps the descriptors exact: it returns a fresh open descriptor and
  no other is left open, or \<open>-1\<close> and every socket it tried is closed. The list of
  \<open>getaddrinfo\<close> is freed on success and leaked on every failure after it.
\<close>

theorem bind_and_listen_exact:
  assumes "bind_and_listen s = (fd, s')"
  shows "(if fd = - 1
      then set (open_fds s') = set (open_fds s) \<and>
        gai_live s' = gai_live s + (if \<exists>l. fst (sys_getaddrinfo s) = GaiOk l then 1 else 0)
      else fd \<notin> set (open_fds s) \<and> set (open_fds s') = insert fd (set (open_fds s)) \<and>
        gai_live s' = gai_live s) \<and>
    clients s' = clients s"
proof -
  note e = bind_and_listen_effect [OF assms]
  then have "clients s' = clients s" by (simp add: same_table_def)
  with e(3,4) show ?thesis by (cases "fd = - 1") auto
qed

theorem bind_and_listen_exact_witness:
  "\<exists>s'. bind_and_listen demo_server = (7, s') \<and> set (open_fds s') = {0, 1, 2, 3, 4, 5, 6, 7}"
proof -
  have "fst (bind_and_listen demo_server) = 7"
    by (simp add: bind_and_listen_def sys_getaddrinfo_def demo_env_def sys_socket_def lowest_fd_def
        sys_status_def)
  then obtain s' where "bind_and_listen demo_server = (7, s')" by (metis prod.collapse)
  from this bind_and_listen_exact [OF this] show ?thesis by auto
qed

section \<open>Output\<close>

text \<open>
  Every logging function leaves nothing unflushed: after it the log file holds all that
  was ever written to it, so a crash loses no entry.
\<close>

theorem log_is_durable:
  assumes "output_type s = FILE_LOG"
    "logger \<in> {srv_log fmt args, srv_info fmt args, srv_warn fmt args, srv_error fmt args, srv_debug fmt args}"
  shows "flushed (logger s) = out_text (logger s) \<and>
    (\<exists>prefix. out_text (logger s) = out_text s @ prefix @ vformat fmt args \<and> stdout (logger s) = stdout s)"
  using assms
  by (auto simp: srv_log_def srv_info_def srv_warn_def srv_error_def srv_debug_def srv_flush_def srv_write_def)

theorem log_is_durable_witness:
  "flushed (srv_warn ''max'' [] demo_server) = out_text (srv_warn ''max'' [] demo_server)"
  using log_is_durable [of demo_server "srv_warn ''max'' []" "''max''" "[]"]
  by (simp add: demo_server_def os.extend_def server.fields_def)

text \<open>
  The dump of a received buffer has two lines of equal length: under \<open>buffer:\<close> the
  bytes as \<open>%02x\<close>, and below each of them its character or code, three columns per byte.
\<close>

theorem print_buffer_aligned:
  "\<exists>codes. print_buffer_text bs VERBOSE =
      ''buffer:'' @ concat (map (\<lambda>b. vformat '' %02x'' [AInt (uint b)]) bs) @
      ''\<newline>      :'' @ codes @ ''\<newline>'' \<and>
    length codes = 3 * length bs \<and>
    length (concat (map (\<lambda>b. vformat '' %02x'' [AInt (uint b)]) bs)) = 3 * length bs"
proof -
  have c: "length (char_item b) = 3" for b by (simp add: char_item_def)
  have "length (concat (map char_item bs)) = 3 * length bs" by (induction bs) (simp_all add: c)
  moreover have "length (concat (map hex_item bs)) = 3 * length bs"
    by (induction bs) (simp_all add: hex_item_length)
  moreover have "hex_item = (\<lambda>b. vformat '' %02x'' [AInt (uint b)])"
    using hex_item_02x by (rule ext)
  moreover have "print_buffer_text bs VERBOSE = ''buffer:'' @ concat (map hex_item bs) @
      ''\<newline>      :'' @ concat (map char_item bs) @ ''\<newline>''"
    by (simp add: print_buffer_text_def VERBOSE_def)
  ultimately show ?thesis by metis
qed

text \<open>
  The address text of an IPv4 peer is the whole dotted address, a colon and the port in
  host order: the 51-byte buffer never cuts it and no byte of the old stack shows.
\<close>

theorem ip_text_complete:
  assumes "sa_family a = AF_INET"
  shows "get_ip_port text6 a old IPLEN_AND_PORT True =
    IpStr (ntop4 (bytes_of_u32 (sin_addr a)) @ '':'' @ dec (unat (ntohs (sin_port a))))"
  using assms by (simp add: get_ip_port_def get_ipv4_port_text IPLEN_AND_PORT_def port_number_def)

theorem ip_text_complete_witness:
  "get_ip_port [] demo_addr (\<lambda>k. CHR ''x'') IPLEN_AND_PORT True = IpStr ''127.0.0.1:4660''"
proof -
  have "ntop4 (bytes_of_u32 (sin_addr demo_addr)) = ''127.0.0.1''"
    by code_simp
  moreover have "dec (unat (ntohs (sin_port demo_addr))) = ''4660''"
    by code_simp
  ultimately show ?thesis
    using ip_text_complete [of demo_addr "[]" "\<lambda>k. CHR ''x''"] by (simp add: demo_addr_def AF_INET_def)
qed

section \<open>Sending\<close>

text \<open>
  C13: On a connection where no \<open>send\<close> of a non-empty buffer takes zero bytes, \<open>send_bytes\<close>
  returns: 0 after every byte of the buffer was put on that connection, once and in order,
  or -1 after a proper prefix; no other connection is touched.
\<close>

theorem send_bytes_delivers:
  assumes "send_progress s"
  shows "\<exists>r s'. send_bytes fd bs s = Some (r, s') \<and>
    (r = 0 \<and> sent s' = (sent s)(fd := sent s fd @ bs) \<or>
     r = - 1 \<and> (\<exists>k<length bs. sent s' = (sent s)(fd := sent s fd @ take k bs)))"
proof -
  obtain r s' where r: "send_bytes fd bs s = Some (r, s')"
    using send_bytes.send_all_returns [OF assms] by blast
  then show ?thesis
    using send_bytes.send_all_ok [of fd bs s s'] send_bytes.send_all_fail [OF r] by (cases "r = 0") blast+
qed

theorem send_bytes_delivers_witness:
  "\<exists>r s'. send_bytes 5 [1, 2, 3] demo_server = Some (r, s')"
  using send_bytes_delivers [OF demo_works(3), of 5 "[1, 2, 3]"] by blast

end
