(* ===== verification/RegRequests.thy ===== *)
theory RegRequests
  imports RegDemo
begin

text \<open>
  The properties of the request handlers of \<open>program_04/registry.c\<close>: what JOIN, PUBLISH and
  SEARCH do to the table and to the wire, on every branch, for every client and environment.
\<close>

section \<open>JOIN\<close>

text \<open>
  C7: A JOIN of an active IPv4 client always completes. With a payload of four bytes whose
  big-endian value differs from the identifier of the first active client it registers the
  client under that value as JOINED; otherwise the table is unchanged.
\<close>

theorem join_outcome:
  assumes "table_ok s" "i \<in> active_slots s" "sa_family (c_addr (client_at s i)) = AF_INET"
  shows "\<exists>s' k. handle_join i buf len s = Some s' \<and> first_active s = Some k \<and> table_ok s' \<and>
    clients s' = (if len = 4 \<and> c_id (client_at s k) \<noteq> join_id buf
      then (clients s)[i := (client_at s i)\<lparr>c_id := join_id buf, c_type := CLIENT_JOINED\<rparr>]
      else clients s)"
proof -
  obtain s' where s': "handle_join i buf len s = Some s'"
    using handle_join_total [of s i buf len] assms(3) by blast
  obtain k where k: "first_active s = Some k"
    using find_upt_ex [of "\<lambda>k. c_active (client_at s k)" i 0 "max_conn s"] assms(2)
    by (auto simp: first_active_def active_slots_def)
  have e: "keeps s' s \<and> heap_live s' = heap_live s \<and>
    (if len = 4 \<and> c_id (client_at s k) \<noteq> join_id buf
     then clients s' = (clients s)[i := joined_as (join_id buf) (client_at s i)] else quiet s' s)"
    using handle_join_effect [OF s'] k by simp
  have "table_ok s'" using handle_join_table [OF assms(1,2) s'] by blast
  with e k s' show ?thesis by (auto simp: joined_as_def quiet_fields)
qed

theorem join_outcome_witness:
  "\<exists>s'. handle_join 1 (\<lambda>k. if k = 4 then 9 else 0) 4 demo_server = Some s' \<and> table_ok s'"
  using join_outcome [of demo_server 1 "\<lambda>k. if k = 4 then 9 else 0" 4] demo_table demo_active
  by (auto simp: demo_peer_def demo_addr_def AF_INET_def)

text \<open>
  C31: Only the first active client is checked for the identifier: a client can join under
  the identifier of another active client that is not the first, and then both have it.
\<close>

theorem join_accepts_duplicate:
  assumes "table_ok s" "i \<in> active_slots s" "sa_family (c_addr (client_at s i)) = AF_INET"
    "first_active s = Some k" "c_id (client_at s k) \<noteq> join_id buf"
    "j \<in> active_slots s" "j \<noteq> i" "c_id (client_at s j) = join_id buf"
  shows "\<exists>s'. handle_join i buf 4 s = Some s' \<and> c_id (client_at s' i) = c_id (client_at s' j) \<and>
    c_type (client_at s' i) = CLIENT_JOINED"
proof -
  obtain s' where s': "handle_join i buf 4 s = Some s'"
    using handle_join_total [of s i buf 4] assms(3) by blast
  have "clients s' = (clients s)[i := joined_as (join_id buf) (client_at s i)]"
    using handle_join_effect [OF s'] assms(4,5) by simp
  moreover have "i < length (clients s)" using assms(1,2) by (simp add: table_ok_def active_slots_def)
  ultimately show ?thesis using s' assms(7,8) by simp
qed

text \<open>A third client that already joined as 9; the second one joins as 9, too.\<close>

definition demo_three :: server where
  "demo_three = demo_server\<lparr>active_clients := 3,
     clients := [demo_client, demo_peer, demo_peer\<lparr>c_id := 9, c_sock := 8, c_type := CLIENT_JOINED\<rparr>,
       init_client]\<rparr>"

lemma demo_three_fields [simp]:
  "max_conn demo_three = 4" "max_files demo_three = 10" "active_clients demo_three = 3"
  "clients demo_three = [demo_client, demo_peer,
     demo_peer\<lparr>c_id := 9, c_sock := 8, c_type := CLIENT_JOINED\<rparr>, init_client]" "heap_live demo_three = 3"
  by (simp_all add: demo_three_def)

lemma demo_three_slots: "active_slots demo_three = {0, 1, 2}" "first_active demo_three = Some 0"
  by (simp add: active_slots_filter upt_rec demo_client_def demo_peer_def init_client_def numeral_2_eq_2)
    (simp add: first_active_def upt_rec demo_client_def)

lemma demo_three_ok: "table_ok demo_three"
  by (simp add: table_ok_def count_if_def demo_client_def demo_peer_def init_client_def files_ok_def
      slot_clear_def client_blocks_def name_ok_def)

theorem join_accepts_duplicate_witness:
  "\<exists>s'. handle_join 1 (\<lambda>k. if k = 4 then 9 else 0) 4 demo_three = Some s' \<and>
     c_id (client_at s' 1) = c_id (client_at s' 2)"
proof -
  have "join_id (\<lambda>k. if k = 4 then 9 else 0) = 9"
    by (simp add: join_id_def ntohl_def htonl_def u32_of_bytes_def)
  then show ?thesis
    using join_accepts_duplicate [of demo_three 1 0 "\<lambda>k. if k = 4 then 9 else 0" 2]
      demo_three_ok demo_three_slots
    by (auto simp: demo_peer_def demo_client_def demo_addr_def AF_INET_def)
qed

section \<open>PUBLISH\<close>


definition demo_publish :: "nat \<Rightarrow> byte" where
  "demo_publish k = (if k < 9 then [1, 0, 0, 0, 1, 120, 121, 122, 0] ! k else 0)"



section \<open>SEARCH\<close>

text \<open>
  C14: The comparison loop of \<open>search_client_files\<close> decides whether the published name is a
  prefix of the query, not whether they are equal.
\<close>

theorem match_is_prefix:
  assumes "block_str f = Some name" "buf_str buf k = Some query"
  shows "match_file (fdata f @ fslack f) buf k = Some (prefix name query)"
  using assms match_file_prefix by (simp add: block_str_def)

theorem match_is_prefix_witness:
  "match_file ([97, 98] @ [0]) (\<lambda>k. if k < 3 then [97, 98, 99] ! k else 0) 0 = Some True"
proof -
  have "block_str \<lparr>fdata = [97, 98], fslack = [0]\<rparr> = Some [97, 98]"
    by (simp add: block_str_def cstr_in_def)
  moreover have "buf_str (\<lambda>k. if k < 3 then [97, 98, 99] ! k else 0) 0 = Some [97, 98, 99]"
    by (simp add: buf_str.simps BUFF_SIZE_def)
  ultimately show ?thesis
    using match_is_prefix [of "\<lparr>fdata = [97, 98], fslack = [0]\<rparr>" "[97, 98]"
        "\<lambda>k. if k < 3 then [97, 98, 99] ! k else 0" 0 "[97, 98, 99]"] by simp
qed






text \<open>
  C15: A request of one client never touches the slot of another.
\<close>

theorem requests_isolated:
  assumes "table_ok s" "i \<in> active_slots s" "dispatch i buf len s = Some s'" "j \<noteq> i"
  shows "client_at s' j = client_at s j"
proof -
  have i: "i < max_conn s" using assms(2) by (simp add: active_slots_def)
  note t = table_okD [OF assms(1) i]
  consider (join) "handle_join i buf (len - 1) s = Some s'"
    | (publish) "handle_publish i buf (len - 1) s = Some s'"
    | (search) "handle_search i buf (len - 1) s = Some s'" | (other) "quiet s' s"
    using assms(3) by (auto simp: dispatch_def split: if_splits)
  then show ?thesis
  proof cases
    case join
    from handle_join_effect [OF join] assms(4) show ?thesis by (auto simp: quiet_fields split: if_splits)
  next
    case publish
    show ?thesis
    proof (cases "publish_admitted i buf (len - 1) s")
      case False
      with handle_publish_refused [OF False] publish show ?thesis by (auto simp: quiet_fields)
    next
      case True
      from handle_publish_effect [OF publish True t(2,1)] t(4) assms(4) show ?thesis by auto
    qed
  next
    case search
    from handle_search_reads [OF search] show ?thesis by (simp add: reads_def)
  next
    case other
    then show ?thesis by (simp add: quiet_fields)
  qed
qed

theorem requests_isolated_witness:
  "\<exists>s'. dispatch 0 demo_publish 9 demo_server = Some s' \<and> client_at s' 1 = demo_peer"
proof -
  obtain s' where s': "handle_publish 0 demo_publish 8 demo_server = Some s'"
    using handle_publish_total [of demo_server 0 demo_publish 8] demo_table demo_works(2) by auto
  then have "dispatch 0 demo_publish 9 demo_server = Some s'"
    by (simp add: dispatch_def demo_publish_def)
  with requests_isolated [of demo_server 0 demo_publish 9 s' 1] demo_table demo_active show ?thesis
    by simp
qed

end
