(* ===== verification/Peer.thy ===== *)
theory Peer
  imports Os
begin

text \<open>
  \<open>program_03/peer.c\<close>: the interactive peer. Its state extends the operating system with the
  globals of the file, the terminal input, the entries of the shared directory and the files
  it writes. A function returns \<open>None\<close> when the code has no defined result: it uses an
  uninitialised buffer, overruns an array, or never returns.
\<close>

section \<open>State\<close>

text \<open>
  \<open>shared\<close> is the result of \<open>opendir\<close>: no directory, or the entries in the order \<open>readdir\<close>
  gives them, each with the answer of \<open>stat\<close> and \<open>S_ISREG\<close>. \<open>can_write\<close> says which
  \<open>fopen\<close> calls succeed, \<open>saved\<close> holds the files written, \<open>dialed\<close> the addresses given to
  \<open>connect\<close>.
\<close>

record peer = os +
  sock :: int
  peer_id :: u32
  peerIPStrGlobal :: string
  peerPortGlobal :: u16
  input :: "byte list"
  errors :: string
  shared :: "(byte list \<times> bool) list option"
  can_write :: "byte list \<Rightarrow> bool"
  saved :: "byte list \<Rightarrow> byte list option"
  dialed :: "sockaddr list"

definition perror :: "string \<Rightarrow> peer \<Rightarrow> peer" where
  "perror msg s = s\<lparr>errors := errors s @ vformat ''%s: %s\<newline>'' [AStr msg, strerror s]\<rparr>"

definition eprint :: "string \<Rightarrow> peer \<Rightarrow> peer" where
  "eprint msg s = s\<lparr>errors := errors s @ msg\<rparr>"

lemma perror_frame [frame_simps]:
  "sent (perror m s) = sent s" "saved (perror m s) = saved s" "open_fds (perror m s) = open_fds s"
  "peerIPStrGlobal (perror m s) = peerIPStrGlobal s" "peerPortGlobal (perror m s) = peerPortGlobal s"
  "dialed (perror m s) = dialed s" "sock (perror m s) = sock s" "stdout (perror m s) = stdout s"
  by (simp_all add: perror_def)

text \<open>\<open>scanf("%ns")\<close>: skip white space, then at most \<open>n\<close> other bytes; \<open>None\<close> at end of file.\<close>

definition scanf_word :: "nat \<Rightarrow> byte list \<Rightarrow> (byte list \<times> byte list) option" where
  "scanf_word n inp =
     (let rest = dropWhile isspace inp; w = take n (takeWhile (\<lambda>b. \<not> isspace b) rest)
      in if rest = [] then None else Some (w, drop (length w) rest))"

section \<open>Messages\<close>

definition join_msg :: "u32 \<Rightarrow> byte list" where
  "join_msg pid = 0 # be32 pid"

text \<open>
  The directory loop of \<open>publish\<close>: \<open>p\<close> holds the bytes of \<open>buffer\<close> from 5 on, so \<open>offset\<close> is
  \<open>5 + length p\<close>; the flag is the ``buffer full'' exit.
\<close>

fun pack_names :: "(byte list \<times> bool) list \<Rightarrow> byte list \<Rightarrow> nat \<Rightarrow> byte list \<times> nat \<times> bool" where
  "pack_names [] p n = (p, n, False)"
| "pack_names ((w, reg) # es) p n =
     (if \<not> 5 + length p < 1200 then (p, n, False)
      else if \<not> reg then pack_names es p n
      else if 5 + length p + length w + 1 < 1200 then pack_names es (p @ w @ [0]) (n + 1)
      else (p, n, True))"

definition publish_msg :: "nat \<Rightarrow> byte list \<Rightarrow> byte list" where
  "publish_msg n p = 1 # be32 (word_of_nat n) @ p"

definition search_msg :: "byte list \<Rightarrow> byte list" where
  "search_msg w = 2 # w @ [0]"

definition fetch_msg :: "byte list \<Rightarrow> byte list" where
  "fetch_msg w = 3 # w @ [0]"

section \<open>\<open>join\<close> and \<open>publish\<close>\<close>

definition join :: "peer \<Rightarrow> peer" where
  "join s =
     (case sys_send (sock s) (join_msg (peer_id s)) s of (r, s1) \<Rightarrow>
        if r < 0 then perror ''send failed'' s1
        else printf ''JOIN request sent. Peer ID: %u\<newline>'' [AInt (uint (peer_id s1))] s1)"

definition publish :: "peer \<Rightarrow> peer" where
  "publish s =
     (case shared s of
        None \<Rightarrow> perror ''Unable to open directory'' s
      | Some es \<Rightarrow>
          (case pack_names es [] 0 of (p, n, full) \<Rightarrow>
             (let s1 = (if full then eprint ''Buffer full, some files may not be published.\<newline>'' s else s)
              in case sys_send (sock s1) (publish_msg n p) s1 of (r, s2) \<Rightarrow>
                   if r < 0 then perror ''send'' s2
                   else printf ''Successfully published %u files.\<newline>'' [AInt (int n)] s2)))"

section \<open>Asking the registry\<close>

text \<open>A variable of \<open>n\<close> bytes after \<open>recv\<close> put \<open>d\<close> into it; \<open>old\<close> is what it held before.\<close>

definition received :: "byte list \<Rightarrow> (nat \<Rightarrow> byte) \<Rightarrow> nat \<Rightarrow> byte list" where
  "received d old n = map (\<lambda>k. if k < length d then d ! k else old k) [0..<n]"

definition u32_at :: "byte list \<Rightarrow> u32" where
  "u32_at d = u32_of_bytes (d ! 0) (d ! 1) (d ! 2) (d ! 3)"

definition u16_at :: "byte list \<Rightarrow> u16" where
  "u16_at d = u16_of_bytes (d ! 0) (d ! 1)"

text \<open>
  The part \<open>search\<close> and \<open>searchForFetch\<close> share: send the request, receive the three
  fields, convert. The sum of the counts is compared as an unsigned number, so a negative
  sum passes. The result is the identifier and the port in host order and the address as
  received.
\<close>

definition query_registry :: "byte list \<Rightarrow> peer \<Rightarrow> (u32 \<times> u32 \<times> u16) option \<times> peer" where
  "query_registry w s =
     (case sys_send (sock s) (search_msg w) s of (r, s1) \<Rightarrow>
        if r < 0 then (None, perror ''send'' s1)
        else (case sys_recv (sock s1) 4 s1 of ((r1, d1), s2) \<Rightarrow>
          if r1 \<le> 0 then (None, perror ''recv'' s2)
          else (case sys_recv (sock s2) 4 s2 of ((r2, d2), s3) \<Rightarrow>
          (case sys_recv (sock s3) 2 s3 of ((r3, d3), s4) \<Rightarrow>
             if (r1 + r2 + r3) mod 2 ^ 64 < 10
             then (None, eprint ''Incomplete response from registry.\<newline>'' s4)
             else (Some (ntohl (u32_at (received d1 (a_stack (env s) (tick s1)) 4)),
                         u32_at (received d2 (a_stack (env s) (tick s2)) 4),
                         ntohs (u16_at (received d3 (a_stack (env s) (tick s3)) 2))), s4)))))"

definition search :: "peer \<Rightarrow> peer option" where
  "search s =
     (let s1 = printf ''Enter a file name: \<newline>'' [] s in
      case scanf_word 100 (input s1) of
        None \<Rightarrow> None
      | Some (w, rest) \<Rightarrow>
          (case query_registry (c_str w) (s1\<lparr>input := rest\<rparr>) of
             (None, s2) \<Rightarrow> Some s2
           | (Some (pid, ip, port), s2) \<Rightarrow>
               if pid = 0 \<and> ip = 0 \<and> port = 0
               then Some (printf ''File not indexed by registry.\<newline>'' [] s2)
               else Some (printf ''File found at\<newline>Peer %u\<newline>%s:%hu\<newline>''
                      [AInt (uint pid), AStr (ntop4 (bytes_of_u32 ip)), AInt (uint port)] s2)))"

definition searchForFetch :: "byte list \<Rightarrow> peer \<Rightarrow> peer" where
  "searchForFetch w s =
     (case query_registry w s of
        (None, s1) \<Rightarrow> s1
      | (Some (pid, ip, port), s1) \<Rightarrow>
          if pid \<noteq> 0 \<and> ip \<noteq> 0 \<and> port \<noteq> 0
          then s1\<lparr>peerIPStrGlobal := ntop4 (bytes_of_u32 ip), peerPortGlobal := port\<rparr>
          else printf ''File not found in the registry.\<newline>'' [] s1)"

section \<open>\<open>fetch\<close>\<close>

text \<open>
  \<open>inet_pton\<close> for IPv4: four decimal numbers of one to three digits, at most 255, separated
  by dots; anything else fails.
\<close>

definition is_digit :: "char \<Rightarrow> bool" where
  "is_digit c \<longleftrightarrow> 48 \<le> (of_char c :: nat) \<and> (of_char c :: nat) < 58"

definition digits_val :: "string \<Rightarrow> nat" where
  "digits_val ds = foldl (\<lambda>a c. 10 * a + (of_char c - 48)) 0 ds"

definition octet :: "string \<Rightarrow> (byte \<times> string) option" where
  "octet t =
     (let ds = takeWhile is_digit t
      in if ds \<noteq> [] \<and> length ds \<le> 3 \<and> digits_val ds \<le> 255
         then Some (word_of_nat (digits_val ds), dropWhile is_digit t) else None)"

fun octets :: "nat \<Rightarrow> string \<Rightarrow> byte list option" where
  "octets 0 t = (if t = [] then Some [] else None)"
| "octets (Suc n) t =
     (case octet t of
        None \<Rightarrow> None
      | Some (b, rest) \<Rightarrow>
          if n = 0 then map_option ((#) b) (octets 0 rest)
          else (case rest of [] \<Rightarrow> None
                | c # cs \<Rightarrow> if c = CHR ''.'' then map_option ((#) b) (octets n cs) else None))"

definition inet_pton4 :: "string \<Rightarrow> byte list option" where
  "inet_pton4 t = octets 4 t"

text \<open>The address \<open>fetch\<close> connects to; a failed conversion leaves the zeros of \<open>memset\<close>.\<close>

definition peer_address :: "peer \<Rightarrow> sockaddr" where
  "peer_address s =
     \<lparr>sa_family = 2, sin_port = htons (peerPortGlobal s),
      sin_addr = (case inet_pton4 (peerIPStrGlobal s) of None \<Rightarrow> 0 | Some bs \<Rightarrow> u32_at bs)\<rparr>"

text \<open>The receive loop; the first byte of the first chunk is the result code.\<close>

partial_function (option) fetch_loop ::
  "int \<Rightarrow> byte list \<Rightarrow> bool \<Rightarrow> byte list \<Rightarrow> peer \<Rightarrow> (int \<times> byte list \<times> peer) option" where
  "fetch_loop fd name first acc s =
     (case sys_recv fd 4096 s of ((r, d), s1) \<Rightarrow>
        if r > 0 then fetch_loop fd name False (acc @ (if first then drop 1 d else d)) s1
        else Some (r, acc, s1))"

declare fetch_loop.simps [code]

definition fetch_file :: "byte list \<Rightarrow> int \<Rightarrow> peer \<Rightarrow> peer option" where
  "fetch_file name fd s =
     (if \<not> can_write s name
      then Some (snd (sys_close fd (perror ''Failed to open file for writing'' s)))
      else case fetch_loop fd name True [] (s\<lparr>saved := (saved s)(name \<mapsto> [])\<rparr>) of
             None \<Rightarrow> None
           | Some (r, content, s1) \<Rightarrow>
               (let s2 = s1\<lparr>saved := (saved s1)(name \<mapsto> content)\<rparr>;
                    s3 = (if r < 0 then perror ''Failed to receive file data'' s2
                          else printf ''File '%s' fetched successfully.\<newline>'' [AStr (chars name)] s2)
                in Some (snd (sys_close fd s3))))"

text \<open>\<open>fetchBuffer\<close> has 101 bytes: the action, the name and its NUL must fit.\<close>

definition fetch_from :: "byte list \<Rightarrow> int \<Rightarrow> peer \<Rightarrow> peer option" where
  "fetch_from name fd s =
     (case sys_status a_connect fd (s\<lparr>dialed := dialed s @ [peer_address s]\<rparr>) of (r, s1) \<Rightarrow>
        if r < 0 then
          Some (snd (sys_close fd (perror ''Failed to connect to peer for fetching file'' s1)))
        else if length (fetch_msg name) > 101 then None
        else (case sys_send fd (fetch_msg name) s1 of (r2, s2) \<Rightarrow>
                if r2 < 0 then
                  Some (snd (sys_close fd (perror ''Failed to send FETCH request'' s2)))
                else fetch_file name fd s2))"

definition fetch :: "peer \<Rightarrow> peer option" where
  "fetch s =
     (let s1 = printf ''Enter a file name: \<newline>'' [] s in
      case scanf_word 100 (input s1) of
        None \<Rightarrow> None
      | Some (w, rest) \<Rightarrow>
          (let name = c_str w; s2 = searchForFetch name (s1\<lparr>input := rest\<rparr>)
           in case sys_socket s2 of (fd, s3) \<Rightarrow>
                if fd < 0 then Some (perror ''Failed to create socket for fetching file'' s3)
                else fetch_from name fd s3))"

section \<open>The command loop and \<open>main\<close>\<close>

text \<open>
  At end of file \<open>scanf\<close> fails and \<open>getchar\<close> never returns a newline: the inner loop does
  not end.
\<close>

definition run_command :: "byte list \<Rightarrow> peer \<Rightarrow> (bool \<times> peer) option" where
  "run_command w s =
     (if w = ascii ''JOIN'' then Some (False, join s)
      else if w = ascii ''PUBLISH'' then Some (False, publish s)
      else if w = ascii ''SEARCH'' then map_option (Pair False) (search s)
      else if w = ascii ''FETCH'' then map_option (Pair False) (fetch s)
      else if w = ascii ''EXIT'' then Some (True, printf ''Exiting peer application.\<newline>'' [] s)
      else Some (False, printf ''Unknown command. Please try again.\<newline>'' [] s))"

partial_function (option) command_loop :: "peer \<Rightarrow> peer option" where
  "command_loop s =
     (let s1 = printf ''Enter a command: \<newline>'' [] s in
      case scanf_word 9 (input s1) of
        None \<Rightarrow> None
      | Some (w, rest) \<Rightarrow>
          (case run_command (c_str w) (s1\<lparr>input := rest\<rparr>) of
             None \<Rightarrow> None
           | Some (stop, s2) \<Rightarrow> if stop then Some s2 else command_loop s2))"

declare command_loop.simps [code]

definition peer_options :: "peer \<Rightarrow> peer option" where
  "peer_options s =
     command_loop
       (printf ''EXIT: close the peer application.\<newline>\<newline>'' []
         (printf ''FETCH: fetch a file from another peer and save it locally.\<newline>'' []
           (printf ''SEARCH: reads a file name from the terminal, print peer info.\<newline>'' []
             (printf ''PUBLISH: send a PUBLISH request to the registry.\<newline>'' []
               (printf ''JOIN: sends a JOIN request to the registry.\<newline>'' []
                 (printf ''\<newline>Available Commands: \<newline>'' [] s))))))"

definition close_app :: "peer \<Rightarrow> nat \<times> peer" where
  "close_app s =
     (let s1 = (if sock s \<noteq> - 1 then snd (sys_close (sock s) s) else s)
      in (0, printf ''Exiting peer application.\<newline>'' [] s1))"

text \<open>
  \<open>main\<close> with the four arguments; \<open>pid\<close> and \<open>port\<close> are the values of \<open>atoi\<close>, \<open>host\<close> the
  first address \<open>gethostbyname\<close> gives. The result is the exit status.
\<close>

definition peer_main ::
  "string list \<Rightarrow> int \<Rightarrow> int \<Rightarrow> u32 option \<Rightarrow> peer \<Rightarrow> (nat \<times> peer) option" where
  "peer_main argv pid port host s =
     (if length argv \<noteq> 4 then
        Some (1, eprint (vformat ''Usage: %s <registry IP> <registry port> <peer ID>\<newline>''
          [AStr (argv ! 0)]) s)
      else case sys_socket (s\<lparr>peer_id := word_of_int pid\<rparr>) of (fd, s1) \<Rightarrow>
        (let s2 = s1\<lparr>sock := fd\<rparr> in
         if fd < 0 then Some (1, perror ''Failed to create socket'' s2)
         else case host of
           None \<Rightarrow> Some (1, eprint ''ERROR: No such host\<newline>'' s2)
         | Some a \<Rightarrow>
             (let addr = \<lparr>sa_family = 2, sin_port = htons (word_of_int port), sin_addr = a\<rparr>
              in case sys_status a_connect fd (s2\<lparr>dialed := dialed s2 @ [addr]\<rparr>) of (r, s3) \<Rightarrow>
                   if r < 0 then Some (1, perror ''Failed to connect to registry'' s3)
                   else case peer_options (printf ''Connected to registry at %s:%s\<newline>''
                          [AStr (argv ! 1), AStr (argv ! 2)] s3) of
                     None \<Rightarrow> None
                   | Some s4 \<Rightarrow> Some (0, snd (sys_close (sock s4) s4)))))"

end
