(* ===== verification/PeerFacts.thy ===== *)
theory PeerFacts
  imports Peer "HOL-Library.Sublist"
begin

text \<open>
  Lemmas on \<open>program_03/peer.c\<close>: what the directory loop of \<open>publish\<close> packs, the address
  conversion \<open>inet_pton\<close> after \<open>inet_ntop\<close>, the receive loop of \<open>fetch\<close> and the behaviour of
  the command loop at end of file.
\<close>

section \<open>The directory loop\<close>

definition wire_names :: "byte list list \<Rightarrow> byte list" where
  "wire_names ws = concat (map (\<lambda>w. w @ [0]) ws)"

lemma wire_names_simps [simp]:
  "wire_names [] = []" "wire_names (w # ws) = w @ 0 # wire_names ws"
  "wire_names (us @ ws) = wire_names us @ wire_names ws"
  by (simp_all add: wire_names_def)

definition regular :: "(byte list \<times> bool) list \<Rightarrow> byte list list" where
  "regular es = map fst (filter snd es)"

lemma pack_names_spec:
  assumes "pack_names es (wire_names us) (length us) = (p, n, full)" "5 + length (wire_names us) < 1200"
  shows "\<exists>ws. p = wire_names (us @ ws) \<and> n = length (us @ ws) \<and> 5 + length p < 1200 \<and>
    prefix ws (regular es) \<and> (full \<longleftrightarrow> ws \<noteq> regular es)"
  using assms
proof (induction es arbitrary: us)
  case Nil
  then show ?case by (auto simp: regular_def intro: exI [of _ "[]"])
next
  case (Cons e es)
  obtain w reg where e: "e = (w, reg)" by fastforce
  show ?case
  proof (cases reg)
    case False
    with Cons e show ?thesis by (simp add: regular_def)
  next
    case True
    show ?thesis
    proof (cases "5 + length (wire_names us) + length w + 1 < 1200")
      case False
      with Cons.prems e True show ?thesis by (auto simp: regular_def intro: exI [of _ "[]"])
    next
      case fits: True
      have "pack_names es (wire_names (us @ [w])) (length (us @ [w])) = (p, n, full)"
        using Cons.prems e True fits by simp
      from Cons.IH [OF this] fits obtain ws where ws: "p = wire_names ((us @ [w]) @ ws)"
        "n = length ((us @ [w]) @ ws)" "5 + length p < 1200" "prefix ws (regular es)"
        "full \<longleftrightarrow> ws \<noteq> regular es" by auto
      then show ?thesis
        using e True by (intro exI [of _ "w # ws"]) (simp add: regular_def)
    qed
  qed
qed

lemma pack_names_published:
  assumes "pack_names es [] 0 = (p, n, full)"
  shows "p = wire_names (take n (regular es))" "n \<le> length (regular es)" "length p < 1195"
    "full \<longleftrightarrow> n < length (regular es)"
proof -
  obtain ws where ws: "p = wire_names ws" "n = length ws" "5 + length p < 1200"
    "prefix ws (regular es)" "full \<longleftrightarrow> ws \<noteq> regular es"
    using pack_names_spec [of es "[]" p n full] assms by auto
  then obtain zs where "regular es = ws @ zs" by (auto simp: prefix_def)
  with ws show "p = wire_names (take n (regular es))" "n \<le> length (regular es)" "length p < 1195"
    "full \<longleftrightarrow> n < length (regular es)" by auto
qed

section \<open>Dotted decimal\<close>

lemma digits_val_append: "digits_val (ds @ [c]) = 10 * digits_val ds + (of_char c - 48)"
  by (simp add: digits_val_def)

lemma digit_char: "d < 10 \<Longrightarrow> is_digit (char_of (48 + d)) \<and> of_char (char_of (48 + d) :: char) = 48 + (d :: nat)"
  by (simp add: is_digit_def)

lemma dec_digits: "digits_val (dec n) = n \<and> (\<forall>c\<in>set (dec n). is_digit c) \<and> dec n \<noteq> []"
proof (induction n rule: dec.induct)
  case (1 n)
  show ?case
  proof (cases "n < 10")
    case True
    then have "dec n = [char_of (48 + n)]" by (simp add: dec.simps [of n])
    with True digit_char [of n] show ?thesis by (simp add: digits_val_def)
  next
    case False
    then have d: "dec n = dec (n div 10) @ [char_of (48 + n mod 10)]" by (simp add: dec.simps [of n])
    have "n mod 10 < 10" by simp
    note m = digit_char [OF this]
    have "digits_val (dec n) = 10 * (n div 10) + n mod 10"
      using 1 False m by (simp add: d digits_val_append)
    with 1 False m show ?thesis by (simp add: d)
  qed
qed

lemma octet_dec:
  assumes "n < 256" "rest = [] \<or> \<not> is_digit (hd rest)"
  shows "octet (dec n @ rest) = Some (word_of_nat n, rest)"
proof -
  note d = dec_digits [of n]
  have t: "takeWhile is_digit (dec n @ rest) = dec n" "dropWhile is_digit (dec n @ rest) = rest"
    using d assms(2) by (cases rest; simp add: takeWhile_append2 dropWhile_append2)+
  show ?thesis unfolding octet_def t Let_def
    using d dec_length_byte [OF assms(1)] assms(1) by simp
qed

lemma inet_pton_ntop:
  assumes "length a = 4" shows "inet_pton4 (ntop4 a) = Some a"
proof -
  obtain w x y z where a: "a = [w, x, y, z]"
    using assms by (auto simp: numeral_eq_Suc length_Suc_conv)
  have b: "unat v < 256" for v :: byte using unsigned_less [of v, where 'a = nat] by simp
  have dot: "\<not> is_digit CHR ''.''" by (simp add: is_digit_def)
  have o1: "octet (dec (unat v) @ CHR ''.'' # r) = Some (v, CHR ''.'' # r)" for v :: byte and r
    using octet_dec [OF b, of "CHR ''.'' # r" v] dot by simp
  have o2: "octet (dec (unat v)) = Some (v, [])" for v :: byte
    using octet_dec [OF b, of "[]" v] by simp
  have "inet_pton4 (ntop4 a) = octets (Suc (Suc (Suc (Suc 0)))) (ntop4 a)"
    by (simp add: inet_pton4_def numeral_eq_Suc)
  then show ?thesis by (simp add: ntop4_def a o1 o2)
qed

lemma u32_at_bytes: "u32_at (bytes_of_u32 w) = w"
  by (simp add: u32_at_def bytes_of_u32_def codec_simps)

lemma peer_address_ntop:
  "peerIPStrGlobal s = ntop4 (bytes_of_u32 ip) \<Longrightarrow>
     peer_address s = \<lparr>sa_family = 2, sin_port = htons (peerPortGlobal s), sin_addr = ip\<rparr>"
  by (simp add: peer_address_def inet_pton_ntop bytes_of_u32_def)
     (simp add: u32_at_bytes flip: bytes_of_u32_def)

section \<open>The receive loop\<close>

lemma fetch_loop_chunks:
  assumes "chunks s ds fin" "fd \<in> set (open_fds s)"
  shows "fetch_loop fd name first acc s =
    Some (ending fin,
      acc @ concat (case map (take 4096) ds of [] \<Rightarrow> [] | c # cs \<Rightarrow> (if first then drop 1 c else c) # cs),
      s\<lparr>tick := tick s + length ds + 1\<rparr>)"
  using assms
proof (induction ds arbitrary: s first acc)
  case Nil
  then show ?case
    by (subst fetch_loop.simps) (auto simp: chunks_def sys_recv_def ending_def)
next
  case (Cons d ds)
  note c = chunks_Cons [OF Cons.prems(1)]
  have r: "sys_recv fd 4096 s = ((int (length (take 4096 d)), take 4096 d), step_os s)"
    using c Cons.prems(2) by (simp add: sys_recv_def)
  have "d \<noteq> []" using c by simp
  then have pos: "0 < int (length (take 4096 d))" by simp
  have "fetch_loop fd name first acc s =
      fetch_loop fd name False (acc @ (if first then drop 1 (take 4096 d) else take 4096 d)) (step_os s)"
    using pos by (subst fetch_loop.simps) (simp add: r)
  also have "\<dots> = Some (ending fin,
      (acc @ (if first then drop 1 (take 4096 d) else take 4096 d)) @ concat (map (take 4096) ds),
      s\<lparr>tick := tick s + length (d # ds) + 1\<rparr>)"
    using Cons.IH [of "step_os s" False] c Cons.prems(2) by (cases ds) simp_all
  finally show ?case by simp
qed

section \<open>End of file\<close>

lemma scanf_eof: "dropWhile isspace inp = [] \<Longrightarrow> scanf_word n inp = None"
  by (simp add: scanf_word_def)

lemma input_printf [simp]: "input (printf fmt args s) = input s"
  by (simp add: printf_def)

lemma command_loop_eof: "dropWhile isspace (input s) = [] \<Longrightarrow> command_loop s = None"
  by (simp add: command_loop.simps [of s] scanf_eof)

lemma peer_options_eof: "dropWhile isspace (input s) = [] \<Longrightarrow> peer_options s = None"
  by (simp add: peer_options_def command_loop_eof)

end
