(* ===== verification/Proto.thy ===== *)
theory Proto
  imports RegOutcome PeerFacts
begin

text \<open>
  The wire protocol between \<open>program_03/peer.c\<close> and \<open>program_04/registry.c\<close>: what the peer
  encodes is what the registry's pointer arithmetic decodes, for each of the three requests,
  and the ten bytes of the registry's answer are what the peer's three receives decode.
  \<open>message_codec\<close> is the contract of one kind of request.
\<close>

section \<open>The contract of a request\<close>

text \<open>
  \<open>dec buf n\<close> reads a request of \<open>n\<close> bytes from the receive buffer, whose other bytes are
  whatever the stack held.
\<close>

locale message_codec =
  fixes enc :: "'m \<Rightarrow> byte list"
    and dec_msg :: "(nat \<Rightarrow> byte) \<Rightarrow> nat \<Rightarrow> 'm option"
    and wf :: "'m \<Rightarrow> bool"
  assumes decode_encode: "wf m \<Longrightarrow> dec_msg (recv_buf (enc m) old) (length (enc m)) = Some m"
begin

lemma enc_inject: "wf m \<Longrightarrow> wf n \<Longrightarrow> enc m = enc n \<Longrightarrow> m = n"
  using decode_encode by (metis option.inject)

lemma stack_irrelevant:
  "wf m \<Longrightarrow> dec_msg (recv_buf (enc m) old) (length (enc m)) =
     dec_msg (recv_buf (enc m) old') (length (enc m))"
  by (simp add: decode_encode)

end

section \<open>The buffer of a request\<close>

lemma recv_buf_nth: "k < length d \<Longrightarrow> recv_buf d old k = d ! k"
  by (simp add: recv_buf_def)

lemma region_recv_buf:
  "k + n \<le> length d \<Longrightarrow> region (recv_buf d old) k n = take n (drop k d)"
  by (rule nth_equalityI) (auto simp: recv_buf_def)

lemma be32_in_buffer:
  "length p = 1 \<Longrightarrow> ntohl (u32_of_bytes (recv_buf (p @ be32 v @ r) old 1) (recv_buf (p @ be32 v @ r) old 2)
      (recv_buf (p @ be32 v @ r) old 3) (recv_buf (p @ be32 v @ r) old 4)) = v"
  using be32_decode [of v] by (simp add: recv_buf_def nth_append)

section \<open>JOIN\<close>

definition join_decode :: "(nat \<Rightarrow> byte) \<Rightarrow> nat \<Rightarrow> u32 option" where
  "join_decode buf n = (if buf 0 = 0 \<and> n = 5 then Some (join_id buf) else None)"

interpretation join_codec: message_codec join_msg join_decode "\<lambda>_. True"
proof
  fix m :: u32 and old
  have "ntohl (u32_of_bytes (recv_buf (join_msg m) old 1) (recv_buf (join_msg m) old 2)
      (recv_buf (join_msg m) old 3) (recv_buf (join_msg m) old 4)) = m"
    using be32_in_buffer [of "[0]" m "[]" old] by (simp add: join_msg_def)
  then show "join_decode (recv_buf (join_msg m) old) (length (join_msg m)) = Some m"
    by (simp add: join_decode_def join_id_def recv_buf_def) (simp add: join_msg_def)
qed

section \<open>PUBLISH\<close>

definition publish_wire :: "byte list list \<Rightarrow> byte list" where
  "publish_wire ws = publish_msg (length ws) (wire_names ws)"

definition publish_decode :: "(nat \<Rightarrow> byte) \<Rightarrow> nat \<Rightarrow> byte list list option" where
  "publish_decode buf n = (if buf 0 = 1 \<and> 5 \<le> n then publish_names buf (n - 1) else None)"

lemma publish_count_msg:
  "n < 2 ^ 32 \<Longrightarrow> publish_count (recv_buf (publish_msg n p) old) = n"
  using be32_in_buffer [of "[1]" "word_of_nat n" p old]
  by (simp add: publish_count_def publish_msg_def unsigned_of_nat take_bit_nat_eq_self)

lemma length_publish_msg [simp]: "length (publish_msg n p) = 5 + length p"
  by (simp add: publish_msg_def)

lemma publish_region: "region (recv_buf (publish_msg n p) old) 5 (length p) = p"
  using region_recv_buf [of 5 "length p" "publish_msg n p" old]
  by (simp add: publish_msg_def be32_def)

definition publishable :: "byte list list \<Rightarrow> bool" where
  "publishable ws \<longleftrightarrow> (\<forall>w\<in>set ws. name_ok w) \<and> length ws < 2 ^ 32"

lemma parse_wire_names: "\<forall>w\<in>set ws. name_ok w \<Longrightarrow> parse_names (length ws) (wire_names ws) = Some ws"
  using parse_names_encode [of ws "[]"] by (simp add: wire_names_def name_ok_def name_char_def)

interpretation publish_codec: message_codec publish_wire publish_decode publishable
proof
  fix m old assume "publishable m"
  then show "publish_decode (recv_buf (publish_wire m) old) (length (publish_wire m)) = Some m"
    using publish_region [of "length m" "wire_names m" old] parse_wire_names [of m]
    by (simp add: publish_decode_def publish_wire_def publish_names_def publishable_def publish_count_msg)
      (simp add: recv_buf_def publish_msg_def)
qed

section \<open>SEARCH\<close>

definition search_decode :: "(nat \<Rightarrow> byte) \<Rightarrow> nat \<Rightarrow> byte list option" where
  "search_decode buf n = (if buf 0 = 2 then buf_str buf 1 else None)"

definition query_ok :: "byte list \<Rightarrow> bool" where
  "query_ok w \<longleftrightarrow> 0 \<notin> set w \<and> length w \<le> 100"

lemma search_msg_buf:
  "recv_buf (search_msg w) old 0 = 2" "j < length w \<Longrightarrow> recv_buf (search_msg w) old (Suc j) = w ! j"
  "recv_buf (search_msg w) old (Suc (length w)) = 0"
  by (simp_all add: recv_buf_def search_msg_def nth_append)

lemma search_buf_str: "query_ok w \<Longrightarrow> buf_str (recv_buf (search_msg w) old) 1 = Some w"
proof (rule buf_str_region)
  assume q: "query_ok w"
  show "\<forall>j<length w. recv_buf (search_msg w) old (1 + j) = w ! j \<and> w ! j \<noteq> 0"
    using q search_msg_buf(2) [of _ w old] by (auto simp: query_ok_def) (metis nth_mem)
  show "recv_buf (search_msg w) old (1 + length w) = 0" using search_msg_buf(3) [of w old] by simp
  show "1 + length w < BUFF_SIZE" using q by (simp add: query_ok_def BUFF_SIZE_def)
qed

interpretation search_codec: message_codec search_msg search_decode query_ok
  by unfold_locales (simp add: search_decode_def search_msg_buf search_buf_str del: One_nat_def)

lemma search_no_complaints:
  assumes "\<forall>b\<in>set w. b < 128"
  shows "complaints (recv_buf (search_msg w) old) (Suc (length w)) = 0"
proof -
  have "\<not> 128 \<le> recv_buf (search_msg w) old (1 + k)" if "k < Suc (length w)" for k
  proof (cases "k < length w")
    case True
    with assms have "w ! k < 128" by simp
    with True show ?thesis by (simp add: search_msg_buf(2) not_le)
  next
    case False
    with that have "k = length w" by simp
    then show ?thesis by (simp add: search_msg_buf(3))
  qed
  then have "filter (\<lambda>k. recv_buf (search_msg w) old (1 + k) \<ge> 128) [0..<Suc (length w)] = []"
    by (simp add: filter_empty_conv del: upt_Suc)
  then show ?thesis by (simp add: complaints_def count_if_def search_msg_buf del: upt_Suc)
qed

section \<open>The answer\<close>

lemma u16_at_bytes: "u16_at (bytes_of_u16 w) = w"
  by (simp add: u16_at_def bytes_of_u16_def codec_simps)

lemma ntohl_u32_at_htonl: "ntohl (u32_at (bytes_of_u32 (htonl w))) = w"
  unfolding u32_at_bytes by (rule ntohl_htonl)

lemma received_full: "length d = n \<Longrightarrow> received d old n = d"
  by (rule nth_equalityI) (simp_all add: received_def)

lemma found_response_parts:
  assumes "sa_family (c_addr c) = AF_INET"
  shows "take 4 (found_response c) = bytes_of_u32 (htonl (c_id c))"
    "take 4 (drop 4 (found_response c)) = bytes_of_u32 (sin_addr (c_addr c))"
    "drop 8 (found_response c) = bytes_of_u16 (sin_port (c_addr c))"
  using assms by (simp_all add: found_response_def bytes_of_u32_def)

text \<open>The peer decodes an answer that its three receives deliver.\<close>

definition delivers :: "byte list \<Rightarrow> peer \<Rightarrow> bool" where
  "delivers r s \<longleftrightarrow>
     sock s \<in> set (open_fds s) \<and> (\<exists>n. a_send (env s) (tick s) = SendTake n) \<and>
     a_recv (env s) (tick s + 1) = RecvData (take 4 r) \<and>
     a_recv (env s) (tick s + 2) = RecvData (take 4 (drop 4 r)) \<and>
     a_recv (env s) (tick s + 3) = RecvData (drop 8 r)"

lemma query_registry_delivered:
  assumes "delivers r s" "length r = 10"
  shows "\<exists>s'. query_registry w s =
      (Some (ntohl (u32_at (take 4 r)), u32_at (take 4 (drop 4 r)), ntohs (u16_at (drop 8 r))), s') \<and>
    peerIPStrGlobal s' = peerIPStrGlobal s \<and> peerPortGlobal s' = peerPortGlobal s \<and> open_fds s' = open_fds s"
proof -
  obtain n where n: "a_send (env s) (tick s) = SendTake n" using assms(1) by (auto simp: delivers_def)
  define m where "m = min n (length (search_msg w))"
  define s1 where "s1 = (step_os s)\<lparr>sent := (sent s)(sock s := sent s (sock s) @ take m (search_msg w))\<rparr>"
  define s2 where "s2 = step_os s1"
  define s3 where "s3 = step_os s2"
  define s4 where "s4 = step_os s3"
  note d = s4_def s3_def s2_def s1_def
  have snd: "sys_send (sock s) (search_msg w) s = (int m, s1)"
    using assms(1) n by (simp add: sys_send_def delivers_def Let_def m_def s1_def)
  have r: "sys_recv (sock s) 4 s1 = ((4, take 4 r), s2)"
    "sys_recv (sock s) 4 s2 = ((4, take 4 (drop 4 r)), s3)"
    "sys_recv (sock s) 2 s3 = ((2, drop 8 r), s4)"
    using assms by (simp_all add: sys_recv_def d delivers_def eval_nat_numeral)
  have f: "received (take 4 r) old 4 = take 4 r" "received (take 4 (drop 4 r)) old 4 = take 4 (drop 4 r)"
    "received (drop 8 r) old 2 = drop 8 r" for old
    using assms(2) by (simp_all add: received_full)
  have k: "sock s1 = sock s" "sock s2 = sock s" "sock s3 = sock s" by (simp_all add: d)
  have "query_registry w s =
      (Some (ntohl (u32_at (take 4 r)), u32_at (take 4 (drop 4 r)), ntohs (u16_at (drop 8 r))), s4)"
    by (simp add: query_registry_def snd r f k)
  then show ?thesis by (simp add: d)
qed

end
