(* ===== verification/ProtoProps.thy ===== *)
theory ProtoProps
  imports Proto RegDemo
begin

text \<open>
  End-to-end properties of the peer and the registry: each request the peer sends has the
  intended effect on the registry's table, and each answer is what the peer works with.
\<close>

section \<open>Requests\<close>



text \<open>
  C29: The JOIN of a peer whose identifier differs from that of the first active client gets
  it registered under exactly its identifier.
\<close>

theorem join_reaches_registry:
  assumes "table_ok s" "i \<in> active_slots s" "sa_family (c_addr (client_at s i)) = AF_INET"
    "first_active s = Some k" "c_id (client_at s k) \<noteq> pid"
  shows "\<exists>s'. dispatch i (recv_buf (join_msg pid) old) (length (join_msg pid)) s = Some s' \<and>
    c_id (client_at s' i) = pid \<and> c_type (client_at s' i) = CLIENT_JOINED"
proof -
  let ?buf = "recv_buf (join_msg pid) old"
  have d: "join_decode ?buf (length (join_msg pid)) = Some pid" by (rule join_codec.decode_encode) simp
  then have b: "?buf 0 = 0" "join_id ?buf = pid" by (simp_all add: join_decode_def split: if_splits)
  obtain s' where s': "handle_join i ?buf 4 s = Some s'"
    using handle_join_total [of s i ?buf 4] assms(3) by blast
  have "clients s' = (clients s)[i := joined_as pid (client_at s i)]"
    using handle_join_effect [OF s'] assms(4,5) b by simp
  moreover have "i < length (clients s)" using assms(1,2) by (simp add: table_ok_def active_slots_def)
  moreover have "dispatch i ?buf (length (join_msg pid)) s = Some s'"
    using s' b(1) by (simp add: dispatch_def) (simp add: join_msg_def)
  ultimately show ?thesis by simp
qed

theorem join_reaches_registry_witness:
  "\<exists>s'. dispatch 1 (recv_buf (join_msg 21) (\<lambda>k. 255)) 5 demo_server = Some s' \<and>
     c_id (client_at s' 1) = 21"
proof -
  have "first_active demo_server = Some 0" by (simp add: first_active_def upt_rec demo_client_def)
  moreover have "length (join_msg 21) = 5" by (simp add: join_msg_def)
  ultimately show ?thesis
    using join_reaches_registry [of demo_server 1 0 21 "\<lambda>k. 255"] demo_table demo_active
    by (auto simp: demo_peer_def demo_client_def demo_addr_def AF_INET_def)
qed





text \<open>
  C9: A SEARCH of a joined peer for an ASCII name of at most 98 bytes is answered with the
  ten bytes of the answer and no complaint; for a longer name, which the peer accepts up to
  100 bytes, the registry sends nothing at all.
\<close>

theorem search_reaches_registry:
  assumes "table_ok s" "c_type (client_at s i) \<noteq> CLIENT_UNKNOWN" "send_works s"
    "c_sock (client_at s i) \<in> set (open_fds s)" "0 \<notin> set w" "\<forall>b\<in>set w. b < 128" "length w \<le> 100"
  shows "\<exists>s'. dispatch i (recv_buf (search_msg w) old) (length (search_msg w)) s = Some s' \<and>
    sent s' = (sent s)(c_sock (client_at s i) :=
      sent s (c_sock (client_at s i)) @ (if length w \<le> 98 then answer s w else []))"
proof -
  let ?buf = "recv_buf (search_msg w) old"
  have q: "query_ok w" using assms(5,7) by (simp add: query_ok_def)
  have d: "dispatch i ?buf (length (search_msg w)) s = handle_search i ?buf (Suc (length w)) s"
    using search_msg_buf(1) [of w old] by (simp add: dispatch_def) (simp add: search_msg_def)
  show ?thesis
  proof (cases "length w \<le> 98")
    case True
    have "reachable_client i s" using assms(3,4) by (simp add: reachable_client_def)
    from handle_search_works [OF assms(1,2) _ _ search_buf_str [OF q] this, of "Suc (length w)" old] True
    obtain s' where "handle_search i ?buf (Suc (length w)) s = Some s'"
      "emits (c_sock (client_at s i)) (zeros (complaints ?buf (Suc (length w))) @ answer s w) s' s" by auto
    with True search_no_complaints [OF assms(6), of old] show ?thesis by (simp add: d emits_def)
  next
    case False
    with assms(2) show ?thesis by (simp add: d handle_search_def)
  qed
qed

theorem search_reaches_registry_witness:
  "\<exists>s'. dispatch 0 (recv_buf (search_msg [97, 98]) (\<lambda>k. 255)) 4 demo_server = Some s'"
proof -
  have "length (search_msg [97, 98]) = 4" by (simp add: search_msg_def)
  then show ?thesis
    using search_reaches_registry [of demo_server 0 "[97, 98]" "\<lambda>k. 255"] demo_table demo_works(1)
    by (auto simp: demo_client_def)
qed

section \<open>Answers\<close>


text \<open>A peer whose registry answers with the record of \<open>demo_client\<close>.\<close>

definition demo_asker :: peer where
  "demo_asker = os.extend (demo_os\<lparr>open_fds := [3, 0, 1, 2], env := demo_env\<lparr>a_recv :=
       \<lambda>n. RecvData (if n = 1 then [0, 0, 0, 7] else if n = 2 then [0x7f, 0, 0, 1] else [0x12, 0x34])\<rparr>\<rparr>)
     (peer.fields 3 21 [] 0 [102, 10] [] None (\<lambda>_. True) (\<lambda>_. None) [])"

lemma demo_asker_delivers:
  "delivers (found_response demo_client) demo_asker" "sa_family (c_addr demo_client) = AF_INET"
  by (simp_all add: delivers_def demo_asker_def os.extend_def peer.fields_def demo_os_def demo_env_def
      found_response_def demo_client_def demo_addr_def AF_INET_def bytes_of_u32_def bytes_of_u16_def
      htonl_def u32_of_bytes_def)


lemma htons_htons: "htons (htons p) = p"
  by (simp add: htons_def codec_simps)

text \<open>
  C28: After a successful lookup, FETCH connects to exactly the address and port the registry
  recorded for the owner: the detour through the dotted text and host order loses nothing.
\<close>

theorem fetch_dials_owner:
  assumes "delivers (found_response c) s" "sa_family (c_addr c) = AF_INET"
    "c_id c \<noteq> 0" "sin_addr (c_addr c) \<noteq> 0" "ntohs (sin_port (c_addr c)) \<noteq> 0"
  shows "peer_address (searchForFetch w s) =
    \<lparr>sa_family = AF_INET, sin_port = sin_port (c_addr c), sin_addr = sin_addr (c_addr c)\<rparr>"
proof -
  obtain s1 where "query_registry w s =
      (Some (c_id c, sin_addr (c_addr c), ntohs (sin_port (c_addr c))), s1)"
    using query_registry_delivered [OF assms(1) length_found_response, of w] assms(2)
    by (auto simp: found_response_parts ntohl_u32_at_htonl ntohl_htonl u32_at_bytes u16_at_bytes)
  with assms(3-5) have f: "searchForFetch w s = s1\<lparr>peerIPStrGlobal := ntop4 (bytes_of_u32 (sin_addr (c_addr c))),
      peerPortGlobal := ntohs (sin_port (c_addr c))\<rparr>"
    by (simp add: searchForFetch_def)
  show ?thesis
    by (subst peer_address_ntop [of _ "sin_addr (c_addr c)"]) (simp_all add: f ntohs_def htons_htons AF_INET_def)
qed

theorem fetch_dials_owner_witness:
  "peer_address (searchForFetch [97, 98] demo_asker) = demo_addr"
proof -
  have "c_id demo_client \<noteq> 0" "sin_addr (c_addr demo_client) \<noteq> 0"
    "ntohs (sin_port (c_addr demo_client)) \<noteq> 0"
    by (simp_all add: demo_client_def demo_addr_def ntohs_def htons_def u16_of_bytes_def)
  from fetch_dials_owner [OF demo_asker_delivers this, of "[97, 98]"] show ?thesis
    by (simp add: demo_client_def demo_addr_def AF_INET_def)
qed

text \<open>
  C27: A completed transfer saves the bytes of the stream without the leading result code,
  however they were cut into chunks, and closes the peer's socket.
\<close>

theorem fetch_saves_stream:
  assumes "chunks s ds (RecvData [])" "\<forall>d\<in>set ds. length d \<le> 4096" "fd \<in> set (open_fds s)" "can_write s name"
  shows "\<exists>s'. fetch_file name fd s = Some s' \<and>
    saved s' = (saved s)(name \<mapsto> drop 1 (concat ds)) \<and> fd \<notin> set (open_fds s')"
proof -
  let ?s = "s\<lparr>saved := (saved s)(name \<mapsto> [])\<rparr>"
  have t: "map (take 4096) ds = ds" using assms(2) by (simp add: map_idI)
  have c: "concat (case ds of [] \<Rightarrow> [] | d # cs \<Rightarrow> (if True then drop 1 d else d) # cs) = drop 1 (concat ds)"
  proof (cases ds)
    case (Cons d cs)
    then have "d \<noteq> []" using assms(1) by (auto simp: chunks_def)
    with Cons show ?thesis by (cases d) simp_all
  qed simp
  have "chunks ?s ds (RecvData [])" using assms(1) by (simp add: chunks_def)
  from fetch_loop_chunks [OF this, of fd name True "[]"] assms(3)
  have "fetch_loop fd name True [] ?s = Some (0, drop 1 (concat ds), ?s\<lparr>tick := tick s + length ds + 1\<rparr>)"
    by (simp add: t c ending_def)
  with assms(3,4) show ?thesis
    by (simp add: fetch_file_def Let_def sys_close_def printf_def)
qed

theorem fetch_saves_stream_witness:
  "\<exists>s'. fetch_file [102] 3 (demo_asker\<lparr>env := demo_env\<lparr>a_recv := \<lambda>n. if n = 0 then RecvData [0, 65, 66]
        else if n = 1 then RecvData [67] else RecvData []\<rparr>\<rparr>) = Some s' \<and>
     saved s' [102] = Some [65, 66, 67]"
proof -
  let ?s = "demo_asker\<lparr>env := demo_env\<lparr>a_recv := \<lambda>n. if n = 0 then RecvData [0, 65, 66]
        else if n = 1 then RecvData [67] else RecvData []\<rparr>\<rparr>"
  have "chunks ?s [[0, 65, 66], [67]] (RecvData [])"
    by (simp add: chunks_def demo_asker_def os.extend_def peer.fields_def demo_os_def less_Suc_eq
        numeral_2_eq_2)
  from fetch_saves_stream [OF this, of 3 "[102]"] show ?thesis
    by (auto simp: demo_asker_def os.extend_def peer.fields_def demo_os_def)
qed

section \<open>Limits of the peer\<close>

text \<open>
  After a successful connect, \<open>fetch\<close> overruns \<open>fetchBuffer\<close> exactly for names of 100
  bytes or more, which \<open>scanf("%100s")\<close> lets through; for shorter names the request sent is
  the action code, the name and a NUL.
\<close>

theorem fetch_overrun:
  assumes "fd \<in> set (open_fds s)" "a_connect (env s) (tick s)" "a_send (env s) (Suc (tick s)) = SendTake m"
    "102 \<le> m" "\<not> can_write s name"
  shows "(fetch_from name fd s = None \<longleftrightarrow> 100 \<le> length name) \<and>
    (length name < 100 \<longrightarrow>
       sent (the (fetch_from name fd s)) fd = sent s fd @ 3 # name @ [0])"
  using assms by (auto simp: fetch_from_def sys_status_def fetch_msg_def sys_send_def Let_def
      fetch_file_def sys_close_def perror_def)

theorem fetch_overrun_witness:
  "fetch_from (replicate 100 97) 3 (demo_asker\<lparr>can_write := \<lambda>_. False,
     env := demo_env\<lparr>a_send := \<lambda>n. SendTake 200\<rparr>\<rparr>) = None"
  using fetch_overrun [of 3 "demo_asker\<lparr>can_write := \<lambda>_. False, env := demo_env\<lparr>a_send := \<lambda>n. SendTake 200\<rparr>\<rparr>"
      200 "replicate 100 97"]
  by (simp add: demo_asker_def os.extend_def peer.fields_def demo_os_def demo_env_def)



end
