(* ===== verification/PeerTypes.thy ===== *)
theory PeerTypes
  imports PeerFacts Machine
begin

text \<open>
  The typing of what the peer of \<open>program_03\<close> says: a grammar of requests, and that every turn
  of the command loop keeps the stream to the registry a sequence of well-formed requests,
  whatever is typed and whatever the registry and the other peers answer.
\<close>

section \<open>Requests\<close>

inductive request :: "byte list \<Rightarrow> bool" where
  req_join: "request (0 # be32 i)"
| req_publish: "\<forall>w\<in>set ws. 0 \<notin> set w \<Longrightarrow> 5 + length (wire_names ws) < 1200 \<Longrightarrow>
    request (1 # be32 (word_of_nat (length ws)) @ wire_names ws)"
| req_search: "0 \<notin> set w \<Longrightarrow> length w \<le> 100 \<Longrightarrow> request (2 # w @ [0])"

inductive_simps request_join_iff: "request (0 # m)"
inductive_simps request_search_iff: "request (2 # m)"

lemma request_length: "request m \<Longrightarrow> length m \<le> 1200"
  by (induction rule: request.induct) auto

definition wire_typed :: "byte list \<Rightarrow> bool" where
  "wire_typed bs \<longleftrightarrow> (\<exists>ms. bs = concat ms \<and> (\<forall>m\<in>set ms. request m))"

lemma wire_typed_Nil [simp]: "wire_typed []"
  by (auto simp: wire_typed_def intro: exI [of _ "[]"])

lemma wire_typed_snoc:
  assumes "wire_typed bs" "request m" shows "wire_typed (bs @ m)"
proof -
  from assms(1) obtain ms where "bs = concat ms" "\<forall>m\<in>set ms. request m" by (auto simp: wire_typed_def)
  with assms(2) show ?thesis unfolding wire_typed_def by (intro exI [of _ "ms @ [m]"]) auto
qed

section \<open>Well-typed peers\<close>

definition peer_typed :: "peer \<Rightarrow> bool" where
  "peer_typed s \<longleftrightarrow>
     sock s \<in> set (open_fds s) \<and> wire_typed (sent s (sock s)) \<and>
     (\<forall>es. shared s = Some es \<longrightarrow> (\<forall>e\<in>set es. 0 \<notin> set (fst e))) \<and>
     (\<forall>n m. a_send (env s) n = SendTake m \<longrightarrow> 1200 \<le> m)"

text \<open>What an operation must keep for the peer to stay well typed.\<close>

definition same_wire :: "peer \<Rightarrow> peer \<Rightarrow> bool" where
  "same_wire s t \<longleftrightarrow> env t = env s \<and> sock t = sock s \<and> shared t = shared s \<and>
     sock s \<in> set (open_fds t) \<and> sent t (sock s) = sent s (sock s)"

lemma same_wire_typed: "same_wire s t \<Longrightarrow> peer_typed s \<Longrightarrow> peer_typed t"
  by (simp add: same_wire_def peer_typed_def)

lemma same_wire_trans: "same_wire s t \<Longrightarrow> same_wire t u \<Longrightarrow> same_wire s u"
  by (simp add: same_wire_def)

lemma same_wire_refl: "sock s \<in> set (open_fds s) \<Longrightarrow> same_wire s s"
  by (simp add: same_wire_def)

lemma peer_open: "peer_typed s \<Longrightarrow> sock s \<in> set (open_fds s)"
  by (simp add: peer_typed_def)

lemma typed_simps [simp]:
  "peer_typed (printf f a s) = peer_typed s" "peer_typed (perror m s) = peer_typed s"
  "peer_typed (eprint m s) = peer_typed s" "peer_typed (s\<lparr>input := i\<rparr>) = peer_typed s"
  "peer_typed (s\<lparr>saved := g\<rparr>) = peer_typed s" "peer_typed (s\<lparr>dialed := d\<rparr>) = peer_typed s"
  "peer_typed (s\<lparr>peerIPStrGlobal := x, peerPortGlobal := y\<rparr>) = peer_typed s"
  by (simp_all add: peer_typed_def printf_def perror_def eprint_def)

lemma sock_simps [simp]:
  "sock (printf f a s) = sock s" "sock (eprint m s) = sock s" "sock (perror m s) = sock s"
  by (simp_all add: printf_def perror_def eprint_def)

lemma send_typed:
  assumes "sys_send (sock s) m s = (r, t)" "request m" "peer_typed s"
  shows "peer_typed t"
proof (cases "a_send (env s) (tick s)")
  case SendFail
  with assms show ?thesis by (auto simp: sys_send_def peer_typed_def split: if_splits)
next
  case (SendTake n)
  with assms(3) request_length [OF assms(2)] have "length m \<le> n" by (fastforce simp: peer_typed_def)
  with assms SendTake show ?thesis
    by (auto simp: sys_send_def peer_typed_def Let_def intro: wire_typed_snoc)
qed

lemma recv_typed: "sys_recv fd n s = (x, t) \<Longrightarrow> peer_typed s \<Longrightarrow> peer_typed t"
  using sys_recv_state [of fd n s x t] by (auto simp: peer_typed_def)

lemma join_typed: "peer_typed s \<Longrightarrow> peer_typed (join s)"
  by (auto simp: join_def join_msg_def intro: send_typed req_join split: prod.splits)

lemma publish_typed:
  assumes "peer_typed s" shows "peer_typed (publish s)"
proof (cases "shared s")
  case (Some es)
  obtain p n full where p: "pack_names es [] 0 = (p, n, full)" using prod_cases3 by blast
  note w = pack_names_published [OF p]
  have "\<forall>w\<in>set (take n (regular es)). 0 \<notin> set w"
    using assms Some by (fastforce simp: peer_typed_def regular_def dest: in_set_takeD)
  then have "request (1 # be32 (word_of_nat (length (take n (regular es)))) @ wire_names (take n (regular es)))"
    using w by (intro req_publish) auto
  then have req: "request (publish_msg n p)" using w by (simp add: publish_msg_def min_absorb2)
  define s1 where "s1 = (if full then eprint ''Buffer full, some files may not be published.\<newline>'' s else s)"
  have s1: "peer_typed s1" using assms by (simp add: s1_def)
  obtain r u where u: "sys_send (sock s1) (publish_msg n p) s1 = (r, u)" by fastforce
  then have "publish s = (if r < 0 then perror ''send'' u
      else printf ''Successfully published %u files.\<newline>'' [AInt (int n)] u)"
    by (simp add: publish_def Some p Let_def flip: s1_def)
  with send_typed [OF u req s1] show ?thesis by simp
qed (use assms in \<open>simp add: publish_def\<close>)

lemma c_str_length: "length (c_str w) \<le> length w"
  unfolding c_str_def by (rule length_takeWhile_le)

lemma search_msg_request: "length w \<le> 100 \<Longrightarrow> request (search_msg (c_str w))"
  unfolding search_msg_def using c_str_length [of w] by (intro req_search c_str_nonzero) simp

lemma query_typed:
  assumes "query_registry (c_str w) s = (x, t)" "length w \<le> 100" "peer_typed s"
  shows "peer_typed t"
  using assms(1,3)
  by (auto simp: query_registry_def dest!: send_typed [OF _ search_msg_request [OF assms(2)]] recv_typed
      split: prod.splits if_splits)

lemma scanf_word_length: "scanf_word n inp = Some (w, rest) \<Longrightarrow> length w \<le> n"
  by (auto simp: scanf_word_def Let_def split: if_splits)

lemma search_typed: "search s = Some t \<Longrightarrow> peer_typed s \<Longrightarrow> peer_typed t"
  by (auto simp: search_def Let_def dest!: scanf_word_length query_typed
      split: option.splits prod.splits if_splits)

lemma searchForFetch_typed:
  "length w \<le> 100 \<Longrightarrow> peer_typed s \<Longrightarrow> peer_typed (searchForFetch (c_str w) s)"
  by (auto simp: searchForFetch_def dest: query_typed split: option.splits prod.splits)

section \<open>FETCH does not touch the stream to the registry\<close>

lemma fetch_loop_state:
  assumes "fetch_loop fd name first acc s = Some (r, c, t)" shows "t = s\<lparr>tick := tick t\<rparr>"
proof -
  have "case res of (r, c, t) \<Rightarrow> t = s\<lparr>tick := tick t\<rparr>"
    if "fetch_loop fd name first acc s = Some res" for res
    using that
  proof (induction rule: fetch_loop.raw_induct [rotated, consumes 1])
    case (1 loop fd name first acc s res)
    obtain n d s1 where n: "sys_recv fd 4096 s = ((n, d), s1)" by (metis surj_pair)
    note s1 = sys_recv_state [OF this]
    show ?case
    proof (cases "n > 0")
      case True
      with 1(2) n have "loop fd name False (acc @ (if first then drop 1 d else d)) s1 = Some res" by simp
      from 1(1) [OF this] s1 show ?thesis by (cases s; cases "snd (snd res)") (auto split: prod.splits)
    next
      case False
      with 1(2) n s1 show ?thesis by auto
    qed
  qed
  with assms show ?thesis by auto
qed

lemma close_other_typed:
  assumes "peer_typed s" "fd \<noteq> sock s" shows "peer_typed (snd (sys_close fd s))"
  using assms by (auto simp: sys_close_def peer_typed_def)

lemma send_other_typed:
  assumes "sys_send fd m s = (r, t)" "peer_typed s" "fd \<noteq> sock s" shows "peer_typed t \<and> sock t = sock s"
  using assms by (auto simp: sys_send_def peer_typed_def Let_def split: if_splits send_ans.splits)

lemma fetch_file_typed:
  assumes "fetch_file name fd s = Some t" "peer_typed s" "fd \<noteq> sock s" shows "peer_typed t"
proof (cases "can_write s name")
  case False
  with assms show ?thesis by (auto simp: fetch_file_def intro: close_other_typed)
next
  case True
  with assms(1) obtain r c s1 where l: "fetch_loop fd name True [] (s\<lparr>saved := (saved s)(name \<mapsto> [])\<rparr>) = Some (r, c, s1)"
    "t = snd (sys_close fd (if r < 0 then perror ''Failed to receive file data'' (s1\<lparr>saved := (saved s1)(name \<mapsto> c)\<rparr>)
      else printf ''File '%s' fetched successfully.\<newline>'' [AStr (chars name)] (s1\<lparr>saved := (saved s1)(name \<mapsto> c)\<rparr>)))"
    by (auto simp: fetch_file_def Let_def split: option.splits)
  from fetch_loop_state [OF l(1)] obtain k where "s1 = s\<lparr>saved := (saved s)(name \<mapsto> []), tick := k\<rparr>"
    by simp
  then have "peer_typed s1" "sock s1 = sock s" using assms(2) by (simp_all add: peer_typed_def)
  then show ?thesis unfolding l(2) by (intro close_other_typed) (simp_all add: assms(3))
qed

lemma fetch_from_typed:
  assumes "fetch_from name fd s = Some t" "peer_typed s" "fd \<noteq> sock s" shows "peer_typed t"
proof -
  define s0 where "s0 = s\<lparr>dialed := dialed s @ [peer_address s]\<rparr>"
  obtain r s1 where r: "sys_status a_connect fd s0 = (r, s1)" by fastforce
  then have "s1 = step_os s0" by (simp add: sys_status_def)
  then have s1: "peer_typed s1" "fd \<noteq> sock s1" using assms(2,3) by (simp_all add: s0_def peer_typed_def)
  obtain q s2 where q: "sys_send fd (fetch_msg name) s1 = (q, s2)" by fastforce
  note s2 = send_other_typed [OF q s1]
  have "fetch_from name fd s =
      (if r < 0 then Some (snd (sys_close fd (perror ''Failed to connect to peer for fetching file'' s1)))
       else if length (fetch_msg name) > 101 then None
       else if q < 0 then Some (snd (sys_close fd (perror ''Failed to send FETCH request'' s2)))
       else fetch_file name fd s2)"
    unfolding fetch_from_def s0_def [symmetric] by (simp add: r q)
  with assms(1) consider
    "t = snd (sys_close fd (perror ''Failed to connect to peer for fetching file'' s1))"
    | "t = snd (sys_close fd (perror ''Failed to send FETCH request'' s2))"
    | "fetch_file name fd s2 = Some t"
    by (metis option.inject option.distinct(1))
  then show ?thesis
  proof cases
    case 3
    from fetch_file_typed [OF this] s1 s2 show ?thesis by simp
  qed (use s1 s2 in \<open>simp_all add: close_other_typed\<close>)
qed

lemma fetch_typed:
  assumes "fetch s = Some t" "peer_typed s" shows "peer_typed t"
proof -
  define s1 where "s1 = printf ''Enter a file name: \<newline>'' [] s"
  have s1: "peer_typed s1" using assms(2) by (simp add: s1_def)
  from assms(1) obtain w rest where w: "scanf_word 100 (input s1) = Some (w, rest)"
    by (auto simp: fetch_def Let_def simp flip: s1_def split: option.splits)
  define s2 where "s2 = searchForFetch (c_str w) (s1\<lparr>input := rest\<rparr>)"
  have s2: "peer_typed s2"
    unfolding s2_def by (rule searchForFetch_typed) (use scanf_word_length [OF w] s1 in simp_all)
  obtain fd s3 where fd: "sys_socket s2 = (fd, s3)" by fastforce
  have s3: "peer_typed s3" "0 \<le> fd \<longrightarrow> fd \<noteq> sock s3"
  proof -
    have "lowest_fd (open_fds s2) \<noteq> sock s2"
      using lowest_fd_notin [of "open_fds s2"] peer_open [OF s2] by metis
    with fd s2 show "peer_typed s3" "0 \<le> fd \<longrightarrow> fd \<noteq> sock s3"
      by (auto simp: sys_socket_def peer_typed_def split: if_splits)
  qed
  from assms(1) w fd have "if fd < 0 then t = perror ''Failed to create socket for fetching file'' s3
      else fetch_from (c_str w) fd s3 = Some t"
    by (auto simp: fetch_def Let_def simp flip: s1_def s2_def split: if_splits)
  with s3 show ?thesis by (auto split: if_splits intro: fetch_from_typed)
qed

section \<open>The command loop as a state machine\<close>

text \<open>One turn of the loop; \<open>command_loop\<close> repeats it.\<close>

definition command_turn :: "peer \<Rightarrow> (bool \<times> peer) option" where
  "command_turn s =
     (let s1 = printf ''Enter a command: \<newline>'' [] s in
      case scanf_word 9 (input s1) of
        None \<Rightarrow> None
      | Some (w, rest) \<Rightarrow> run_command (c_str w) (s1\<lparr>input := rest\<rparr>))"

lemma command_loop_turn:
  "command_loop s =
     (case command_turn s of None \<Rightarrow> None
      | Some (stop, t) \<Rightarrow> if stop then Some t else command_loop t)"
  by (subst command_loop.simps) (simp add: command_turn_def Let_def split: option.splits prod.splits)

lemma run_command_typed: "run_command w s = Some (stop, t) \<Longrightarrow> peer_typed s \<Longrightarrow> peer_typed t"
  by (auto simp: run_command_def join_typed publish_typed dest: search_typed fetch_typed split: if_splits)

lemma command_turn_typed:
  assumes "command_turn s = Some (stop, t)" "peer_typed s" shows "peer_typed t"
proof -
  from assms(1) obtain w rest where
    "run_command w ((printf ''Enter a command: \<newline>'' [] s)\<lparr>input := rest\<rparr>) = Some (stop, t)"
    by (auto simp: command_turn_def Let_def split: option.splits)
  from run_command_typed [OF this] assms(2) show ?thesis by simp
qed

definition peer_start :: "peer \<Rightarrow> bool" where
  "peer_start s \<longleftrightarrow> sock s \<in> set (open_fds s) \<and> sent s (sock s) = [] \<and>
     (\<forall>es. shared s = Some es \<longrightarrow> (\<forall>e\<in>set es. 0 \<notin> set (fst e))) \<and>
     (\<forall>n m. a_send (env s) n = SendTake m \<longrightarrow> 1200 \<le> m)"

definition peer_step :: "peer \<Rightarrow> peer \<Rightarrow> bool" where
  "peer_step s t \<longleftrightarrow> (\<exists>stop. command_turn s = Some (stop, t))"

interpretation typed: invariant_machine peer_start peer_step peer_typed
proof unfold_locales
  show "peer_start s \<Longrightarrow> peer_typed s" for s by (simp add: peer_start_def peer_typed_def)
  show "peer_step s t \<Longrightarrow> peer_typed s \<Longrightarrow> peer_typed t" for s t
    unfolding peer_step_def by (blast intro: command_turn_typed)
qed

text \<open>
  C22: Type safety of the peer's protocol. Connected to the registry over a connection that
  takes or refuses each message whole, after any number of commands, whatever was typed,
  whatever the shared directory holds and whatever the registry and other peers answered, what
  the peer has put on that connection is a sequence of well-formed requests: a JOIN of five
  bytes, a PUBLISH whose count is the number of terminated names behind it, or a SEARCH for a
  terminated name of at most 100 bytes. FETCH uses its own connection for the transfer.
\<close>

theorem peer_speaks_protocol:
  assumes "reach peer_start peer_step s"
  shows "\<exists>ms. sent s (sock s) = concat ms \<and> (\<forall>m\<in>set ms. request m)"
  using typed.inv_reach [OF assms] by (simp add: peer_typed_def wire_typed_def)

definition talker :: peer where
  "talker = \<lparr>env = plain_env\<lparr>a_send := \<lambda>n. SendTake 2000\<rparr>, tick = 0, open_fds = [3, 2, 1, 0], sent = \<lambda>fd. [], stdout = [],
     gai_live = 0, heap_live = 0, sock = 3, peer_id = 7, peerIPStrGlobal = [], peerPortGlobal = 0,
     input = ascii ''JOIN PUBLISH '', errors = [], shared = Some [(ascii ''ab'', True)],
     can_write = \<lambda>w. True, saved = \<lambda>w. None, dialed = []\<rparr>"

definition talked :: peer where
  "talked = snd (the (command_turn (snd (the (command_turn talker)))))"

lemma talked_turns:
  "command_turn talker \<noteq> None" "command_turn (snd (the (command_turn talker))) \<noteq> None"
  "sock talked = 3" "sent talked 3 = [0, 0, 0, 0, 7, 1, 0, 0, 0, 1, 97, 98, 0]"
  by code_simp+

lemma talked_reachable: "reach peer_start peer_step talked"
proof -
  have "peer_start talker"
    by (auto simp: peer_start_def talker_def ascii_def of_char_def)
  moreover have "peer_step talker (snd (the (command_turn talker)))"
    using talked_turns(1) by (auto simp: peer_step_def)
  moreover have "peer_step (snd (the (command_turn talker))) talked"
    using talked_turns(2) by (auto simp: peer_step_def talked_def)
  ultimately show ?thesis by (blast intro: reach.intros)
qed

theorem peer_speaks_protocol_witness:
  "\<exists>ms. [0, 0, 0, 0, 7, 1, 0, 0, 0, 1, 97, 98, 0] = concat ms \<and> (\<forall>m\<in>set ms. request m)"
  using peer_speaks_protocol [OF talked_reachable] talked_turns(3,4) by simp

end
