(* ===== verification/Peer2.thy ===== *)
theory Peer2
  imports Peer "HOL-Library.Sublist"
begin

text \<open>
  \<open>program_02/peer.c\<close>: the peer before FETCH was added. It has its own state, without the
  globals and files of \<open>program_03\<close>; the messages and the parsing of words are the same and
  come from theory \<open>Peer\<close>. \<open>forget\<close> takes a state of the later peer to one of this peer.
\<close>

section \<open>State\<close>

record peer2 = os +
  sock2 :: int
  peer_id2 :: u32
  input2 :: "byte list"
  errors2 :: string
  shared2 :: "(byte list \<times> bool) list option"
  dialed2 :: "sockaddr list"

definition perror2 :: "string \<Rightarrow> peer2 \<Rightarrow> peer2" where
  "perror2 msg s = s\<lparr>errors2 := errors2 s @ vformat ''%s: %s\<newline>'' [AStr msg, strerror s]\<rparr>"

definition eprint2 :: "string \<Rightarrow> peer2 \<Rightarrow> peer2" where
  "eprint2 msg s = s\<lparr>errors2 := errors2 s @ msg\<rparr>"

section \<open>The commands\<close>

definition join2 :: "peer2 \<Rightarrow> peer2" where
  "join2 s =
     (case sys_send (sock2 s) (join_msg (peer_id2 s)) s of (r, s1) \<Rightarrow>
        if r < 0 then perror2 ''send failed'' s1
        else printf ''JOIN request sent. Peer ID: %u\<newline>'' [AInt (uint (peer_id2 s1))] s1)"

definition publish2 :: "peer2 \<Rightarrow> peer2" where
  "publish2 s =
     (case shared2 s of
        None \<Rightarrow> perror2 ''Unable to open directory'' s
      | Some es \<Rightarrow>
          (case pack_names es [] 0 of (p, n, full) \<Rightarrow>
             (let s1 = (if full then eprint2 ''Buffer full, some files may not be published.\<newline>'' s else s)
              in case sys_send (sock2 s1) (publish_msg n p) s1 of (r, s2) \<Rightarrow>
                   if r < 0 then perror2 ''send'' s2
                   else printf ''Successfully published %u files.\<newline>'' [AInt (int n)] s2)))"

definition lookup2 :: "byte list \<Rightarrow> peer2 \<Rightarrow> (u32 \<times> u32 \<times> u16) option \<times> peer2" where
  "lookup2 w s =
     (case sys_send (sock2 s) (search_msg w) s of (r, s1) \<Rightarrow>
        if r < 0 then (None, perror2 ''send'' s1)
        else (case sys_recv (sock2 s1) 4 s1 of ((r1, d1), s2) \<Rightarrow>
          if r1 \<le> 0 then (None, perror2 ''recv'' s2)
          else (case sys_recv (sock2 s2) 4 s2 of ((r2, d2), s3) \<Rightarrow>
          (case sys_recv (sock2 s3) 2 s3 of ((r3, d3), s4) \<Rightarrow>
             if (r1 + r2 + r3) mod 2 ^ 64 < 10
             then (None, eprint2 ''Incomplete response from registry.\<newline>'' s4)
             else (Some (ntohl (u32_at (received d1 (a_stack (env s) (tick s1)) 4)),
                         u32_at (received d2 (a_stack (env s) (tick s2)) 4),
                         ntohs (u16_at (received d3 (a_stack (env s) (tick s3)) 2))), s4)))))"

definition search2 :: "peer2 \<Rightarrow> peer2 option" where
  "search2 s =
     (let s1 = printf ''Enter a file name: \<newline>'' [] s in
      case scanf_word 100 (input2 s1) of
        None \<Rightarrow> None
      | Some (w, rest) \<Rightarrow>
          (case lookup2 (c_str w) (s1\<lparr>input2 := rest\<rparr>) of
             (None, s2) \<Rightarrow> Some s2
           | (Some (pid, ip, port), s2) \<Rightarrow>
               if pid = 0 \<and> ip = 0 \<and> port = 0
               then Some (printf ''File not indexed by registry.\<newline>'' [] s2)
               else Some (printf ''File found at\<newline>Peer %u\<newline>%s:%hu\<newline>''
                      [AInt (uint pid), AStr (ntop4 (bytes_of_u32 ip)), AInt (uint port)] s2)))"

section \<open>The command loop and \<open>main\<close>\<close>

definition run_command2 :: "byte list \<Rightarrow> peer2 \<Rightarrow> (bool \<times> peer2) option" where
  "run_command2 w s =
     (if w = ascii ''JOIN'' then Some (False, join2 s)
      else if w = ascii ''PUBLISH'' then Some (False, publish2 s)
      else if w = ascii ''SEARCH'' then map_option (Pair False) (search2 s)
      else if w = ascii ''EXIT'' then Some (True, printf ''Exiting peer application.\<newline>'' [] s)
      else Some (False, printf ''Unknown command. Please try again.\<newline>'' [] s))"

partial_function (option) command_loop2 :: "peer2 \<Rightarrow> peer2 option" where
  "command_loop2 s =
     (let s1 = printf ''Enter a command: \<newline>'' [] s in
      case scanf_word 9 (input2 s1) of
        None \<Rightarrow> None
      | Some (w, rest) \<Rightarrow>
          (case run_command2 (c_str w) (s1\<lparr>input2 := rest\<rparr>) of
             None \<Rightarrow> None
           | Some (stop, s2) \<Rightarrow> if stop then Some s2 else command_loop2 s2))"

declare command_loop2.simps [code]

definition peer_options2 :: "peer2 \<Rightarrow> peer2 option" where
  "peer_options2 s =
     command_loop2
       (printf ''EXIT: close the peer application.\<newline>\<newline>'' []
         (printf ''SEARCH: reads a file name from the terminal, print peer info.\<newline>'' []
           (printf ''PUBLISH: send a PUBLISH request to the registry.\<newline>'' []
             (printf ''JOIN: sends a JOIN request to the registry.\<newline>'' []
               (printf ''\<newline>Available Commands: \<newline>'' [] s)))))"

definition close_app2 :: "peer2 \<Rightarrow> nat \<times> peer2" where
  "close_app2 s =
     (let s1 = (if sock2 s \<noteq> - 1 then snd (sys_close (sock2 s) s) else s)
      in (0, printf ''Exiting peer application.\<newline>'' [] s1))"

definition peer_main2 ::
  "string list \<Rightarrow> int \<Rightarrow> int \<Rightarrow> u32 option \<Rightarrow> peer2 \<Rightarrow> (nat \<times> peer2) option" where
  "peer_main2 argv pid port host s =
     (if length argv \<noteq> 4 then
        Some (1, eprint2 (vformat ''Usage: %s <registry IP> <registry port> <peer ID>\<newline>''
          [AStr (argv ! 0)]) s)
      else case sys_socket (s\<lparr>peer_id2 := word_of_int pid\<rparr>) of (fd, s1) \<Rightarrow>
        (let s2 = s1\<lparr>sock2 := fd\<rparr> in
         if fd < 0 then Some (1, perror2 ''Failed to create socket'' s2)
         else case host of
           None \<Rightarrow> Some (1, eprint2 ''ERROR: No such host\<newline>'' s2)
         | Some a \<Rightarrow>
             (let addr = \<lparr>sa_family = 2, sin_port = htons (word_of_int port), sin_addr = a\<rparr>
              in case sys_status a_connect fd (s2\<lparr>dialed2 := dialed2 s2 @ [addr]\<rparr>) of (r, s3) \<Rightarrow>
                   if r < 0 then Some (1, perror2 ''Failed to connect to registry'' s3)
                   else case peer_options2 (printf ''Connected to registry at %s:%s\<newline>''
                          [AStr (argv ! 1), AStr (argv ! 2)] s3) of
                     None \<Rightarrow> None
                   | Some s4 \<Rightarrow> Some (0, snd (sys_close (sock2 s4) s4)))))"

section \<open>Forgetting what only the later peer has\<close>

definition forget :: "peer \<Rightarrow> peer2" where
  "forget s = \<lparr>env = env s, tick = tick s, open_fds = open_fds s, sent = sent s, stdout = stdout s,
     gai_live = gai_live s, heap_live = heap_live s, sock2 = sock s, peer_id2 = peer_id s,
     input2 = input s, errors2 = errors s, shared2 = shared s, dialed2 = dialed s\<rparr>"

end
