(* ===== verification/Peer2Props.thy ===== *)
theory Peer2Props
  imports Peer2
begin

text \<open>
  The peer of \<open>program_03\<close> is a conservative extension of that of \<open>program_02\<close>: as long as
  FETCH is not typed, both do the same to the registry, the terminal and the directory.
\<close>

section \<open>\<open>forget\<close> commutes with every operation\<close>

named_theorems forget_simps "operations of both peers commute with forget"

lemma forget_fields [simp]:
  "env (forget s) = env s" "tick (forget s) = tick s" "open_fds (forget s) = open_fds s"
  "sent (forget s) = sent s" "stdout (forget s) = stdout s" "sock2 (forget s) = sock s"
  "peer_id2 (forget s) = peer_id s" "input2 (forget s) = input s" "shared2 (forget s) = shared s"
  by (simp_all add: forget_def)

lemma forget_basic [forget_simps]:
  "printf f a (forget s) = forget (printf f a s)"
  "perror2 m (forget s) = forget (perror m s)"
  "eprint2 m (forget s) = forget (eprint m s)"
  "(forget s)\<lparr>input2 := r\<rparr> = forget (s\<lparr>input := r\<rparr>)"
  by (simp_all add: forget_def printf_def perror2_def perror_def eprint2_def eprint_def strerror_def)

lemma forget_send [forget_simps]: "sys_send fd bs (forget s) = map_prod id forget (sys_send fd bs s)"
  by (simp add: sys_send_def Let_def forget_def split: send_ans.splits)

lemma forget_recv [forget_simps]: "sys_recv fd n (forget s) = map_prod id forget (sys_recv fd n s)"
  by (simp add: sys_recv_def forget_def split: recv_ans.splits)

lemma peer_id_send: "sys_send fd bs s = (r, t) \<Longrightarrow> peer_id t = peer_id s"
  by (auto simp: sys_send_def Let_def split: if_splits send_ans.splits)

lemma forget_join: "join2 (forget s) = forget (join s)"
  by (auto simp: join2_def join_def forget_simps split: prod.splits)

lemma forget_publish: "publish2 (forget s) = forget (publish s)"
proof -
  have "sock (eprint m s) = sock s" for m by (simp add: eprint_def)
  then show ?thesis
    by (simp add: publish2_def publish_def Let_def forget_simps split_def split: option.splits)
qed

lemma forget_lookup: "lookup2 w (forget s) = map_prod id forget (query_registry w s)"
  by (simp add: lookup2_def query_registry_def forget_simps split_def)

lemma input_printf2: "input (printf f a s) = input s"
  by (simp add: printf_def)

lemma forget_search: "search2 (forget s) = map_option forget (search s)"
  by (simp add: search2_def search_def Let_def forget_simps forget_lookup
      split: prod.splits option.splits)

lemma forget_run:
  "w \<noteq> ascii ''FETCH'' \<Longrightarrow>
     run_command2 w (forget s) = map_option (map_prod id forget) (run_command w s)"
  by (simp add: run_command2_def run_command_def forget_join forget_publish forget_search forget_simps
      option.map_comp comp_def)

section \<open>The input only gets shorter\<close>

lemma scanf_word_parts:
  assumes "scanf_word n inp = Some (w, rest)" shows "sublist w inp" "suffix rest inp"
proof -
  define r where "r = dropWhile isspace inp"
  define u where "u = takeWhile (\<lambda>b. \<not> isspace b) r"
  from assms have w: "w = take n u" "rest = drop (length w) r"
    by (auto simp: scanf_word_def Let_def r_def u_def split: if_splits)
  have "prefix u r" "suffix r inp" unfolding u_def r_def by (rule takeWhile_is_prefix, rule suffix_dropWhile)
  moreover from this w have "prefix w r" by (metis prefix_order.trans take_is_prefix)
  ultimately show "sublist w inp" "suffix rest inp"
    using w(2) by (meson prefix_imp_sublist sublist_order.order_trans suffix_imp_sublist,
        meson suffix_drop suffix_order.trans)
qed

lemma sys_input:
  "sys_send fd bs s = (r, t) \<Longrightarrow> input t = input s"
  "sys_recv fd n s = (x, t) \<Longrightarrow> input t = input s"
  by (auto simp: sys_send_def sys_recv_def Let_def split: if_splits send_ans.splits recv_ans.splits)

lemma io_input [simp]:
  "input (perror m s) = input s" "input (eprint m s) = input s"
  by (simp_all add: perror_def eprint_def)

lemma query_input: "query_registry w s = (x, t) \<Longrightarrow> input t = input s"
  by (auto simp: query_registry_def dest!: sys_input split: prod.splits if_splits)

lemma run_command_suffix:
  assumes "run_command w s = Some (b, t)" "w \<noteq> ascii ''FETCH''" shows "suffix (input t) (input s)"
proof -
  have "input (join s) = input s"
    by (auto simp: join_def input_printf2 dest!: sys_input split: prod.splits)
  moreover have "input (publish s) = input s"
    by (auto simp: publish_def Let_def input_printf2 dest!: sys_input split: prod.splits option.splits)
  moreover have "suffix (input t) (input s)" if "search s = Some t"
    using that by (auto simp: search_def Let_def input_printf2 dest!: query_input scanf_word_parts(2)
        split: prod.splits option.splits if_splits)
  ultimately show ?thesis
    using assms by (auto simp: run_command_def input_printf2 split: if_splits)
qed

definition no_fetch :: "byte list \<Rightarrow> bool" where
  "no_fetch inp \<longleftrightarrow> \<not> sublist (ascii ''FETCH'') inp"

lemma no_fetch_suffix: "no_fetch inp \<Longrightarrow> suffix r inp \<Longrightarrow> no_fetch r"
  unfolding no_fetch_def by (meson sublist_order.order_trans suffix_imp_sublist)

lemma no_fetch_word: "no_fetch inp \<Longrightarrow> scanf_word n inp = Some (w, rest) \<Longrightarrow> c_str w \<noteq> ascii ''FETCH''"
  unfolding no_fetch_def c_str_def
  by (metis prefix_imp_sublist scanf_word_parts(1) sublist_order.order_trans takeWhile_is_prefix)

section \<open>The loops\<close>

lemma loop_to_2:
  assumes "command_loop s = Some t" "no_fetch (input s)"
  shows "command_loop2 (forget s) = Some (forget t)"
  using assms
proof (induction rule: command_loop.raw_induct [rotated, consumes 1])
  case (1 loop s t)
  define s1 where "s1 = printf ''Enter a command: \<newline>'' [] s"
  have s1: "input s1 = input s" "printf ''Enter a command: \<newline>'' [] (forget s) = forget s1"
    by (simp_all add: s1_def input_printf2 forget_simps)
  from 1(2) obtain w rest b u where w: "scanf_word 9 (input s) = Some (w, rest)"
    "run_command (c_str w) (s1\<lparr>input := rest\<rparr>) = Some (b, u)"
    "if b then u = t else loop u = Some t"
    by (auto simp: Let_def s1(1) simp flip: s1_def split: option.splits prod.splits if_splits)
  note nf = no_fetch_word [OF 1(3) w(1)]
  have run: "run_command2 (c_str w) (forget (s1\<lparr>input := rest\<rparr>)) = Some (b, forget u)"
    by (simp add: forget_run [OF nf] w(2))
  have "suffix (input u) (input s)"
    using run_command_suffix [OF w(2) nf] scanf_word_parts(2) [OF w(1)] by (auto intro: suffix_order.trans)
  from no_fetch_suffix [OF 1(3) this] 1(1) [of u t] w(3)
  have "if b then u = t else command_loop2 (forget u) = Some (forget t)" by auto
  then show ?case
    by (subst command_loop2.simps) (auto simp: Let_def s1 w(1) run forget_basic(4) split: if_splits)
qed

lemma loop_from_2:
  assumes "command_loop2 v = Some v'" "v = forget s" "no_fetch (input s)"
  shows "\<exists>t. command_loop s = Some t \<and> v' = forget t"
  using assms
proof (induction arbitrary: s rule: command_loop2.raw_induct [rotated, consumes 1])
  case (1 loop v v')
  define s1 where "s1 = printf ''Enter a command: \<newline>'' [] s"
  have s1: "input s1 = input s" "printf ''Enter a command: \<newline>'' [] (forget s) = forget s1"
    by (simp_all add: s1_def input_printf2 forget_simps)
  from 1(2,3) obtain w rest b u where w: "scanf_word 9 (input s) = Some (w, rest)"
    "run_command2 (c_str w) (forget (s1\<lparr>input := rest\<rparr>)) = Some (b, u)"
    "if b then u = v' else loop u = Some v'"
    by (auto simp: Let_def s1 forget_basic(4) split: option.splits prod.splits if_splits)
  note nf = no_fetch_word [OF 1(4) w(1)]
  from w(2) obtain t where t: "run_command (c_str w) (s1\<lparr>input := rest\<rparr>) = Some (b, t)" "u = forget t"
    by (auto simp: forget_run [OF nf])
  have "suffix (input t) (input s)"
    using run_command_suffix [OF t(1) nf] scanf_word_parts(2) [OF w(1)] by (auto intro: suffix_order.trans)
  from no_fetch_suffix [OF 1(4) this] 1(1) [of u v' t] w(3) t(2)
  have "\<exists>t'. v' = forget t' \<and> (if b then t = t' else command_loop t = Some t')"
    by (cases b) auto
  then show ?case
    by (subst command_loop.simps) (auto simp: Let_def s1(1) w(1) t(1) simp flip: s1_def split: if_splits)
qed

text \<open>
  C23: The peer of \<open>program_03\<close> extends that of \<open>program_02\<close> conservatively: on every terminal
  input that does not contain the word FETCH, whatever the registry answers, the command loops
  of both return on the same runs, and then with the same bytes sent, the same output, the same
  errors and the same input left.
\<close>

theorem extension_is_conservative:
  assumes "\<not> sublist (ascii ''FETCH'') (input s)"
  shows "command_loop2 (forget s) = map_option forget (command_loop s)"
proof (cases "command_loop s")
  case (Some t)
  with loop_to_2 [OF Some] assms show ?thesis by (simp add: no_fetch_def)
next
  case None
  show ?thesis
  proof (cases "command_loop2 (forget s)")
    case (Some v)
    from loop_from_2 [OF this refl] assms None show ?thesis by (auto simp: no_fetch_def)
  qed (simp add: None)
qed

definition typist :: peer where
  "typist = \<lparr>env = plain_env\<lparr>a_send := \<lambda>n. SendTake 2000\<rparr>,
     tick = 0, open_fds = [3, 2, 1, 0], sent = \<lambda>fd. [], stdout = [], gai_live = 0, heap_live = 0,
     sock = 3, peer_id = 7, peerIPStrGlobal = [], peerPortGlobal = 0,
     input = ascii ''JOIN SEARCH ab EXIT '', errors = [], shared = None, can_write = \<lambda>w. True,
     saved = \<lambda>w. None, dialed = []\<rparr>"

lemma typist_no_fetch: "\<not> sublist (ascii ''FETCH'') (input typist)"
proof -
  have "ascii ''FETCH'' ! 0 \<notin> set (input typist)" by code_simp
  moreover have "ascii ''FETCH'' \<noteq> []" by code_simp
  then have "ascii ''FETCH'' ! 0 \<in> set (ascii ''FETCH'')" by (intro nth_mem) simp
  ultimately show ?thesis by (auto dest!: set_mono_sublist)
qed

theorem extension_is_conservative_witness:
  "command_loop2 (forget typist) = map_option forget (command_loop typist)"
  by (rule extension_is_conservative [OF typist_no_fetch])

end
