(* ===== verification/H1Counter.thy ===== *)
theory H1Counter
  imports SocketIO
begin

text \<open>
  \<open>program_01/h1-counter.c\<close>: download a page and count its \<open><h1>\<close> tags. The option parser of
  \<open>main\<close> is the library's \<open>getopt_long\<close>; its result is the record \<open>options\<close>. \<open>None\<close> is a
  run that never ends or a read outside a buffer.
\<close>

section \<open>Counting\<close>

text \<open>
  The inner loop compares from \<open>index\<close> on and moves \<open>index\<close>; it returns the new \<open>index\<close> and
  \<open>check_read\<close>.
\<close>

function check_needle :: "byte list \<Rightarrow> byte list \<Rightarrow> nat \<Rightarrow> nat \<Rightarrow> nat \<times> nat" where
  "check_needle hay needle index check_read =
     (if check_read < length needle \<and> index < length hay then
        (if needle ! check_read \<noteq> hay ! index then (index, check_read)
         else check_needle hay needle (index + 1) (check_read + 1))
      else (index, check_read))"
  by pat_completeness auto
termination
  by (relation "measure (\<lambda>(hay, needle, index, k). length hay - index)") auto

declare check_needle.simps [simp del]

lemma check_needle_mono: "check_needle hay needle i k = (i', k') \<Longrightarrow> i \<le> i' \<and> i' + k = i + k'"
proof (induction hay needle i k rule: check_needle.induct)
  case (1 hay needle i k)
  show ?case
    using 1 by (subst (asm) (2) check_needle.simps) (auto split: if_splits)
qed

function count_from :: "byte list \<Rightarrow> byte list \<Rightarrow> nat \<Rightarrow> nat \<Rightarrow> nat" where
  "count_from hay needle index count =
     (if index < length hay then
        (if hay ! index = needle ! 0 then
           (case check_needle hay needle index 0 of (index', check_read) \<Rightarrow>
              count_from hay needle (index' + 1)
                (if check_read = length needle then count + 1 else count))
         else count_from hay needle (index + 1) count)
      else count)"
  by pat_completeness auto
termination
  by (relation "measure (\<lambda>(hay, needle, index, c). length hay - index)")
    (auto dest!: check_needle_mono [OF sym])

declare count_from.simps [simp del]

definition count_occurances :: "byte list \<Rightarrow> byte list \<Rightarrow> nat" where
  "count_occurances haystack needle =
     (if length needle = 0 then 0 else count_from haystack needle 0 0)"

section \<open>\<open>parse_ul\<close>\<close>

text \<open>
  \<open>strtoul\<close> with base 0: white space, a sign, the prefix that selects the base, digits. The
  result is the value, the rest of the string and whether \<open>ERANGE\<close> was set; a negative number
  is negated modulo \<open>2^64\<close>, and without digits nothing is consumed.
\<close>

definition digit_of :: "char \<Rightarrow> nat option" where
  "digit_of c =
     (let n = of_char c :: nat in
      if 48 \<le> n \<and> n \<le> 57 then Some (n - 48)
      else if 97 \<le> n \<and> n \<le> 122 then Some (n - 87)
      else if 65 \<le> n \<and> n \<le> 90 then Some (n - 55) else None)"

definition in_base :: "nat \<Rightarrow> char \<Rightarrow> bool" where
  "in_base b c = (case digit_of c of None \<Rightarrow> False | Some d \<Rightarrow> d < b)"

definition value_of :: "nat \<Rightarrow> string \<Rightarrow> nat" where
  "value_of b ds = foldl (\<lambda>a c. b * a + the (digit_of c)) 0 ds"

definition is_blank :: "char \<Rightarrow> bool" where
  "is_blank c = (let n = of_char c :: nat in n = 32 \<or> 9 \<le> n \<and> n \<le> 13)"

definition ULONG_MAX :: nat where
  "ULONG_MAX = 2 ^ 64 - 1"

definition strtoul_digits :: "string \<Rightarrow> bool \<Rightarrow> nat \<Rightarrow> string \<Rightarrow> nat \<times> string \<times> bool" where
  "strtoul_digits str neg b t =
     (let ds = takeWhile (in_base b) t; v = value_of b ds
      in if ds = [] then (0, str, False)
         else if v > ULONG_MAX then (ULONG_MAX, dropWhile (in_base b) t, True)
         else (if neg then (2 ^ 64 - v) mod 2 ^ 64 else v, dropWhile (in_base b) t, False))"

definition strtoul :: "string \<Rightarrow> nat \<times> string \<times> bool" where
  "strtoul str =
     (let t = dropWhile is_blank str;
          neg = (t \<noteq> [] \<and> hd t = CHR ''-'');
          u = (if t \<noteq> [] \<and> (hd t = CHR ''-'' \<or> hd t = CHR ''+'') then tl t else t)
      in if length u > 2 \<and> u ! 0 = CHR ''0'' \<and> (u ! 1 = CHR ''x'' \<or> u ! 1 = CHR ''X'') \<and> in_base 16 (u ! 2)
         then strtoul_digits str neg 16 (drop 2 u)
         else if u \<noteq> [] \<and> hd u = CHR ''0'' then strtoul_digits str neg 8 u
         else strtoul_digits str neg 10 u)"

text \<open>\<open>errno\<close> is 0 before the call. \<open>None\<close> is the result -1.\<close>

definition parse_ul :: "string \<Rightarrow> nat option" where
  "parse_ul str =
     (case strtoul str of (v, endptr, erange) \<Rightarrow>
        if endptr \<noteq> [] then None
        else if v = ULONG_MAX \<and> erange then None
        else Some v)"

section \<open>State and printing\<close>

record h1 = os +
  err_out :: string

definition h1_perror :: "string \<Rightarrow> h1 \<Rightarrow> h1" where
  "h1_perror msg s = s\<lparr>err_out := err_out s @ vformat ''%s: %s\<newline>'' [AStr msg, strerror s]\<rparr>"

definition say :: "bool \<Rightarrow> string \<Rightarrow> fmt_arg list \<Rightarrow> h1 \<Rightarrow> h1" where
  "say verbose fmt args s = (if verbose then printf fmt args s else s)"

lemma h1_frame [simp]:
  "env (h1_perror m s) = env s" "tick (h1_perror m s) = tick s" "open_fds (h1_perror m s) = open_fds s"
  "gai_live (h1_perror m s) = gai_live s" "heap_live (h1_perror m s) = heap_live s"
  "sent (h1_perror m s) = sent s" "stdout (h1_perror m s) = stdout s"
  "env (say v f a s) = env s" "tick (say v f a s) = tick s" "open_fds (say v f a s) = open_fds s"
  "gai_live (say v f a s) = gai_live s" "heap_live (say v f a s) = heap_live s"
  "sent (say v f a s) = sent s"
  by (simp_all add: h1_perror_def say_def printf_def)

text \<open>The buffer's bytes are \<open>char\<close>s: \<open>%#x\<close> shows them sign-extended to 32 bits.\<close>

definition print_buffer :: "byte list \<Rightarrow> nat \<Rightarrow> h1 \<Rightarrow> h1 option" where
  "print_buffer mem len s =
     (if length mem < len then None
      else case cstr_in mem of
        None \<Rightarrow> None
      | Some t \<Rightarrow>
          (let s1 = printf ''[%ld]:'' [AInt (int len)] s;
               s2 = fold (\<lambda>b. printf '' %#x'' [AInt (sint b mod 2 ^ 32)]) (take len mem) s1
           in Some (printf ''\<newline>%s\<newline>'' [AStr (chars t)] s2)))"

text \<open>The port is printed as it is in memory, in network byte order.\<close>

definition print_addrinfo :: "addrinfo \<Rightarrow> bool \<Rightarrow> h1 \<Rightarrow> h1" where
  "print_addrinfo rp include_port s =
     (if ai_family rp = 2 then
        (let t = ntop4 (bytes_of_u32 (sin_addr (ai_addr rp)))
         in if include_port then printf ''%s:%d'' [AStr t, AInt (uint (sin_port (ai_addr rp)))] s
            else printf ''%s'' [AStr t] s)
      else if ai_family rp = 10 then
        (let t = a_ntop6 (env s) (tick s)
         in if include_port then printf ''%s:%d'' [AStr t, AInt (uint (sin_port (ai_addr rp)))] s
            else printf ''%s'' [AStr t] s)
      else printf ''family: %d | socktype: %d | protocol: %d''
             [AInt (ai_family rp), AInt (ai_socktype rp), AInt (ai_protocol rp)] s)"

lemma print_addrinfo_frame [simp]:
  "env (print_addrinfo rp b s) = env s" "tick (print_addrinfo rp b s) = tick s"
  "open_fds (print_addrinfo rp b s) = open_fds s" "gai_live (print_addrinfo rp b s) = gai_live s"
  by (simp_all add: print_addrinfo_def Let_def printf_def)

section \<open>Connecting\<close>

text \<open>A socket whose \<open>bind\<close> fails is not closed.\<close>

fun bind_addresses :: "addrinfo list \<Rightarrow> int \<Rightarrow> bool \<Rightarrow> h1 \<Rightarrow> (int \<times> int) \<times> h1" where
  "bind_addresses [] sockfd verbose s = ((- 1, sockfd), s)"
| "bind_addresses (rp # rps) sockfd verbose s =
     (let s1 = (if verbose then printf ''\<newline>'' [] (print_addrinfo rp True (printf ''binding socket '' [] s))
                else s)
      in case sys_socket s1 of (fd, s2) \<Rightarrow>
           if fd = - 1 then
             bind_addresses rps fd verbose
               (h1_perror ''[h1-counter]: bind_socket: socket: failed to create socket'' s2)
           else (case sys_status a_bind fd s2 of (r, s3) \<Rightarrow>
                   if r \<noteq> - 1 then ((0, fd), s3)
                   else bind_addresses rps fd verbose
                          (h1_perror ''[h1-counter]: bind_socket: bind: failed binding port'' s3)))"

definition bind_socket :: "int \<Rightarrow> bool \<Rightarrow> h1 \<Rightarrow> (int \<times> int) \<times> h1" where
  "bind_socket sockfd verbose s =
     (case sys_getaddrinfo s of
        (GaiErr e, s1) \<Rightarrow>
          ((- 1, sockfd), s1\<lparr>err_out := err_out s1 @
             vformat ''[h1-counter]: bind_socket: getaddrinfo: %s\<newline>'' [AStr e]\<rparr>)
      | (GaiOk l, s1) \<Rightarrow>
          (case bind_addresses l sockfd verbose s1 of (r, s2) \<Rightarrow> (r, sys_freeaddrinfo s2)))"

fun connect_addresses ::
  "addrinfo list \<Rightarrow> int \<Rightarrow> string option \<Rightarrow> bool \<Rightarrow> h1 \<Rightarrow> (int \<times> int) \<times> h1" where
  "connect_addresses [] sockfd l_ip verbose s = ((- 1, sockfd), s)"
| "connect_addresses (rp # rps) sockfd l_ip verbose s =
     (case (case l_ip of
              Some _ \<Rightarrow> bind_socket sockfd verbose s
            | None \<Rightarrow>
                (case sys_socket s of (fd, s1) \<Rightarrow>
                   if fd = - 1 then ((- 1, fd),
                     h1_perror ''[h1-counter]: connect_socket: socket: failed to create socket'' s1)
                   else ((0, fd), s1))) of
        ((r, fd), s1) \<Rightarrow>
          if r = - 1 then connect_addresses rps fd l_ip verbose s1
          else
            (let s2 = (if verbose then printf ''\<newline>'' [] (print_addrinfo rp False (printf ''connecting '' [] s1))
                       else s1)
             in case sys_status a_connect fd s2 of (c, s3) \<Rightarrow>
                  if c \<noteq> - 1 then ((0, fd), s3)
                  else connect_addresses rps fd l_ip verbose
                         (snd (sys_close fd
                           (h1_perror ''[h1-counter]: connect_socket: connect: failed connecting to remote address''
                              s3)))))"

definition connect_socket ::
  "int \<Rightarrow> string option \<Rightarrow> string \<Rightarrow> string option \<Rightarrow> bool \<Rightarrow> h1 \<Rightarrow> (int \<times> int) \<times> h1" where
  "connect_socket sockfd l_ip r_host r_port verbose s =
     (let s1 = say verbose ''attempting to connect with remote server %s'' [AStr r_host] s;
          s2 = (case r_port of None \<Rightarrow> s1 | Some p \<Rightarrow> say verbose '':%s'' [AStr p] s1);
          s3 = say verbose ''\<newline>'' [] s2
      in case sys_getaddrinfo s3 of
           (GaiErr e, s4) \<Rightarrow>
             ((- 1, sockfd), s4\<lparr>err_out := err_out s4 @
                vformat ''[h1-counter]: connect_socket: getaddrinfo: %s\<newline>'' [AStr e]\<rparr>)
         | (GaiOk l, s4) \<Rightarrow>
             (case connect_addresses l sockfd l_ip verbose s4 of (r, s5) \<Rightarrow> (r, sys_freeaddrinfo s5)))"

section \<open>The read loop\<close>

text \<open>
  \<open>recv\<close> into the malloc'ed buffer; without a buffer (\<open>malloc\<close> failed and is not checked) it
  fails. The result \<open>Inl\<close> is the jump to \<open>end_main_loop\<close>.
\<close>

definition recv_into :: "bool \<Rightarrow> int \<Rightarrow> nat \<Rightarrow> h1 \<Rightarrow> (int \<times> byte list) \<times> h1" where
  "recv_into blk fd cap s = (if \<not> blk \<and> 0 < cap then ((- 1, []), step_os s) else sys_recv fd cap s)"

lemma recv_into_result:
  "recv_into blk fd cap s = ((r, d), s') \<Longrightarrow> length d \<le> cap \<and> (r = - 1 \<and> d = [] \<or> r = int (length d))"
  using sys_recv_result [of fd cap s] by (auto simp: recv_into_def split: if_splits)

definition read_error :: "int \<Rightarrow> h1 \<Rightarrow> h1" where
  "read_error r s =
     (if r = - 1 then h1_perror ''[h1-counter]: main: error reading data from remote host'' s else s)"

function fill_loop ::
  "bool \<Rightarrow> bool \<Rightarrow> int \<Rightarrow> nat \<Rightarrow> byte list \<Rightarrow> h1 \<Rightarrow> bool \<times> byte list \<times> h1" where
  "fill_loop verbose blk fd len acc s =
     (if length acc \<noteq> len then
        (case recv_into blk fd (len - length acc) s of ((r, d), s1) \<Rightarrow>
           if r \<le> 0 then (True, acc, read_error r s1)
           else fill_loop verbose blk fd len (acc @ d)
                  (say verbose ''read %ld bytes from remote server\<newline>'' [AInt r] s1))
      else (False, acc, s))"
  by pat_completeness auto
termination
  by (relation "measure (\<lambda>(v, blk, fd, len, acc, s). len - length acc)")
    (auto dest!: recv_into_result [OF sym] simp: diff_shrinks)

declare fill_loop.simps [simp del]

partial_function (option) count_loop ::
  "bool \<Rightarrow> bool \<Rightarrow> bool \<Rightarrow> int \<Rightarrow> nat \<Rightarrow> byte list \<Rightarrow> nat \<Rightarrow> nat \<Rightarrow> h1 \<Rightarrow> (nat \<times> nat \<times> h1) option" where
  "count_loop fill verbose blk fd len needle count total_read s =
     (if fill then
        (case fill_loop verbose blk fd len [] s of (closed, acc, s1) \<Rightarrow>
           if closed then
             (if acc \<noteq> [] then
                Some (count + count_occurances acc needle, total_read + length acc,
                  say verbose ''%lu unread bytes in buffer. checking for needle\<newline>''
                    [AInt (int (length acc))] s1)
              else Some (count, total_read, s1))
           else count_loop fill verbose blk fd len needle (count + count_occurances acc needle)
                  (total_read + length acc)
                  (say verbose ''checking for needle\<newline>'' []
                    (say verbose ''filled buffer with %lu bytes\<newline>'' [AInt (int (length acc))] s1)))
      else
        (case recv_into blk fd len s of ((r, d), s1) \<Rightarrow>
           if r \<le> 0 then Some (count, total_read, read_error r s1)
           else count_loop fill verbose blk fd len needle (count + count_occurances d needle)
                  (total_read + length d)
                  (say verbose ''checking for needle\<newline>'' []
                    (say verbose ''read %ld bytes from remote server\<newline>'' [AInt r] s1))))"

declare count_loop.simps [code]

section \<open>\<open>main\<close>\<close>

record options =
  o_verbose :: bool
  o_fill_buffer :: bool
  o_buffer_size :: nat
  o_local_ip :: "string option"
  o_remote_host :: string
  o_remote_port :: "string option"

definition bytes_of :: "string \<Rightarrow> byte list" where
  "bytes_of t = map (\<lambda>c. word_of_nat (of_char c)) t"

definition h1_tag :: "byte list" where
  "h1_tag = bytes_of ''<h1>''"

definition http_request :: "byte list" where
  "http_request = bytes_of ''GET /~kkredo/file.html HTTP/1.0'' @ [13, 10, 13, 10]"

definition h1_main :: "options \<Rightarrow> h1 \<Rightarrow> (nat \<times> h1) option" where
  "h1_main opts s =
     (case connect_socket 0 (o_local_ip opts) (o_remote_host opts) (o_remote_port opts) (o_verbose opts) s of
        ((r, fd), s1) \<Rightarrow>
          if r = - 1 then Some (1, s1)
          else case send_bytes fd http_request
                      (say (o_verbose opts) ''sending request to remote server\<newline>'' [] s1) of
            None \<Rightarrow> None
          | Some (q, s2) \<Rightarrow>
              if q = - 1 then
                Some (1, snd (sys_close fd
                  (h1_perror ''[h1-counter]: main: failed sending bytes to remote host'' s2)))
              else
                (case sys_calloc s2 of (blk, s3) \<Rightarrow>
                   (case count_loop (o_fill_buffer opts) (o_verbose opts) (blk \<noteq> None) fd
                           (o_buffer_size opts) h1_tag 0 0 s3 of
                      None \<Rightarrow> None
                    | Some (count, total_read, s4) \<Rightarrow>
                        (let s5 = printf ''Number of <h1> tags: %lu\<newline>Number of bytes: %lu\<newline>''
                                    [AInt (int count), AInt (int total_read)] s4;
                             s6 = heap_free (if blk = None then 0 else 1) s5
                         in Some (0, snd (sys_close fd s6))))))"

section \<open>The command line\<close>

definition default_options :: options where
  "default_options = \<lparr>o_verbose = False, o_fill_buffer = True, o_buffer_size = 2048, o_local_ip = None,
     o_remote_host = ''www.ecst.csuchico.edu'', o_remote_port = Some ''80''\<rparr>"

definition size_argument :: "string \<Rightarrow> options \<Rightarrow> string + options" where
  "size_argument arg opts =
     (case parse_ul arg of
        None \<Rightarrow> Inl (vformat ''invalid buffer-size value: \"%s\"\<newline>'' [AStr arg])
      | Some n \<Rightarrow> Inr (opts\<lparr>o_buffer_size := n\<rparr>))"

text \<open>The option loop; \<open>Inl\<close> is the exit with status 1 and what it writes to standard error.\<close>

fun h1_option_loop :: "getopt list \<Rightarrow> options \<Rightarrow> string + options" where
  "h1_option_loop [] opts = Inr opts"
| "h1_option_loop (GetBad # es) opts = Inl []"
| "h1_option_loop (GetOpt k optarg # es) opts =
     (if k = 0 then h1_option_loop es (opts\<lparr>o_local_ip := Some optarg\<rparr>)
      else if k = 1 then h1_option_loop es (opts\<lparr>o_remote_host := optarg\<rparr>)
      else if k = 2 then h1_option_loop es (opts\<lparr>o_remote_port := Some optarg\<rparr>)
      else if k = 3 then
        (case size_argument optarg opts of Inl m \<Rightarrow> Inl m | Inr opts' \<Rightarrow> h1_option_loop es opts')
      else if k = 4 then h1_option_loop es (opts\<lparr>o_verbose := True\<rparr>)
      else if k = 5 then h1_option_loop es (opts\<lparr>o_fill_buffer := False\<rparr>)
      else h1_option_loop es opts)"

definition h1_arguments :: "getopt list \<Rightarrow> string list \<Rightarrow> string + options" where
  "h1_arguments events rest =
     (case h1_option_loop events default_options of
        Inl m \<Rightarrow> Inl m
      | Inr opts \<Rightarrow> (case rest of [] \<Rightarrow> Inr opts | a # _ \<Rightarrow> size_argument a opts))"

definition h1_program :: "getopt list \<Rightarrow> string list \<Rightarrow> h1 \<Rightarrow> (nat \<times> h1) option" where
  "h1_program events rest s =
     (case h1_arguments events rest of
        Inl m \<Rightarrow> Some (1, s\<lparr>err_out := err_out s @ m\<rparr>)
      | Inr opts \<Rightarrow> h1_main opts s)"

end
