(* ===== verification/H1Props.thy ===== *)
theory H1Props
  imports H1Facts
begin

text \<open>
  The properties of \<open>program_01/h1-counter.c\<close>: what the tag counter counts and misses, that
  the result does not depend on how the network cuts the page into chunks, which arguments
  the number parser takes, and the descriptors of the connection code.
\<close>

section \<open>Counting tags\<close>

text \<open>
  C18: \<open>count_occurances\<close> never counts more than the positions at which the needle really
  occurs, for every text and every non-empty needle.
\<close>

theorem count_is_sound:
  assumes "needle \<noteq> []"
  shows "count_occurances hay needle \<le> card {i. i < length hay \<and> take (length needle) (drop i hay) = needle}"
  using count_text_sound [of needle hay] count_occurances_text [OF assms, of hay]
  by (simp add: occurs_at_def)

theorem count_is_sound_witness:
  "count_occurances [60, 104, 49, 62, 65] h1_tag \<le>
     card {i. i < length [60, 104, 49, 62, 65 :: byte] \<and>
       take (length h1_tag) (drop i [60, 104, 49, 62, 65]) = h1_tag}"
  by (rule count_is_sound) (simp add: h1_tag_bytes)

text \<open>
  A page in which every \<open><h1>\<close> is preceded by text without a less-than sign and followed
  by one more character is counted exactly.
\<close>

theorem separated_tags_exact:
  assumes "\<forall>(t, c)\<in>set segs. 60 \<notin> set t"
  shows "count_occurances (concat (map (\<lambda>(t, c). t @ h1_tag @ [c]) segs)) h1_tag = length segs"
proof -
  have "count_text h1_tag (concat (map (\<lambda>(t, c). t @ h1_tag @ [c]) segs)) = length segs"
    using assms by (induction segs) (auto simp: count_tag_line)
  then show ?thesis by (simp add: count_occurances_text h1_tag_bytes)
qed

theorem separated_tags_exact_witness:
  "count_occurances ([65] @ h1_tag @ [66] @ h1_tag @ [10]) h1_tag = 2"
  using separated_tags_exact [of "[([65], 66), ([], 10)]"] by simp

text \<open>
  C32: Of \<open>n\<close> adjacent tags the counter sees only every other one: after a match the index
  skips the character behind it.
\<close>

theorem adjacent_tags_halved:
  "count_occurances (concat (replicate n h1_tag)) h1_tag = (n + 1) div 2"
proof -
  have "count_text h1_tag (concat (replicate n h1_tag)) = (n + 1) div 2"
  proof (induction n rule: less_induct)
    case (less n)
    consider "n = 0" | "n = 1" | m where "n = Suc (Suc m)" by (metis One_nat_def not0_implies_Suc)
    then show ?case
    proof cases
      case 2
      then show ?thesis using count_tag [of "[]"] by simp
    next
      case 3
      then show ?thesis using less count_two_tags [of "concat (replicate m h1_tag)"] by simp
    qed simp
  qed
  then show ?thesis by (simp add: count_occurances_text h1_tag_bytes)
qed

section \<open>Reading the page\<close>

text \<open>
  C17: With a full buffer, the loop returns for every stream that ends, and its two results
  depend on the bytes of the stream only, not on how the network cuts them: the bytes
  received, and the sum of the counts of consecutive blocks of the buffer's size. A tag that
  crosses a block boundary is therefore missed.
\<close>

theorem count_independent_of_chunks:
  assumes "stream (env s) (tick s) 0 len ds" "fd \<in> set (open_fds s)" "0 < len"
  shows "\<exists>s'. count_loop True verbose True fd len h1_tag 0 0 s =
    Some (sum_list (map (\<lambda>b. count_occurances b h1_tag) (blocks len (concat ds))), length (concat ds), s')"
  using count_loop_stream [OF assms, of verbose h1_tag 0 0] by simp

definition h1_env :: answers where
  "h1_env =
     \<lparr>a_send = \<lambda>n. SendTake 100,
      a_recv = \<lambda>n. if n = 0 then RecvData [65, 60] else if n = 1 then RecvData [104, 49]
        else if n = 2 then RecvData [62, 66] else RecvData [],
      a_accept = \<lambda>n. AcceptFail, a_close = \<lambda>n. True, a_select = \<lambda>n. SelIntr,
      a_gai = \<lambda>n. GaiOk [\<lparr>ai_family = 2, ai_socktype = 1, ai_protocol = 0,
        ai_addr = \<lparr>sa_family = 2, sin_port = 0x5000, sin_addr = 0x0100007f\<rparr>\<rparr>],
      a_socket = \<lambda>n. True, a_bind = \<lambda>n. False, a_listen = \<lambda>n. True, a_connect = \<lambda>n. True,
      a_calloc = \<lambda>n. CallocOk [0], a_strerror = \<lambda>n. ''error'', a_ntop6 = \<lambda>n. ''::'',
      a_stack = \<lambda>n k. 0\<rparr>"

definition h1_state :: h1 where
  "h1_state = \<lparr>env = h1_env, tick = 0, open_fds = [3, 0, 1, 2], sent = \<lambda>fd. [], stdout = [],
     gai_live = 0, heap_live = 0, err_out = []\<rparr>"

theorem count_independent_of_chunks_witness:
  "\<exists>s'. count_loop True False True 3 4 h1_tag 0 0 h1_state = Some (0, 6, s')"
proof -
  have "stream (env h1_state) (tick h1_state) 0 4 [[65, 60], [104, 49], [62, 66]]"
    by (simp add: h1_state_def h1_env_def)
  moreover have "3 \<in> set (open_fds h1_state)" by (simp add: h1_state_def)
  moreover have "blocks 4 (concat [[65, 60], [104, 49], [62, 66]]) = [[65, 60, 104, 49], [62, 66]]"
    by (simp add: eval_nat_numeral)
  moreover have "count_occurances [65, 60, 104, 49] h1_tag = 0" "count_occurances [62, 66] h1_tag = 0"
    by (simp_all add: count_occurances_text h1_tag_bytes)
  ultimately show ?thesis
    using count_independent_of_chunks [of h1_state 4 "[[65, 60], [104, 49], [62, 66]]" 3 False]
    by (simp add: eval_nat_numeral)
qed





lemma buffer_size_bound: "h1_arguments events rest = Inr opts \<Longrightarrow> o_buffer_size opts < 2 ^ 64"
proof -
  have v: "fst (strtoul_digits str neg b t) < 2 ^ 64" for str neg b t
    by (simp add: strtoul_digits_def Let_def ULONG_MAX_def)
  have u: "fst (strtoul str) < 2 ^ 64" for str using v by (simp add: strtoul_def Let_def)
  have p: "n < 2 ^ 64" if "parse_ul str = Some n" for str n
    using that u [of str] by (cases "strtoul str") (auto simp: parse_ul_def split: if_splits)
  have l: "h1_option_loop es o1 = Inr o2 \<Longrightarrow> o_buffer_size o1 < 2 ^ 64 \<Longrightarrow> o_buffer_size o2 < 2 ^ 64"
    for es o1 o2
    by (induction es o1 rule: h1_option_loop.induct)
      (auto simp: size_argument_def split: if_splits option.splits dest: p)
  show "h1_arguments events rest = Inr opts \<Longrightarrow> o_buffer_size opts < 2 ^ 64"
    by (auto simp: h1_arguments_def size_argument_def default_options_def split: list.splits option.splits sum.splits
        dest: p l)
qed

section \<open>Parsing numbers\<close>

lemma dec_in_base:
  "(\<forall>c\<in>set (dec n). in_base 10 c \<and> \<not> is_blank c \<and> c \<noteq> CHR ''-'' \<and> c \<noteq> CHR ''+'') \<and>
   value_of 10 (dec n) = n \<and> dec n \<noteq> [] \<and> (0 < n \<longrightarrow> hd (dec n) \<noteq> CHR ''0'')"
proof (induction n rule: dec.induct)
  case (1 n)
  have d: "in_base 10 (char_of (48 + k)) \<and> \<not> is_blank (char_of (48 + k)) \<and>
      char_of (48 + k) \<noteq> CHR ''-'' \<and> char_of (48 + k) \<noteq> CHR ''+'' \<and>
      digit_of (char_of (48 + k)) = Some k \<and> (0 < k \<longrightarrow> char_of (48 + k) \<noteq> CHR ''0'')"
    if "k < 10" for k :: nat
  proof -
    have "(of_char (char_of (48 + k) :: char) :: nat) = 48 + k" using that by simp
    moreover from this have "char_of (48 + k) \<noteq> CHR ''-''" "char_of (48 + k) \<noteq> CHR ''+''"
      "0 < k \<longrightarrow> char_of (48 + k) \<noteq> CHR ''0''" by fastforce+
    ultimately show ?thesis using that by (simp add: in_base_def digit_of_def is_blank_def)
  qed
  show ?case
  proof (cases "n < 10")
    case True
    then show ?thesis using d [OF True] by (simp add: dec.simps [of n] value_of_def)
  next
    case False
    then have e: "dec n = dec (n div 10) @ [char_of (48 + n mod 10)]" by (simp add: dec.simps [of n])
    have "n mod 10 < 10" by simp
    note m = d [OF this]
    from 1 False have IH: "\<forall>c\<in>set (dec (n div 10)). in_base 10 c \<and> \<not> is_blank c \<and> c \<noteq> CHR ''-'' \<and> c \<noteq> CHR ''+''"
      "value_of 10 (dec (n div 10)) = n div 10" "dec (n div 10) \<noteq> []" "hd (dec (n div 10)) \<noteq> CHR ''0''"
      by auto
    have "value_of 10 (dec n) = 10 * (n div 10) + n mod 10"
      using IH(2) m by (simp add: e value_of_def)
    with IH m show ?thesis by (simp add: e)
  qed
qed

text \<open>
  C34: \<open>parse_ul\<close> reads back every decimal number below \<open>2^64\<close> and rejects every larger one.
\<close>

theorem parse_ul_decimal:
  "parse_ul (dec n) = (if n < 2 ^ 64 then Some n else None)"
proof (cases "n = 0")
  case True
  moreover have "dec 0 = ''0''" by code_simp
  then have "parse_ul (dec 0) = Some 0"
    by (simp add: parse_ul_def strtoul_def strtoul_digits_def is_blank_def in_base_def
        digit_of_def value_of_def ULONG_MAX_def Let_def)
  ultimately show ?thesis by simp
next
  case False
  note d = dec_in_base [of n]
  obtain c cs where c: "dec n = c # cs" using d by (cases "dec n") auto
  have t: "dropWhile is_blank (dec n) = dec n" "takeWhile (in_base 10) (dec n) = dec n"
    "dropWhile (in_base 10) (dec n) = []"
    using d c by (auto simp: dropWhile_eq_Nil_conv takeWhile_eq_all_conv)
  have h: "c \<noteq> CHR ''-''" "c \<noteq> CHR ''+''" "c \<noteq> CHR ''0''" using d c False by auto
  have "\<not> is_blank c" using d c by auto
  then have "strtoul (dec n) = strtoul_digits (dec n) False 10 (dec n)"
    by (simp add: strtoul_def Let_def c h)
  also have "\<dots> = (if n > ULONG_MAX then (ULONG_MAX, [], True) else (n, [], False))"
    using d by (simp add: strtoul_digits_def Let_def t(2,3))
  finally show ?thesis by (auto simp: parse_ul_def ULONG_MAX_def)
qed

text \<open>
  The parser also takes arguments that are no sizes: the empty string is 0, and a
  negative number wraps around to a huge one.
\<close>

lemma parse_ul_accepts:
  "parse_ul [] = Some 0 \<and> parse_ul ''-1'' = Some (2 ^ 64 - 1) \<and> parse_ul ''010'' = Some 8 \<and>
   parse_ul ''0x1f'' = Some 31 \<and> parse_ul ''12k'' = None"
  by (simp add: parse_ul_def strtoul_def strtoul_digits_def is_blank_def in_base_def digit_of_def
      value_of_def ULONG_MAX_def Let_def)

section \<open>Connecting\<close>

lemma connect_addresses_exact:
  "connect_addresses l fd None verbose s = ((r, fd'), s') \<Longrightarrow>
     gai_live s' = gai_live s \<and>
     (if r = - 1 then set (open_fds s') = set (open_fds s)
      else r = 0 \<and> fd' \<notin> set (open_fds s) \<and> set (open_fds s') = insert fd' (set (open_fds s)))"
proof (induction l fd "None :: string option" verbose s rule: connect_addresses.induct)
  case (1 fd verbose s)
  then show ?case by auto
next
  case (2 rp rps fd verbose s)
  define k where "k = lowest_fd (open_fds s)"
  have k: "k \<notin> set (open_fds s)" "0 \<le> k" by (simp_all add: k_def)
  show ?case
  proof (cases "a_socket (env s) (tick s)")
    case False
    define u where "u = h1_perror ''[h1-counter]: connect_socket: socket: failed to create socket'' (step_os s)"
    have so: "sys_socket s = (- 1, step_os s)" using False by (simp add: sys_socket_def)
    have u: "open_fds u = open_fds s" "gai_live u = gai_live s" by (simp_all add: u_def)
    have "connect_addresses rps (- 1) None verbose u = ((r, fd'), s')"
      using 2(3) so by (simp add: u_def)
    with 2(1) [of "(- 1, - 1)" u "- 1" "- 1"] so show ?thesis
      by (cases "r = - 1") (simp_all add: u flip: u_def)
  next
    case True
    define u where "u = (step_os s)\<lparr>open_fds := k # open_fds s\<rparr>"
    have so: "sys_socket s = (k, u)" using True by (simp add: sys_socket_def u_def k_def)
    define v where "v = (if verbose then printf ''\<newline>'' [] (print_addrinfo rp False (printf ''connecting '' [] u)) else u)"
    have v: "open_fds v = k # open_fds s" "gai_live v = gai_live s"
      by (simp_all add: v_def u_def printf_def)
    obtain c w where c: "sys_status a_connect k v = (c, w)" by fastforce
    have w: "w = step_os v" using c by (simp add: sys_status_def)
    show ?thesis
    proof (cases "c = - 1")
      case False
      with 2(3) so k c have "r = 0" "fd' = k" "s' = w" by (auto simp: Let_def v_def [symmetric])
      with k v w show ?thesis by simp
    next
      case True
      define x where "x = snd (sys_close k (h1_perror
        ''[h1-counter]: connect_socket: connect: failed connecting to remote address'' w))"
      have x: "set (open_fds x) = set (open_fds s)" "gai_live x = gai_live s"
        using k v w by (auto simp: x_def sys_close_def)
      have rec: "connect_addresses rps k None verbose x = ((r, fd'), s')"
        using 2(3) so k c True by (simp add: Let_def v_def [symmetric] x_def)
      with 2(2) [of "(0, k)" u 0 k v c w] so k c True show ?thesis
        by (cases "r = - 1") (simp_all add: x v_def [symmetric] x_def [symmetric])
    qed
  qed
qed

text \<open>
  Without a local address, \<open>connect_socket\<close> is exact about its resources: on success one
  fresh descriptor is open and returned, on failure none is left open, and the address list
  is freed in both cases.
\<close>

theorem connect_socket_exact:
  assumes "connect_socket k None host port verbose s = ((r, fd), s')"
  shows "gai_live s' = gai_live s \<and>
    (if r = - 1 then set (open_fds s') = set (open_fds s)
     else r = 0 \<and> fd \<notin> set (open_fds s) \<and> set (open_fds s') = insert fd (set (open_fds s)))"
proof -
  define t where "t = say verbose ''\<newline>'' []
    (case port of None \<Rightarrow> say verbose ''attempting to connect with remote server %s'' [AStr host] s
     | Some p \<Rightarrow> say verbose '':%s'' [AStr p]
         (say verbose ''attempting to connect with remote server %s'' [AStr host] s))"
  have t: "env t = env s" "tick t = tick s" "open_fds t = open_fds s" "gai_live t = gai_live s"
    by (simp_all add: t_def split: option.splits)
  show ?thesis
  proof (cases "a_gai (env s) (tick s)")
    case (GaiErr e)
    then have "sys_getaddrinfo t = (GaiErr e, step_os t)" by (simp add: sys_getaddrinfo_def t)
    with assms have "r = - 1" "open_fds s' = open_fds t" "gai_live s' = gai_live t"
      unfolding connect_socket_def Let_def t_def [symmetric] by auto
    then show ?thesis by (simp add: t)
  next
    case (GaiOk l)
    define u where "u = (step_os t)\<lparr>gai_live := Suc (gai_live t)\<rparr>"
    have g: "sys_getaddrinfo t = (GaiOk l, u)" using GaiOk by (simp add: sys_getaddrinfo_def t u_def)
    obtain x v where v: "connect_addresses l k None verbose u = (x, v)" by fastforce
    with assms g have x: "x = (r, fd)" "s' = sys_freeaddrinfo v"
      unfolding connect_socket_def Let_def t_def [symmetric] by auto
    have u: "open_fds u = open_fds s" "gai_live u = Suc (gai_live s)" by (simp_all add: u_def t)
    from connect_addresses_exact [of l k verbose u r fd v] v x show ?thesis
      by (cases "r = - 1") (simp_all add: u sys_freeaddrinfo_def)
  qed
qed

theorem connect_socket_exact_witness:
  "\<exists>s'. connect_socket 0 None ''host'' (Some ''80'') False h1_state = ((0, 4), s') \<and>
     set (open_fds s') = {0, 1, 2, 3, 4}"
proof -
  have "fst (connect_socket 0 None ''host'' (Some ''80'') False h1_state) = (0, 4)"
    by (simp add: connect_socket_def say_def sys_getaddrinfo_def h1_state_def h1_env_def sys_socket_def
        lowest_fd_def sys_status_def Let_def)
  then obtain s' where s': "connect_socket 0 None ''host'' (Some ''80'') False h1_state = ((0, 4), s')"
    by (metis prod.collapse)
  from s' connect_socket_exact [OF s'] show ?thesis by (auto simp: h1_state_def)
qed

text \<open>
  With a local address, \<open>bind_socket\<close> leaks: when every \<open>bind\<close> fails, one descriptor per
  address it tried stays open.
\<close>

theorem bind_socket_leaks:
  assumes "\<forall>n. a_socket (env s) n \<and> \<not> a_bind (env s) n" "a_gai (env s) (tick s) = GaiOk l"
  shows "\<exists>fd s'. bind_socket k verbose s = ((- 1, fd), s') \<and>
    length (open_fds s') = length (open_fds s) + length l"
proof -
  have "\<exists>fd s'. bind_addresses l k verbose s = ((- 1, fd), s') \<and>
      length (open_fds s') = length (open_fds s) + length l"
    if "\<forall>n. a_socket (env s) n \<and> \<not> a_bind (env s) n" for s k l
    using that
  proof (induction l arbitrary: k s)
    case (Cons rp l)
    define u where "u = (if verbose then printf ''\<newline>'' [] (print_addrinfo rp True (printf ''binding socket '' [] s)) else s)"
    have u: "env u = env s" "open_fds u = open_fds s" by (simp_all add: u_def printf_def)
    define v where "v = (step_os u)\<lparr>open_fds := lowest_fd (open_fds u) # open_fds u\<rparr>"
    have so: "sys_socket u = (lowest_fd (open_fds u), v)" using Cons.prems u by (simp add: sys_socket_def v_def)
    define w where "w = h1_perror ''[h1-counter]: bind_socket: bind: failed binding port'' (step_os v)"
    have b: "sys_status a_bind (lowest_fd (open_fds u)) v = (- 1, step_os v)"
      using Cons.prems u by (simp add: sys_status_def v_def)
    have ne: "lowest_fd (open_fds u) \<noteq> - 1" using lowest_fd_nonneg [of "open_fds u"] by linarith
    have w: "env w = env s" "length (open_fds w) = Suc (length (open_fds s))" by (simp_all add: w_def v_def u)
    have "bind_addresses (rp # l) k verbose s = bind_addresses l (lowest_fd (open_fds u)) verbose w"
      using so b ne by (simp add: Let_def u_def [symmetric] w_def)
    with Cons.IH [of w "lowest_fd (open_fds u)"] Cons.prems w show ?case by simp
  qed simp
  from this [of "(step_os s)\<lparr>gai_live := Suc (gai_live s)\<rparr>" l k] assms show ?thesis
    by (auto simp: bind_socket_def sys_getaddrinfo_def sys_freeaddrinfo_def)
qed

theorem bind_socket_leaks_witness:
  "\<exists>fd s'. bind_socket 0 False h1_state = ((- 1, fd), s') \<and> length (open_fds s') = 5"
  using bind_socket_leaks [of h1_state "[\<lparr>ai_family = 2, ai_socktype = 1, ai_protocol = 0,
        ai_addr = \<lparr>sa_family = 2, sin_port = 0x5000, sin_addr = 0x0100007f\<rparr>\<rparr>]" 0 False]
  by (simp add: h1_state_def h1_env_def eval_nat_numeral)

end
