(* ===== verification/Terminal.thy ===== *)
theory Terminal
  imports Os
begin

text \<open>
  A process that only has the operating system and its terminal: the state of the small
  programs of \<open>lab_03\<close>, \<open>lab_04\<close> and \<open>lab_10\<close>. \<open>tty_in\<close> is the input not yet read and
  \<open>tty_err\<close> the standard error.
\<close>

section \<open>State\<close>

record proc = os +
  tty_in :: "byte list"
  tty_err :: string

definition tty_perror :: "string \<Rightarrow> 'a proc_scheme \<Rightarrow> 'a proc_scheme" where
  "tty_perror msg s = s\<lparr>tty_err := tty_err s @ vformat ''%s: %s\<newline>'' [AStr msg, strerror s]\<rparr>"

definition tty_eprint :: "string \<Rightarrow> 'a proc_scheme \<Rightarrow> 'a proc_scheme" where
  "tty_eprint msg s = s\<lparr>tty_err := tty_err s @ msg\<rparr>"

lemma tty_frame [simp]:
  "env (tty_perror m s) = env s" "tick (tty_perror m s) = tick s" "open_fds (tty_perror m s) = open_fds s"
  "sent (tty_perror m s) = sent s" "gai_live (tty_perror m s) = gai_live s"
  "tty_in (tty_perror m s) = tty_in s"
  "env (tty_eprint m s) = env s" "tick (tty_eprint m s) = tick s" "open_fds (tty_eprint m s) = open_fds s"
  "sent (tty_eprint m s) = sent s" "gai_live (tty_eprint m s) = gai_live s"
  "env (printf f a s) = env (s :: 'a proc_scheme)" "tick (printf f a s) = tick s" "open_fds (printf f a s) = open_fds s"
  "sent (printf f a s) = sent s" "gai_live (printf f a s) = gai_live s" "tty_in (printf f a s) = tty_in s"
  by (simp_all add: tty_perror_def tty_eprint_def printf_def)

definition print_bytes :: "byte list \<Rightarrow> 'a proc_scheme \<Rightarrow> 'a proc_scheme" where
  "print_bytes bs s =
     printf ''\<newline>'' []
       (fold (\<lambda>b. printf '' %02x'' [AInt (uint b)]) bs (printf ''[%lu]:'' [AInt (int (length bs))] s))"

lemma print_bytes_frame [simp]:
  "env (print_bytes bs s) = env s" "tick (print_bytes bs s) = tick s" "open_fds (print_bytes bs s) = open_fds s"
  "sent (print_bytes bs s) = sent s" "tty_in (print_bytes bs s) = tty_in s"
proof -
  have "env (fold (\<lambda>b. printf '' %02x'' [AInt (uint b)]) bs t) = env t \<and>
    tick (fold (\<lambda>b. printf '' %02x'' [AInt (uint b)]) bs t) = tick t \<and>
    open_fds (fold (\<lambda>b. printf '' %02x'' [AInt (uint b)]) bs t) = open_fds t \<and>
    sent (fold (\<lambda>b. printf '' %02x'' [AInt (uint b)]) bs t) = sent t \<and>
    tty_in (fold (\<lambda>b. printf '' %02x'' [AInt (uint b)]) bs t) = tty_in t" for t :: "'a proc_scheme"
    by (induction bs arbitrary: t) simp_all
  then show "env (print_bytes bs s) = env s" "tick (print_bytes bs s) = tick s"
    "open_fds (print_bytes bs s) = open_fds s" "sent (print_bytes bs s) = sent s"
    "tty_in (print_bytes bs s) = tty_in s"
    by (simp_all add: print_bytes_def)
qed

section \<open>A process in a well-behaved environment\<close>

definition plain_proc :: "answers \<Rightarrow> int list \<Rightarrow> proc" where
  "plain_proc e fds =
     \<lparr>env = e, tick = 0, open_fds = fds, sent = \<lambda>fd. [], stdout = [], gai_live = 0, heap_live = 0,
      tty_in = [], tty_err = []\<rparr>"

lemma plain_fields [simp]:
  "env (plain_proc e fds) = e" "tick (plain_proc e fds) = 0" "open_fds (plain_proc e fds) = fds"
  "sent (plain_proc e fds) = (\<lambda>fd. [])" "stdout (plain_proc e fds) = []"
  by (simp_all add: plain_proc_def)

end
