(* ===== verification/Calc.thy ===== *)
theory Calc
  imports Terminal
begin

text \<open>
  \<open>lab_03/client.c\<close> and \<open>lab_03/server.c\<close>: a calculator over TCP. The client sends two 32-bit
  numbers and an operator in nine bytes, the server answers with eight. Both programs are
  modelled on the process state \<open>proc\<close>. \<open>None\<close> is a
  call that never returns.
\<close>

section \<open>The message formats\<close>

text \<open>The nine bytes of a request: both numbers in big-endian order around the operator.\<close>

definition put_u32 :: "u32 \<Rightarrow> byte list" where
  "put_u32 w =
     [ucast (drop_bit 24 (w AND 0xff000000)), ucast (drop_bit 16 (w AND 0x00ff0000)),
      ucast (drop_bit 8 (w AND 0x0000ff00)), ucast (w AND 0x000000ff)]"

definition get_u32 :: "byte list \<Rightarrow> u32" where
  "get_u32 d =
     push_bit 24 (ucast (d ! 0)) OR push_bit 16 (ucast (d ! 1)) OR
     push_bit 8 (ucast (d ! 2)) OR ucast (d ! 3)"

definition plus_char :: byte where
  "plus_char = 0x2b"

definition encode_request :: "u32 \<Rightarrow> u32 \<Rightarrow> byte list" where
  "encode_request lhs rhs = put_u32 lhs @ [plus_char] @ put_u32 rhs"

definition decode_request :: "byte list \<Rightarrow> u32 \<times> byte \<times> u32" where
  "decode_request d = (get_u32 d, d ! 4, get_u32 (drop 5 d))"

text \<open>The switch on the operator; the sum is computed in 64 bits.\<close>

definition opt_result :: "u32 \<Rightarrow> byte \<Rightarrow> u32 \<Rightarrow> u64" where
  "opt_result lhs opt rhs = (if opt = plus_char then ucast lhs + ucast rhs else 0)"

definition put_u64 :: "u64 \<Rightarrow> byte list" where
  "put_u64 r =
     [ucast (drop_bit 56 (r AND 0xff00000000000000)), ucast (drop_bit 48 (r AND 0x00ff000000000000)),
      ucast (drop_bit 40 (r AND 0x0000ff0000000000)), ucast (drop_bit 32 (r AND 0x000000ff00000000)),
      ucast (drop_bit 24 (r AND 0x00000000ff000000)), ucast (drop_bit 16 (r AND 0x0000000000ff0000)),
      ucast (drop_bit 8 (r AND 0x000000000000ff00)), ucast (r AND 0x00000000000000ff)]"

definition get_u64 :: "byte list \<Rightarrow> u64" where
  "get_u64 d =
     push_bit 56 (ucast (d ! 0)) OR push_bit 48 (ucast (d ! 1)) OR push_bit 40 (ucast (d ! 2)) OR
     push_bit 32 (ucast (d ! 3)) OR push_bit 24 (ucast (d ! 4)) OR push_bit 16 (ucast (d ! 5)) OR
     push_bit 8 (ucast (d ! 6)) OR ucast (d ! 7)"

section \<open>\<open>send_bytes\<close> of both programs\<close>

text \<open>
  The loop always sends from the start of the buffer, and \<open>*p += sent\<close> adds the count to the
  first byte of the buffer instead of moving the pointer. The buffer is returned as it is
  left.
\<close>

function calc_send :: "int \<Rightarrow> byte list \<Rightarrow> nat \<Rightarrow> 'a os_scheme \<Rightarrow> int \<times> byte list \<times> 'a os_scheme" where
  "calc_send sockfd bytes len s =
     (if len > 0 then
        (case sys_send sockfd (take len bytes) s of (snt, s1) \<Rightarrow>
           if snt \<le> 0 then (- 1, bytes, s1)
           else calc_send sockfd (bytes[0 := bytes ! 0 + word_of_int snt]) (len - nat snt) s1)
      else (0, bytes, s))"
  by pat_completeness auto
termination
  by (relation "measure (\<lambda>(fd, bytes, len, s). len)") auto

declare calc_send.simps [simp del]

section \<open>The server\<close>

text \<open>
  \<open>recv\<close> always writes at the start of \<open>recv_buffer\<close>; the result is \<open>total_read\<close> and the
  buffer.
\<close>

definition overwrite :: "byte list \<Rightarrow> byte list \<Rightarrow> byte list" where
  "overwrite d buf = d @ drop (length d) buf"

function read_request :: "int \<Rightarrow> nat \<Rightarrow> byte list \<Rightarrow> proc \<Rightarrow> nat \<times> byte list \<times> proc" where
  "read_request fd total_read buf s =
     (if total_read < 9 then
        (case sys_recv fd 256 s of ((r, d), s1) \<Rightarrow>
           if r \<le> 0 then
             (total_read, buf,
              if r = - 1 then tty_perror ''[server] error reading data from client'' s1 else s1)
           else read_request fd (total_read + length d) (overwrite d buf) s1)
      else (total_read, buf, s))"
  by pat_completeness auto
termination
  by (relation "measure (\<lambda>(fd, total_read, buf, s). 9 - total_read)")
    (auto dest!: sys_recv_result [OF sym] simp: diff_shrinks_less)

declare read_request.simps [simp del]

definition answer_request :: "int \<Rightarrow> byte list \<Rightarrow> proc \<Rightarrow> int \<times> proc" where
  "answer_request fd buf s =
     (let s1 = print_bytes (take 9 buf) (printf ''received buffer\<newline>'' [] s) in
      case decode_request buf of (lhs, opt, rhs) \<Rightarrow>
        (let r = opt_result lhs opt rhs;
             s2 = (if opt = plus_char
                   then printf ''adding requested numbers %u + %u = %lu\<newline>''
                          [AInt (uint lhs), AInt (uint rhs), AInt (uint r)] s1
                   else printf ''unknown opt from client\<newline>'' [] s1);
             s3 = print_bytes (put_u64 r) (printf ''sending buffer\<newline>'' [] s2)
         in case calc_send fd (put_u64 r) 8 s3 of (x, _, s4) \<Rightarrow>
              if x = - 1 then (x, tty_perror ''[server] failed sending data to client'' s4)
              else (x, s4)))"

partial_function (option) client_session ::
  "int \<Rightarrow> nat \<Rightarrow> byte list \<Rightarrow> proc \<Rightarrow> (nat \<times> byte list \<times> proc) option" where
  "client_session fd session_read buf s =
     (case read_request fd 0 buf s of (total_read, buf1, s1) \<Rightarrow>
        if total_read < 9 then
          Some (session_read, buf1, printf ''not enough bytes received from client\<newline>'' [] s1)
        else if total_read > 9 then
          Some (session_read, buf1, printf ''too many bytes received from client\<newline>'' [] s1)
        else
          (case answer_request fd buf1 s1 of (r, s2) \<Rightarrow>
             if r = - 1 then Some (session_read + total_read, buf1, s2)
             else client_session fd (session_read + total_read) buf1 s2))"

declare client_session.simps [code]

text \<open>One turn of the accept loop; \<open>shutdown\<close> is a call on the socket that may fail.\<close>

definition serve_client :: "int \<Rightarrow> nat \<Rightarrow> byte list \<Rightarrow> proc \<Rightarrow> (nat \<times> byte list \<times> proc) option" where
  "serve_client serverfd session_read buf s =
     (case sys_accept serverfd (printf ''waiting for client connection\<newline>'' [] s) of
        ((_, None), s1) \<Rightarrow> Some (session_read, buf, tty_perror ''[server] failed to accept client'' s1)
      | ((fd, Some _), s1) \<Rightarrow>
          (case client_session fd session_read buf
                  (printf ''accpeted client. checking for data\<newline>'' [] s1) of
             None \<Rightarrow> None
           | Some (n, buf1, s2) \<Rightarrow>
               (case sys_status a_close fd s2 of (r, s3) \<Rightarrow>
                  (let s4 = (if r \<noteq> 0 then tty_perror ''[server] failed to shutdown client socket'' s3
                             else s3);
                       s5 = snd (sys_close fd s4)
                   in Some (n, buf1, printf ''total bytes read from client: %lu\<newline>'' [AInt (int n)] s5)))))"

fun calc_bind_try :: "addrinfo list \<Rightarrow> proc \<Rightarrow> int option \<times> proc" where
  "calc_bind_try [] s = (None, s)"
| "calc_bind_try (rp # rps) s =
     (case sys_socket s of (fd, s1) \<Rightarrow>
        if fd = - 1 then calc_bind_try rps s1
        else (case sys_status a_bind fd s1 of (r, s2) \<Rightarrow>
                if r = 0 then (Some fd, s2) else calc_bind_try rps (snd (sys_close fd s2))))"

definition calc_bind_and_listen :: "proc \<Rightarrow> int \<times> proc" where
  "calc_bind_and_listen s =
     (case sys_getaddrinfo s of
        (GaiErr e, s1) \<Rightarrow>
          (- 1, tty_eprint (vformat ''[server] bind_and_listen: getaddrinfo: %s\<newline>'' [AStr e]) s1)
      | (GaiOk result, s1) \<Rightarrow>
          (case calc_bind_try result s1 of
             (None, s2) \<Rightarrow> (- 1, tty_perror ''[server] bind_and_listen: bind'' s2)
           | (Some fd, s2) \<Rightarrow>
               (case sys_status a_listen fd s2 of (r, s3) \<Rightarrow>
                  if r = - 1 then
                    (- 1, snd (sys_close fd (tty_perror ''[server] bind_and_listen: listen'' s3)))
                  else (fd, sys_freeaddrinfo s3))))"

section \<open>The client\<close>

fun calc_connect_try :: "addrinfo list \<Rightarrow> proc \<Rightarrow> int option \<times> proc" where
  "calc_connect_try [] s = (None, s)"
| "calc_connect_try (rp # rps) s =
     (case sys_socket s of (fd, s1) \<Rightarrow>
        if fd = - 1 then calc_connect_try rps s1
        else (case sys_status a_connect fd s1 of (r, s2) \<Rightarrow>
                if r \<noteq> - 1 then (Some fd, s2) else calc_connect_try rps (snd (sys_close fd s2))))"

definition lookup_and_connect :: "proc \<Rightarrow> int \<times> proc" where
  "lookup_and_connect s =
     (case sys_getaddrinfo s of
        (GaiErr e, s1) \<Rightarrow>
          (- 1, tty_eprint (vformat ''[client] lookup_and_connect: getaddrinfo: %s\<newline>'' [AStr e]) s1)
      | (GaiOk result, s1) \<Rightarrow>
          (case calc_connect_try result s1 of
             (None, s2) \<Rightarrow> (- 1, tty_perror ''[client] lookup_and_connect: connect'' s2)
           | (Some fd, s2) \<Rightarrow> (fd, sys_freeaddrinfo s2)))"

text \<open>The response loop: a result of 0 (end of stream) does not leave it.\<close>

partial_function (option) read_response ::
  "int \<Rightarrow> int \<Rightarrow> byte list \<Rightarrow> proc \<Rightarrow> (int \<times> byte list \<times> proc) option" where
  "read_response fd total_read buf s =
     (if total_read < 8 then
        (case sys_recv fd 256 s of ((r, d), s1) \<Rightarrow>
           if r = - 1 then
             Some (total_read, buf, tty_perror ''[client] error reading data from remote host'' s1)
           else read_response fd (total_read + r) (overwrite d buf) s1)
      else Some (total_read, buf, s))"

declare read_response.simps [code]

text \<open>One turn of the client's loop for two numbers that were read; the result printed.\<close>

definition ask_sum :: "int \<Rightarrow> u32 \<Rightarrow> u32 \<Rightarrow> proc \<Rightarrow> (u64 option \<times> proc) option" where
  "ask_sum fd lhs rhs s =
     (let s1 = print_bytes (encode_request lhs rhs) (printf ''sending buffer\<newline>'' [] s) in
      case calc_send fd (encode_request lhs rhs @ replicate 247 0) 9 s1 of (x, _, s2) \<Rightarrow>
        if x = - 1 then Some (None, tty_perror ''[client] failed to send data to server'' s2)
        else (case read_response fd 0 (replicate 256 0) s2 of
                None \<Rightarrow> None
              | Some (n, buf, s3) \<Rightarrow>
                  if n \<noteq> 8 then
                    Some (None, tty_eprint ''[client] failed to receive the expected amount of bytes\<newline>'' s3)
                  else
                    (let s4 = print_bytes (take 8 buf) (printf ''received buffer\<newline>'' [] s3);
                         r = get_u64 buf
                     in Some (Some r, printf ''%u + %u = %lu\<newline>''
                          [AInt (uint lhs), AInt (uint rhs), AInt (uint r)] s4))))"

text \<open>
  \<open>scanf("%u")\<close>: white space, an optional sign, decimal digits. The number is converted as a
  64-bit one (all ones when it does not fit) and stored in 32 bits. The input is left before
  the first character that does not fit the format.
\<close>

datatype scan_result = ScanEOF | ScanBad "byte list" | ScanNum u32 "byte list"

definition dec_byte :: "byte \<Rightarrow> bool" where
  "dec_byte b \<longleftrightarrow> 48 \<le> b \<and> b \<le> 57"

definition dec_value :: "byte list \<Rightarrow> nat" where
  "dec_value ds = foldl (\<lambda>a b. 10 * a + (unat b - 48)) 0 ds"

definition scanf_u :: "byte list \<Rightarrow> scan_result" where
  "scanf_u inp =
     (case dropWhile isspace inp of
        [] \<Rightarrow> ScanEOF
      | c # cs \<Rightarrow>
          (let r = (if c = 43 \<or> c = 45 then cs else c # cs);
               ds = takeWhile dec_byte r;
               n = dec_value ds
           in if ds = [] then ScanBad r
              else ScanNum (if 2 ^ 64 \<le> n then - 1 else if c = 45 then - word_of_nat n else word_of_nat n)
                     (drop (length ds) r)))"

definition clear_stdin :: "byte list \<Rightarrow> byte list" where
  "clear_stdin inp = drop 1 (dropWhile (\<lambda>c. c \<noteq> 10) inp)"

text \<open>One prompt of the client: the number, or the reason it starts over.\<close>

definition read_number :: "string \<Rightarrow> string \<Rightarrow> proc \<Rightarrow> u32 option \<times> proc" where
  "read_number prompt bad s =
     (let s1 = printf prompt [] s in
      case scanf_u (tty_in s1) of
        ScanEOF \<Rightarrow> (None, tty_perror ''[client] error reading input'' (s1\<lparr>tty_in := clear_stdin []\<rparr>))
      | ScanBad rest \<Rightarrow> (None, printf bad [] (s1\<lparr>tty_in := clear_stdin rest\<rparr>))
      | ScanNum n rest \<Rightarrow> (Some n, s1\<lparr>tty_in := rest\<rparr>))"

definition client_turn :: "int \<Rightarrow> proc \<Rightarrow> proc option" where
  "client_turn fd s =
     (case read_number ''lhs: '' ''invalid lhs value provided\<newline>'' s of
        (None, s1) \<Rightarrow> Some s1
      | (Some lhs, s1) \<Rightarrow>
          (case read_number ''rhs: '' ''invalid rhs value provided\<newline>'' s1 of
             (None, s2) \<Rightarrow> Some s2
           | (Some rhs, s2) \<Rightarrow> map_option snd (ask_sum fd lhs rhs s2)))"

text \<open>The loop of \<open>main\<close> has no way out, so the \<open>close\<close> behind it is not modelled.\<close>

partial_function (option) client_loop :: "int \<Rightarrow> proc \<Rightarrow> (nat \<times> proc) option" where
  "client_loop fd s = (case client_turn fd s of None \<Rightarrow> None | Some s1 \<Rightarrow> client_loop fd s1)"

declare client_loop.simps [code]

definition client_main :: "proc \<Rightarrow> (nat \<times> proc) option" where
  "client_main s =
     (case lookup_and_connect s of (fd, s1) \<Rightarrow> if fd < 0 then Some (1, s1) else client_loop fd s1)"

section \<open>The main loop of the server\<close>

partial_function (option) serve_clients :: "int \<Rightarrow> nat \<Rightarrow> byte list \<Rightarrow> proc \<Rightarrow> (nat \<times> proc) option" where
  "serve_clients serverfd session_read buf s =
     (case serve_client serverfd session_read buf s of
        None \<Rightarrow> None
      | Some (n, buf1, s1) \<Rightarrow> serve_clients serverfd n buf1 s1)"

declare serve_clients.simps [code]

text \<open>\<open>recv_buffer\<close> is not initialised; \<open>buf\<close> is what the stack happens to hold.\<close>

definition calc_server_main :: "byte list \<Rightarrow> proc \<Rightarrow> (nat \<times> proc) option" where
  "calc_server_main buf s =
     (case calc_bind_and_listen s of (fd, s1) \<Rightarrow>
        if fd < 0 then Some (1, s1) else serve_clients fd 0 buf s1)"

end
