(* ===== verification/CalcProps.thy ===== *)
theory CalcProps
  imports Calc Addresses
begin

text \<open>
  The calculator of \<open>lab_03\<close>: the two message formats are inverse to each other, a sum that
  travels from the client to the server and back is exact, and what the send loop and the
  response loop do when the network cuts a message or the server closes.
\<close>

section \<open>The formats\<close>

lemma bit_255: "n < 8 \<Longrightarrow> bit (255 :: int) n"
proof -
  assume "n < 8"
  have "(255 :: int) = mask 8" by (simp add: mask_eq_exp_minus_1)
  then show ?thesis using \<open>n < 8\<close> by (simp only: bit_mask_iff) simp
qed

lemma put_u32_be32: "put_u32 w = be32 w"
  unfolding put_u32_def be32_def
  by (simp, intro conjI; rule bit_word_eqI; auto simp: bit_simps bit_255)

lemma get_u32_bytes: "get_u32 (a # b # c # d # r) = u32_of_bytes d c b a"
  unfolding get_u32_def u32_of_bytes_def by (simp add: or.assoc or.commute or.left_commute)

lemma get_put_u32: "get_u32 (put_u32 w @ r) = w"
  by (simp add: put_u32_be32 be32_def get_u32_bytes codec_simps)

lemma length_put_u32 [simp]: "length (put_u32 w) = 4" "put_u32 w \<noteq> []"
  by (simp_all add: put_u32_def)

lemma length_encode_request [simp]: "length (encode_request a b) = 9"
  by (simp add: encode_request_def)

lemma decode_encode_request: "decode_request (encode_request a b @ r) = (a, plus_char, b)"
proof -
  have "drop 5 (encode_request a b @ r) = put_u32 b @ r" by (simp add: encode_request_def put_u32_def)
  moreover have "(encode_request a b @ r) ! 4 = plus_char" by (simp add: encode_request_def put_u32_def)
  moreover have "get_u32 (encode_request a b @ r) = a"
    using get_put_u32 [of a "[plus_char] @ put_u32 b @ r"] by (simp add: encode_request_def)
  ultimately show ?thesis by (simp add: decode_request_def get_put_u32)
qed

lemma length_put_u64 [simp]: "length (put_u64 r) = 8"
  by (simp add: put_u64_def)

lemma put_u64_bytes:
  "put_u64 r = [ucast (drop_bit 56 r), ucast (drop_bit 48 r), ucast (drop_bit 40 r), ucast (drop_bit 32 r),
     ucast (drop_bit 24 r), ucast (drop_bit 16 r), ucast (drop_bit 8 r), ucast r]"
  unfolding put_u64_def
  by (simp, intro conjI; rule bit_word_eqI; auto simp: bit_simps bit_255)

lemma get_put_u64: "get_u64 (put_u64 r @ x) = r"
proof (rule bit_word_eqI)
  fix n assume "n < LENGTH(64)"
  then consider "n < 8" | "8 \<le> n" "n < 16" | "16 \<le> n" "n < 24" | "24 \<le> n" "n < 32"
    | "32 \<le> n" "n < 40" | "40 \<le> n" "n < 48" | "48 \<le> n" "n < 56" | "56 \<le> n" "n < 64"
    by fastforce
  then show "bit (get_u64 (put_u64 r @ x)) n = bit r n"
    by cases (auto simp: get_u64_def put_u64_bytes bit_simps)
qed

lemma opt_result_exact: "unat (opt_result a plus_char b) = unat a + unat b"
proof -
  have "unat a < 2 ^ 32" "unat b < 2 ^ 32"
    using unsigned_less [of a, where 'a = nat] unsigned_less [of b, where 'a = nat] by simp_all
  then show ?thesis
    by (simp add: opt_result_def unat_word_ariths unsigned_ucast_eq take_bit_nat_eq_self)
qed

section \<open>One exchange\<close>

lemma sys_send_whole:
  assumes "fd \<in> set (open_fds s)" "a_send (env s) (tick s) = SendTake n" "length bs \<le> n"
  shows "sys_send fd bs s = (int (length bs), (step_os s)\<lparr>sent := (sent s)(fd := sent s fd @ bs)\<rparr>)"
  using assms by (simp add: sys_send_def Let_def)

lemma calc_send_whole:
  assumes "fd \<in> set (open_fds s)" "a_send (env s) (tick s) = SendTake n" "len \<le> n"
    "0 < len" "len \<le> length bs"
  shows "\<exists>bs'. calc_send fd bs len s =
    (0, bs', (step_os s)\<lparr>sent := (sent s)(fd := sent s fd @ take len bs)\<rparr>)"
  using assms sys_send_whole [OF assms(1,2), of "take len bs"]
  by (subst calc_send.simps) (simp add: calc_send.simps [of fd _ 0])

lemma sys_recv_chunk:
  assumes "fd \<in> set (open_fds s)" "a_recv (env s) (tick s) = RecvData d" "length d \<le> cap"
  shows "sys_recv fd cap s = ((int (length d), d), step_os s)"
  using assms by (simp add: sys_recv_def)

lemma read_request_chunk:
  assumes "fd \<in> set (open_fds s)" "a_recv (env s) (tick s) = RecvData d" "n < 9" "d \<noteq> []" "length d \<le> 256"
  shows "read_request fd n buf s = read_request fd (n + length d) (overwrite d buf) (step_os s)"
  using assms by (subst read_request.simps) (simp add: sys_recv_chunk)

lemma read_request_done: "9 \<le> n \<Longrightarrow> read_request fd n buf s = (n, buf, s)"
  by (simp add: read_request.simps [of fd n])

lemma read_response_chunk:
  assumes "fd \<in> set (open_fds s)" "a_recv (env s) (tick s) = RecvData d" "length d = 8"
  shows "read_response fd 0 buf s = Some (8, overwrite d buf, step_os s)"
  using assms
  by (subst read_response.simps) (simp add: sys_recv_chunk read_response.simps [of fd 8])

lemma answer_request_sum:
  assumes "fd \<in> set (open_fds s)" "a_send (env s) (tick s) = SendTake n" "8 \<le> n"
  shows "\<exists>s'. answer_request fd (encode_request a b @ r) s = (0, s') \<and>
    sent s' = (sent s)(fd := sent s fd @ put_u64 (opt_result a plus_char b))"
proof -
  define reply where "reply = put_u64 (opt_result a plus_char b)"
  define u where "u = print_bytes reply (printf ''sending buffer\<newline>'' []
    (printf ''adding requested numbers %u + %u = %lu\<newline>''
       [AInt (uint a), AInt (uint b), AInt (uint (opt_result a plus_char b))]
       (print_bytes (encode_request a b) (printf ''received buffer\<newline>'' [] s))))"
  have u: "env u = env s" "tick u = tick s" "open_fds u = open_fds s" "sent u = sent s"
    by (simp_all add: u_def)
  have "length reply = 8" by (simp add: reply_def)
  with calc_send_whole [of fd u n 8 reply] assms u obtain bs' where
    "calc_send fd reply 8 u = (0, bs', (step_os u)\<lparr>sent := (sent s)(fd := sent s fd @ reply)\<rparr>)"
    by auto
  then show ?thesis
    by (simp add: answer_request_def decode_encode_request Let_def flip: reply_def u_def)
qed

text \<open>
  C19: One exchange of the calculator. When the request of the client reaches the server in one
  piece, the server reads exactly its nine bytes and answers with the eight bytes of the sum;
  when these reach the client in one piece, it sent exactly that request and reports exactly
  that answer. The sum of two 32-bit numbers is exact: it never wraps.
\<close>

theorem sum_exchange:
  fixes a b :: u32
  defines "request \<equiv> encode_request a b" and "reply \<equiv> put_u64 (opt_result a plus_char b)"
  assumes client: "cfd \<in> set (open_fds c)" "a_send (env c) (tick c) = SendTake n" "9 \<le> n"
      "a_recv (env c) (Suc (tick c)) = RecvData reply"
    and server: "sfd \<in> set (open_fds s)" "a_recv (env s) (tick s) = RecvData request"
      "a_send (env s) (Suc (tick s)) = SendTake m" "8 \<le> m"
  shows "\<exists>buf1 s1 s2 c' r.
    read_request sfd 0 buf s = (9, buf1, s1) \<and> answer_request sfd buf1 s1 = (0, s2) \<and>
    sent s2 = (sent s)(sfd := sent s sfd @ reply) \<and>
    ask_sum cfd a b c = Some (Some r, c') \<and> sent c' = (sent c)(cfd := sent c cfd @ request) \<and>
    unat r = unat a + unat b"
proof -
  have lens: "length request = 9" "length reply = 8" by (simp_all add: request_def reply_def)
  have "read_request sfd 0 buf s = (9, request @ drop 9 buf, step_os s)"
    using server(1,2) lens
    by (subst read_request_chunk) (auto simp: read_request_done overwrite_def)
  moreover obtain s2 where "answer_request sfd (request @ drop 9 buf) (step_os s) = (0, s2)"
    "sent s2 = (sent s)(sfd := sent s sfd @ reply)"
    using answer_request_sum [of sfd "step_os s" m a b "drop 9 buf"] server
    by (auto simp: request_def reply_def)
  moreover
  define u where "u = print_bytes request (printf ''sending buffer\<newline>'' [] c)"
  have u: "env u = env c" "tick u = tick c" "open_fds u = open_fds c" "sent u = sent c"
    by (simp_all add: u_def)
  define v where "v = (step_os u)\<lparr>sent := (sent c)(cfd := sent c cfd @ request)\<rparr>"
  obtain bs' where sends: "calc_send cfd (request @ replicate 247 0) 9 u = (0, bs', v)"
    using calc_send_whole [of cfd u n 9 "request @ replicate 247 0"] client u lens by (auto simp: v_def)
  have "read_response cfd 0 (replicate 256 0) v = Some (8, overwrite reply (replicate 256 0), step_os v)"
    using client u lens by (intro read_response_chunk) (simp_all add: v_def)
  with sends have "\<exists>c'. ask_sum cfd a b c = Some (Some (get_u64 (overwrite reply (replicate 256 0))), c') \<and>
      sent c' = sent v"
    by (simp add: ask_sum_def Let_def printf_frame flip: request_def u_def)
  moreover have "get_u64 (overwrite reply (replicate 256 0)) = opt_result a plus_char b"
    by (simp add: overwrite_def reply_def get_put_u64)
  ultimately show ?thesis using opt_result_exact [of a b] by (auto simp: v_def)
qed

theorem sum_exchange_witness:
  "\<exists>buf1 s1 s2 c' r.
    read_request 4 0 [] (plain_proc (plain_env\<lparr>a_recv := \<lambda>n. RecvData (encode_request 40 2)\<rparr>) [4]) = (9, buf1, s1) \<and>
    answer_request 4 buf1 s1 = (0, s2) \<and> sent s2 4 = put_u64 (opt_result 40 plus_char 2) \<and>
    ask_sum 3 40 2 (plain_proc (plain_env\<lparr>a_recv := \<lambda>n. RecvData (put_u64 (opt_result 40 plus_char 2))\<rparr>) [3])
      = Some (Some r, c') \<and> sent c' 3 = encode_request 40 2 \<and> unat r = 42"
  using sum_exchange [of 3 "plain_proc (plain_env\<lparr>a_recv := \<lambda>n. RecvData (put_u64 (opt_result 40 plus_char 2))\<rparr>) [3]"
      100 40 2 4 "plain_proc (plain_env\<lparr>a_recv := \<lambda>n. RecvData (encode_request 40 2)\<rparr>) [4]" 100 "[]"]
  by fastforce

text \<open>
  C35: \<open>recv\<close> always writes at the start of the server's buffer. A request that arrives in two
  pieces, cut in front of the operator, still counts as nine bytes, but the server takes the
  lowest byte of the second number for the operator and answers 0, unless that byte happens to
  be a plus sign.
\<close>

theorem cut_request_misread:
  assumes "fd \<in> set (open_fds s)" "a_recv (env s) (tick s) = RecvData (take 4 (encode_request a b))"
    "a_recv (env s) (Suc (tick s)) = RecvData (drop 4 (encode_request a b))"
  shows "\<exists>buf1 s1 lhs rhs. read_request fd 0 buf s = (9, buf1, s1) \<and>
    decode_request buf1 = (lhs, ucast b, rhs) \<and>
    (ucast b \<noteq> plus_char \<longrightarrow> opt_result lhs (ucast b) rhs = 0)"
proof -
  have e: "take 4 (encode_request a b) = put_u32 a" "drop 4 (encode_request a b) = plus_char # put_u32 b"
    by (simp_all add: encode_request_def)
  have "read_request fd 0 buf s = read_request fd 4 (overwrite (put_u32 a) buf) (step_os s)"
    using assms e by (subst read_request_chunk) auto
  also have "\<dots> = (9, overwrite (plus_char # put_u32 b) (overwrite (put_u32 a) buf), step_os (step_os s))"
    using assms e by (subst read_request_chunk) (auto simp: read_request_done)
  finally show ?thesis
    by (simp add: decode_request_def overwrite_def put_u32_be32 be32_def opt_result_def)
qed

theorem cut_request_misread_witness:
  "\<exists>buf1 s1 lhs rhs.
    read_request 3 0 [] (plain_proc (plain_env\<lparr>a_recv := \<lambda>n. RecvData
      (if n = 0 then take 4 (encode_request 40 2) else drop 4 (encode_request 40 2))\<rparr>) [3]) = (9, buf1, s1) \<and>
    decode_request buf1 = (lhs, 2, rhs) \<and> opt_result lhs 2 rhs = 0"
  using cut_request_misread [of 3 "plain_proc (plain_env\<lparr>a_recv := \<lambda>n. RecvData
      (if n = 0 then take 4 (encode_request 40 2) else drop 4 (encode_request 40 2))\<rparr>) [3]" 40 2 "[]"]
  by (simp add: plus_char_def)

text \<open>
  C36: A partial \<open>send\<close> corrupts the message of both programs: after \<open>k\<close> bytes went out, the
  loop adds \<open>k\<close> to the first byte of the buffer and starts again from it, so the connection
  carries the first \<open>k\<close> bytes and then a wrong beginning of the message instead of its rest.
  The call still reports success.
\<close>

theorem partial_send_corrupts:
  assumes "fd \<in> set (open_fds s)" "a_send (env s) (tick s) = SendTake k" "0 < k" "k < length bs"
    "a_send (env s) (Suc (tick s)) = SendTake n" "length bs \<le> n"
  shows "\<exists>bs' s'. calc_send fd bs (length bs) s = (0, bs', s') \<and>
    sent s' fd = sent s fd @ take k bs @ take (length bs - k) (bs[0 := bs ! 0 + of_nat k])"
proof -
  define t where "t = (step_os s)\<lparr>sent := (sent s)(fd := sent s fd @ take k bs)\<rparr>"
  have "sys_send fd bs s = (int k, t)"
    using assms by (simp add: sys_send_def Let_def min_def t_def)
  then have "calc_send fd bs (length bs) s = calc_send fd (bs[0 := bs ! 0 + of_nat k]) (length bs - k) t"
    using assms by (subst calc_send.simps) auto
  moreover have "length bs - k \<le> n" using assms by simp
  then obtain bs' where "calc_send fd (bs[0 := bs ! 0 + of_nat k]) (length bs - k) t =
      (0, bs', (step_os t)\<lparr>sent := (sent t)(fd := sent t fd @ take (length bs - k) (bs[0 := bs ! 0 + of_nat k]))\<rparr>)"
    using calc_send_whole [of fd t n "length bs - k" "bs[0 := bs ! 0 + of_nat k]"] assms
    by (simp add: t_def) blast
  ultimately show ?thesis by (simp add: t_def)
qed

theorem partial_send_corrupts_witness:
  "\<exists>bs' s'. calc_send 3 [1, 2, 3] 3
      (plain_proc (plain_env\<lparr>a_send := \<lambda>n. if n = 0 then SendTake 1 else SendTake 9\<rparr>) [3]) = (0, bs', s') \<and>
    sent s' 3 = [1, 2, 2]"
  using partial_send_corrupts [of 3
      "plain_proc (plain_env\<lparr>a_send := \<lambda>n. if n = 0 then SendTake 1 else SendTake 9\<rparr>) [3]" 1 "[1, 2, 3]" 9]
  by (simp add: eval_nat_numeral)

section \<open>End of stream\<close>

lemma read_response_eof:
  assumes "read_response fd n buf s = Some res" "fd \<in> set (open_fds s)"
    "\<forall>k\<ge>tick s. a_recv (env s) k = RecvData []"
  shows "8 \<le> n"
  using assms
proof (induction rule: read_response.raw_induct [rotated, consumes 1])
  case (1 loop fd n buf s res)
  show ?case
  proof (rule ccontr)
    assume "\<not> 8 \<le> n"
    moreover have "sys_recv fd 256 s = ((0, []), step_os s)"
      using 1(3,4) by (simp add: sys_recv_def)
    ultimately have "loop fd n (overwrite [] buf) (step_os s) = Some res"
      using 1(2) by simp
    from 1(1) [OF this] 1(3,4) \<open>\<not> 8 \<le> n\<close> show False by simp
  qed
qed

text \<open>
  C37: The client treats the end of the stream as zero bytes received: when the server closes
  the connection instead of answering, the exchange never returns.
\<close>

theorem client_hangs_on_close:
  assumes "fd \<in> set (open_fds s)" "a_send (env s) (tick s) = SendTake n" "9 \<le> n"
    "\<forall>k>tick s. a_recv (env s) k = RecvData []"
  shows "ask_sum fd a b s = None"
proof -
  define u where "u = print_bytes (encode_request a b) (printf ''sending buffer\<newline>'' [] s)"
  have u: "env u = env s" "tick u = tick s" "open_fds u = open_fds s"
    by (simp_all add: u_def)
  obtain bs' v where v: "calc_send fd (encode_request a b @ replicate 247 0) 9 u = (0, bs', v)"
    "env v = env s" "tick v = Suc (tick s)" "open_fds v = open_fds s"
    using calc_send_whole [of fd u n 9 "encode_request a b @ replicate 247 0"] assms u by auto
  have "read_response fd 0 (replicate 256 0) v = None"
  proof (cases "read_response fd 0 (replicate 256 0) v")
    case (Some res)
    from read_response_eof [OF Some] assms v show ?thesis by simp
  qed
  with v(1) show ?thesis by (simp add: ask_sum_def Let_def flip: u_def)
qed

theorem client_hangs_on_close_witness:
  "ask_sum 3 40 2 (plain_proc plain_env [3]) = None"
  by (rule client_hangs_on_close [of _ _ 100]) simp_all

section \<open>Opening the connections\<close>

text \<open>
  Both address loops leave nothing open behind. On success the address list is freed, on failure
  it is leaked: \<open>gai_live\<close> counts the lists in use.
\<close>

interpretation calc_bind: address_loop calc_bind_try a_bind id id id "\<lambda>s. (gai_live s, sent s)"
  by unfold_locales (auto split: prod.splits)

interpretation calc_connect: address_loop calc_connect_try a_connect id id id "\<lambda>s. (gai_live s, sent s)"
  by unfold_locales (auto simp: sys_status_def split: prod.splits)

lemma lookup_and_connect_exact:
  assumes "lookup_and_connect s = (fd, s')"
  shows "fd = - 1 \<and> set (open_fds s') = set (open_fds s) \<or>
    0 \<le> fd \<and> fd \<notin> set (open_fds s) \<and> set (open_fds s') = insert fd (set (open_fds s)) \<and>
    gai_live s' = gai_live s"
  using assms
  by (auto simp: lookup_and_connect_def sys_getaddrinfo_def sys_freeaddrinfo_def Let_def
      split: gai_ans.splits option.splits prod.splits
      dest!: calc_connect.exact)

lemma connect_failure_leaks:
  assumes "lookup_and_connect s = (- 1, s')" "a_gai (env s) (tick s) = GaiOk l"
  shows "gai_live s' = Suc (gai_live s)"
  using assms
  by (auto simp: lookup_and_connect_def sys_getaddrinfo_def sys_freeaddrinfo_def Let_def
      split: option.splits prod.splits dest!: calc_connect.exact)

end
