(* ===== verification/Select.thy ===== *)
theory Select
  imports Terminal Machine
begin

text \<open>
  \<open>lab_10/server.c\<close>: a server that waits with \<open>select\<close> for its listening socket and its
  clients and prints what the clients send. A descriptor that does not fit into an \<open>fd_set\<close>
  (\<open>FD_SETSIZE\<close> is 1024) makes \<open>FD_SET\<close> write outside the set; such a step has the outcome
  \<open>Overrun\<close>.
\<close>

section \<open>State\<close>

record select_server = proc +
  all_sockets :: "int set"
  max_socket :: int

definition find_max_fd :: "int set \<Rightarrow> int" where
  "find_max_fd fs =
     (case find (\<lambda>i. int i \<in> fs) (rev [0..<nat FD_SETSIZE]) of Some i \<Rightarrow> int i | None \<Rightarrow> 0)"

section \<open>\<open>bind_and_listen\<close>\<close>

fun sel_bind_try :: "addrinfo list \<Rightarrow> select_server \<Rightarrow> int option \<times> select_server" where
  "sel_bind_try [] s = (None, s)"
| "sel_bind_try (rp # rps) s =
     (case sys_socket s of (fd, s1) \<Rightarrow>
        if fd = - 1 then sel_bind_try rps s1
        else (case sys_status a_bind fd s1 of (r, s2) \<Rightarrow>
                if r = 0 then (Some fd, tty_perror ''[server] bind_and_listen: bind'' s2)
                else sel_bind_try rps (snd (sys_close fd s2))))"

definition sel_bind_and_listen :: "select_server \<Rightarrow> int \<times> select_server" where
  "sel_bind_and_listen s =
     (case sys_getaddrinfo s of
        (GaiErr e, s1) \<Rightarrow>
          (- 1, tty_eprint (vformat ''[server] bind_and_listen: getaddrinfo: %s\<newline>'' [AStr e]) s1)
      | (GaiOk result, s1) \<Rightarrow>
          (case sel_bind_try result s1 of
             (None, s2) \<Rightarrow> (- 1, s2)
           | (Some fd, s2) \<Rightarrow>
               (case sys_status a_listen fd s2 of (r, s3) \<Rightarrow>
                  if r = - 1 then
                    (- 1, snd (sys_close fd (tty_perror ''[server] bind_and_listen: listen'' s3)))
                  else (fd, sys_freeaddrinfo s3))))"

section \<open>One ready descriptor\<close>

definition dump_byte :: "byte \<Rightarrow> string" where
  "dump_byte b = (if b \<le> 0x0f then vformat '' 0%x'' [AInt (uint b)] else vformat '' %x'' [AInt (uint b)])"

definition dump_text :: "int \<Rightarrow> byte list \<Rightarrow> string" where
  "dump_text fd d =
     vformat ''[server] client %d:'' [AInt fd] @ concat (map dump_byte d) @ ''\<newline>'' @
     concat (map (\<lambda>b. vformat ''%c'' [AInt (uint b)]) d) @ ''\<newline>''"

definition accept_ready :: "int \<Rightarrow> select_server \<Rightarrow> select_server option" where
  "accept_ready listen_sock s =
     (case sys_accept listen_sock (printf ''[server] accepting new connection\<newline>'' [] s) of
        ((client_sock, _), s1) \<Rightarrow>
          if client_sock = - 1 then Some (tty_perror ''[server] failed to accept client'' s1)
          else (case FD_SET client_sock (all_sockets s1) of
                  None \<Rightarrow> None
                | Some fds \<Rightarrow>
                    (let s2 = s1\<lparr>all_sockets := fds\<rparr>
                     in Some (if client_sock > max_socket s2 then s2\<lparr>max_socket := client_sock\<rparr> else s2))))"

definition client_ready :: "int \<Rightarrow> select_server \<Rightarrow> select_server" where
  "client_ready fd s =
     (case sys_recv fd 2048 s of ((r, d), s1) \<Rightarrow>
        if r \<le> 0 then
          (let s2 = (if r = - 1 then
                       tty_eprint (vformat ''[server] client %d error: %s\<newline>'' [AInt fd, strerror s1]) s1 else s1);
               s3 = snd (sys_close fd (printf ''[server] client: %d closing\<newline>'' [AInt fd] s2))
           in s3\<lparr>all_sockets := FD_CLR fd (all_sockets s3)\<rparr>)
        else s1\<lparr>stdout := stdout s1 @ dump_text fd d\<rparr>)"

definition serve_ready :: "int \<Rightarrow> int \<Rightarrow> select_server \<Rightarrow> select_server option" where
  "serve_ready listen_sock fd s =
     (if fd = listen_sock then accept_ready listen_sock s else Some (client_ready fd s))"

lemma serve_ready_max:
  "serve_ready l fd s = Some s' \<Longrightarrow> max 1024 (max_socket s') \<le> max 1024 (max_socket s)"
  by (auto simp: serve_ready_def accept_ready_def client_ready_def FD_SET_def FD_SETSIZE_def Let_def
      tty_perror_def tty_eprint_def printf_def sys_accept_def sys_recv_def sys_close_def
      split: prod.splits if_splits accept_ans.splits recv_ans.splits option.splits)

section \<open>The scan over the descriptors and one turn of the main loop\<close>

text \<open>
  \<open>max_socket\<close> may grow while the loop runs, and its condition reads it again on every turn.
\<close>

function scan_sockets :: "int \<Rightarrow> int set \<Rightarrow> int \<Rightarrow> select_server \<Rightarrow> select_server option" where
  "scan_sockets listen_sock call_set fd s =
     (if fd \<le> max_socket s then
        (if fd \<notin> call_set then scan_sockets listen_sock call_set (fd + 1) s
         else (case serve_ready listen_sock fd s of
                 None \<Rightarrow> None
               | Some s1 \<Rightarrow> scan_sockets listen_sock call_set (fd + 1) s1))
      else Some s)"
  by pat_completeness auto
termination
  by (relation "measure (\<lambda>(l, c, fd, s). nat (max 1024 (max_socket s) + 1 - fd))")
    (auto dest!: serve_ready_max)

declare scan_sockets.simps [simp del]

datatype sel_outcome = SelExit int select_server | Overrun | Running select_server

definition select_round :: "int \<Rightarrow> select_server \<Rightarrow> sel_outcome" where
  "select_round listen_sock s =
     (let s1 = printf ''[server] waiting for activity\<newline>'' [] s in
      case sys_pselect (max_socket s1 + 1) (all_sockets s1) s1 of
        (SelError _, s2) \<Rightarrow> SelExit (- 1) (tty_perror ''[server] ERROR in select() call'' s2)
      | (SelSet call_set, s2) \<Rightarrow>
          (case scan_sockets listen_sock call_set 3 s2 of
             None \<Rightarrow> Overrun
           | Some s3 \<Rightarrow> Running s3))"

text \<open>The code in front of the loop; the result of \<open>bind_and_listen\<close> is not checked.\<close>

definition select_start :: "select_server \<Rightarrow> (int \<times> select_server) option" where
  "select_start s =
     (case sel_bind_and_listen (printf ''[server] creating listening socket\<newline>'' [] s) of (fd, s1) \<Rightarrow>
        (case FD_SET fd {} of
           None \<Rightarrow> None
         | Some fds \<Rightarrow> Some (fd, s1\<lparr>all_sockets := fds, max_socket := fd\<rparr>)))"

text \<open>The server as a state machine: the listening socket and the state at the loop head.\<close>

definition select_init :: "int \<times> select_server \<Rightarrow> bool" where
  "select_init c \<longleftrightarrow> (\<exists>s. set (open_fds s) = {0, 1, 2} \<and> select_start s = Some c)"

definition select_step :: "int \<times> select_server \<Rightarrow> int \<times> select_server \<Rightarrow> bool" where
  "select_step c c' \<longleftrightarrow> fst c' = fst c \<and> select_round (fst c) (snd c) = Running (snd c')"

end
