(* ===== verification/SelectProps.thy ===== *)
theory SelectProps
  imports Select Addresses
begin

text \<open>
  The select server of \<open>lab_10\<close>: the set it waits for is exact in every reachable state, every
  client that \<open>select\<close> reports is served in the same turn, and the server writes outside the
  set when the descriptors below 1024 are used up.
\<close>

section \<open>What a turn leaves alone and what it adds\<close>

definition grows :: "select_server \<Rightarrow> select_server \<Rightarrow> bool" where
  "grows s s' \<longleftrightarrow> env s' = env s \<and> tick s \<le> tick s' \<and> (\<exists>z. stdout s' = stdout s @ z)"

lemma grows_refl [simp]: "grows s s"
  by (simp add: grows_def)

lemma grows_trans: "grows s t \<Longrightarrow> grows t u \<Longrightarrow> grows s u"
  by (auto simp: grows_def)

lemma accept_ready_grows: "accept_ready l s = Some s' \<Longrightarrow> grows s s'"
  by (auto simp: grows_def accept_ready_def FD_SET_def Let_def tty_perror_def printf_def sys_accept_def
      split: prod.splits if_splits accept_ans.splits option.splits)

lemma client_ready_grows: "grows s (client_ready fd s)"
  by (auto simp: grows_def client_ready_def Let_def tty_eprint_def printf_def sys_recv_def sys_close_def
      split: prod.splits if_splits recv_ans.splits)

lemma serve_ready_grows: "serve_ready l fd s = Some s' \<Longrightarrow> grows s s'"
  by (auto simp: serve_ready_def accept_ready_grows client_ready_grows split: if_splits)

lemma scan_sockets_grows: "scan_sockets l cs fd s = Some s' \<Longrightarrow> grows s s'"
proof (induction l cs fd s rule: scan_sockets.induct)
  case (1 l cs fd s)
  show ?case
  proof (cases "fd \<le> max_socket s")
    case le: True
    show ?thesis
    proof (cases "fd \<in> cs")
      case True
      with 1(3) le obtain t where t: "serve_ready l fd s = Some t"
        "scan_sockets l cs (fd + 1) t = Some s'"
        by (auto simp: scan_sockets.simps [of l cs fd s] split: option.splits)
      from 1(2) [OF le] True t serve_ready_grows [OF t(1)] show ?thesis
        by (auto intro: grows_trans)
    qed (use 1 le in \<open>auto simp: scan_sockets.simps [of l cs fd s]\<close>)
  qed (use 1(3) in \<open>auto simp: scan_sockets.simps [of l cs fd s]\<close>)
qed

section \<open>The invariant\<close>

definition select_ok :: "int \<times> select_server \<Rightarrow> bool" where
  "select_ok c \<longleftrightarrow> (case c of (l, s) \<Rightarrow>
     set (open_fds s) = {0, 1, 2} \<union> all_sockets s \<and> l \<in> all_sockets s \<and>
     (\<forall>fd\<in>all_sockets s. 3 \<le> fd \<and> fd \<le> max_socket s) \<and> max_socket s < FD_SETSIZE)"

lemma accept_ready_ok:
  assumes "accept_ready l s = Some s'" "select_ok (l, s)"
  shows "select_ok (l, s') \<and> all_sockets s \<subseteq> all_sockets s'"
proof -
  have "lowest_fd (open_fds s) \<notin> {0, 1, 2}"
    using assms(2) lowest_fd_notin [of "open_fds s"] by (auto simp: select_ok_def)
  then have "3 \<le> lowest_fd (open_fds s)" using lowest_fd_nonneg [of "open_fds s"] by (simp del: lowest_fd_nonneg)
  moreover have "\<forall>fd\<in>all_sockets s. max_socket s < x \<longrightarrow> fd \<le> x" for x
    using assms(2) by (fastforce simp: select_ok_def)
  ultimately show ?thesis using assms
    by (auto simp: select_ok_def accept_ready_def FD_SET_def Let_def tty_perror_def printf_def sys_accept_def
        split: prod.splits if_splits accept_ans.splits option.splits)
qed

lemma client_ready_ok:
  assumes "select_ok (l, s)" "fd \<in> all_sockets s" "fd \<noteq> l"
  shows "select_ok (l, client_ready fd s) \<and> all_sockets s - {fd} \<subseteq> all_sockets (client_ready fd s)"
  using assms
  by (auto simp: select_ok_def client_ready_def Let_def tty_eprint_def printf_def sys_recv_def sys_close_def
      FD_CLR_def split: prod.splits if_splits recv_ans.splits)

lemma serve_ready_ok:
  assumes "serve_ready l fd s = Some s'" "select_ok (l, s)" "fd \<in> all_sockets s"
  shows "select_ok (l, s') \<and> all_sockets s - {fd} \<subseteq> all_sockets s'"
  using assms accept_ready_ok [of l s s'] client_ready_ok [of l s fd]
  by (auto simp: serve_ready_def split: if_splits)

lemma scan_sockets_ok:
  assumes "scan_sockets l cs fd s = Some s'" "select_ok (l, s)" "\<forall>x\<in>cs. fd \<le> x \<longrightarrow> x \<in> all_sockets s"
  shows "select_ok (l, s')"
  using assms
proof (induction l cs fd s rule: scan_sockets.induct)
  case (1 l cs fd s)
  show ?case
  proof (cases "fd \<le> max_socket s")
    case le: True
    show ?thesis
    proof (cases "fd \<in> cs")
      case True
      with 1(3) le obtain t where t: "serve_ready l fd s = Some t"
        "scan_sockets l cs (fd + 1) t = Some s'"
        by (auto simp: scan_sockets.simps [of l cs fd s] split: option.splits)
      have "fd \<in> all_sockets s" using 1(5) True by auto
      note ok = serve_ready_ok [OF t(1) 1(4) this]
      from 1(2) [OF le] True t ok 1(5) show ?thesis by fastforce
    qed (use 1 le in \<open>auto simp: scan_sockets.simps [of l cs fd s]\<close>)
  qed (use 1(3,4) in \<open>auto simp: scan_sockets.simps [of l cs fd s]\<close>)
qed

text \<open>Start: every socket that was not used is closed again.\<close>

interpretation select_addresses: address_loop sel_bind_try a_bind id id
  "tty_perror ''[server] bind_and_listen: bind''" "\<lambda>s. (gai_live s, sent s)"
  by unfold_locales (auto simp: tty_perror_def split: prod.splits)

lemmas sel_bind_try_effect = select_addresses.exact_None select_addresses.exact_Some

lemma select_start_ok:
  assumes "select_start s = Some (l, s')" "set (open_fds s) = {0, 1, 2}"
  shows "select_ok (l, s')"
proof -
  define s0 where "s0 = printf ''[server] creating listening socket\<newline>'' [] s"
  obtain fd t where b: "sel_bind_and_listen s0 = (fd, t)" by fastforce
  with assms(1) have fd: "0 \<le> fd" "fd < FD_SETSIZE" "l = fd" "s' = t\<lparr>all_sockets := {fd}, max_socket := fd\<rparr>"
    by (auto simp: select_start_def FD_SET_def simp flip: s0_def split: if_splits)
  have "0 \<le> fd \<Longrightarrow> fd \<notin> set (open_fds s) \<and> set (open_fds t) = insert fd (set (open_fds s))"
    using b
    by (auto simp: sel_bind_and_listen_def sys_getaddrinfo_def Let_def sys_status_def sys_freeaddrinfo_def s0_def
        printf_def split: prod.splits gai_ans.splits option.splits if_splits dest!: sel_bind_try_effect)
  with fd assms(2) show ?thesis by (auto simp: select_ok_def)
qed

lemma sys_pselect_set:
  "sys_pselect n fds s = (SelSet cs, t) \<Longrightarrow> cs \<subseteq> fds \<and> t = step_os s"
  by (auto simp: sys_pselect_inter split: if_splits select_ans.splits)

lemma select_round_running:
  assumes "select_round l s = Running s'"
  obtains cs t where "cs \<subseteq> all_sockets s" "scan_sockets l cs 3 t = Some s'"
    "t = step_os (printf ''[server] waiting for activity\<newline>'' [] s)"
proof -
  define s0 where "s0 = printf ''[server] waiting for activity\<newline>'' [] s"
  have s0: "all_sockets s0 = all_sockets s" by (simp add: s0_def printf_def)
  obtain r t where p: "sys_pselect (max_socket s0 + 1) (all_sockets s0) s0 = (r, t)" by fastforce
  from assms p obtain cs where "r = SelSet cs" "scan_sockets l cs 3 t = Some s'"
    by (auto simp: select_round_def Let_def simp flip: s0_def split: select_res.splits option.splits)
  with p sys_pselect_set [of "max_socket s0 + 1" "all_sockets s0" s0 cs t] s0 show thesis
    by (intro that [of cs t]) (simp_all flip: s0_def)
qed

lemma select_round_ok:
  assumes "select_round l s = Running s'" "select_ok (l, s)" shows "select_ok (l, s')"
proof -
  obtain cs t where r: "cs \<subseteq> all_sockets s" "scan_sockets l cs 3 t = Some s'"
    "t = step_os (printf ''[server] waiting for activity\<newline>'' [] s)"
    using select_round_running [OF assms(1)] by blast
  then have "select_ok (l, t)" "all_sockets t = all_sockets s"
    using assms(2) by (simp_all add: select_ok_def printf_def)
  with r scan_sockets_ok [OF r(2)] show ?thesis by blast
qed

interpretation sel: invariant_machine select_init select_step select_ok
proof unfold_locales
  fix c c' :: "int \<times> select_server"
  show "select_init c \<Longrightarrow> select_ok c"
    using select_start_ok [of _ "fst c" "snd c"] by (auto simp: select_init_def)
  show "select_step c c' \<Longrightarrow> select_ok c \<Longrightarrow> select_ok c'"
    using select_round_ok [of "fst c" "snd c" "snd c'"] by (cases c; cases c') (auto simp: select_step_def)
qed

lemma find_max_fd_member:
  assumes "select_ok (l, s)"
  shows "find_max_fd (all_sockets s) \<in> all_sockets s" "find_max_fd (all_sockets s) \<le> max_socket s"
proof -
  have l: "l \<in> all_sockets s" "3 \<le> l" "l < 1024"
    using assms by (fastforce simp: select_ok_def FD_SETSIZE_def)+
  show "find_max_fd (all_sockets s) \<in> all_sockets s"
  proof (cases "find (\<lambda>i. int i \<in> all_sockets s) (rev [0..<nat FD_SETSIZE])")
    case None
    then have "\<forall>x<nat FD_SETSIZE. int x \<notin> all_sockets s" by (auto simp: find_None_iff)
    moreover have "nat l < nat FD_SETSIZE" "int (nat l) = l" using l by (simp_all add: FD_SETSIZE_def)
    ultimately show ?thesis using l(1) by metis
  next
    case (Some i)
    then have "int i \<in> all_sockets s" by (auto simp: find_Some_iff)
    with Some show ?thesis by (simp add: find_max_fd_def)
  qed
  with assms show "find_max_fd (all_sockets s) \<le> max_socket s" by (auto simp: select_ok_def)
qed

section \<open>Every ready client is served\<close>

text \<open>
  What the server prints for the answer of one \<open>recv\<close>, and that a state \<open>s'\<close> follows from
  \<open>s\<close> by a run in which \<open>fd\<close> was read and the answer printed.
\<close>

definition reply_text :: "int \<Rightarrow> recv_ans \<Rightarrow> string" where
  "reply_text fd ans =
     (case ans of
        RecvFail \<Rightarrow> vformat ''[server] client: %d closing\<newline>'' [AInt fd]
      | RecvData d \<Rightarrow> if d = [] then vformat ''[server] client: %d closing\<newline>'' [AInt fd]
                      else dump_text fd (take 2048 d))"

definition served :: "int \<Rightarrow> select_server \<Rightarrow> select_server \<Rightarrow> bool" where
  "served fd s s' \<longleftrightarrow> (\<exists>n pre post. tick s \<le> n \<and> n < tick s' \<and>
     stdout s' = stdout s @ pre @ reply_text fd (a_recv (env s) n) @ post)"

lemma served_after:
  assumes "grows s t" "served fd t u" shows "served fd s u"
proof -
  from assms(1) obtain z where z: "env t = env s" "tick s \<le> tick t" "stdout t = stdout s @ z"
    by (auto simp: grows_def)
  from assms(2) obtain n pre post where n: "tick t \<le> n" "n < tick u"
    "stdout u = stdout t @ pre @ reply_text fd (a_recv (env t) n) @ post"
    by (auto simp: served_def)
  with z have "stdout u = stdout s @ (z @ pre) @ reply_text fd (a_recv (env s) n) @ post" by simp
  with n z show ?thesis unfolding served_def by (meson le_trans)
qed

lemma served_before:
  assumes "served fd s t" "grows t u" shows "served fd s u"
proof -
  from assms(2) obtain z where z: "tick t \<le> tick u" "stdout u = stdout t @ z"
    by (auto simp: grows_def)
  from assms(1) obtain n pre post where n: "tick s \<le> n" "n < tick t"
    "stdout t = stdout s @ pre @ reply_text fd (a_recv (env s) n) @ post"
    by (auto simp: served_def)
  with z have "stdout u = stdout s @ pre @ reply_text fd (a_recv (env s) n) @ (post @ z)" by simp
  with n z show ?thesis unfolding served_def by (meson less_le_trans)
qed

lemma client_ready_served: "fd \<in> set (open_fds s) \<Longrightarrow> served fd s (client_ready fd s)"
  unfolding served_def
  by (rule exI [of _ "tick s"], rule exI [of _ "[]"], rule exI [of _ "[]"])
    (auto simp: client_ready_def reply_text_def min_def Let_def tty_eprint_def printf_def sys_recv_def sys_close_def
      split: prod.splits if_splits recv_ans.splits)

text \<open>The scan returns unless the listening socket is still to come and no descriptor is free.\<close>

definition fd_free :: "select_server \<Rightarrow> bool" where
  "fd_free s \<longleftrightarrow> (\<exists>x. 0 \<le> x \<and> x < FD_SETSIZE \<and> x \<notin> set (open_fds s))"

lemma accept_ready_returns: "fd_free s \<Longrightarrow> \<exists>s'. accept_ready l s = Some s'"
proof -
  assume "fd_free s"
  then have "lowest_fd (open_fds s) < FD_SETSIZE"
    by (auto simp: fd_free_def dest!: lowest_fd_least)
  then show ?thesis
    by (auto simp: accept_ready_def FD_SET_def Let_def printf_def sys_accept_def
        split: prod.splits if_splits accept_ans.splits option.splits)
qed

lemma client_ready_free: "fd_free s \<Longrightarrow> fd_free (client_ready fd s)"
  by (auto simp: fd_free_def client_ready_def Let_def tty_eprint_def printf_def sys_recv_def sys_close_def
      split: prod.splits if_splits recv_ans.splits)

lemma scan_sockets_serves:
  assumes "select_ok (l, s)" "\<forall>x\<in>cs. fd \<le> x \<longrightarrow> x \<in> all_sockets s" "fd \<le> l \<longrightarrow> fd_free s"
  shows "\<exists>s'. scan_sockets l cs fd s = Some s' \<and> (\<forall>x\<in>cs. fd \<le> x \<longrightarrow> x \<noteq> l \<longrightarrow> served x s s')"
  using assms
proof (induction l cs fd s rule: scan_sockets.induct)
  case (1 l cs fd s)
  note sc = scan_sockets.simps [of l cs fd s]
  show ?case
  proof (cases "fd \<le> max_socket s")
    case le: True
    show ?thesis
    proof (cases "fd \<in> cs")
      case True
      then have fd: "fd \<in> all_sockets s" "fd \<in> set (open_fds s)"
        using 1(3,4) by (auto simp: select_ok_def)
      obtain t where t: "serve_ready l fd s = Some t" "fd \<noteq> l \<Longrightarrow> served fd s t" "fd + 1 \<le> l \<longrightarrow> fd_free t"
      proof (cases "fd = l")
        case True
        with 1(5) accept_ready_returns [of s l] that show ?thesis by (auto simp: serve_ready_def)
      next
        case False
        with fd(2) 1(5) show ?thesis
          by (intro that [of "client_ready fd s"])
            (auto simp: serve_ready_def client_ready_served client_ready_free)
      qed
      note ok = serve_ready_ok [OF t(1) 1(3) fd(1)]
      have "\<forall>x\<in>cs. fd + 1 \<le> x \<longrightarrow> x \<in> all_sockets t" using 1(4) ok by fastforce
      from 1(2) [OF le _ t(1) _ this t(3)] True ok obtain s' where
        s': "scan_sockets l cs (fd + 1) t = Some s'" "\<forall>x\<in>cs. fd + 1 \<le> x \<longrightarrow> x \<noteq> l \<longrightarrow> served x t s'"
        by auto
      have "served x s s'" if "x \<in> cs" "fd \<le> x" "x \<noteq> l" for x
      proof (cases "x = fd")
        case True
        with that t(2) scan_sockets_grows [OF s'(1)] show ?thesis by (auto intro: served_before)
      next
        case False
        with that s'(2) serve_ready_grows [OF t(1)] show ?thesis by (auto intro: served_after)
      qed
      with le True t(1) s'(1) show ?thesis by (auto simp: sc)
    next
      case False
      have "\<forall>x\<in>cs. fd + 1 \<le> x \<longrightarrow> x \<in> all_sockets s" using 1(4) by auto
      from 1(1) [OF le False 1(3) this] 1(5) obtain s' where
        s': "scan_sockets l cs (fd + 1) s = Some s'" "\<forall>x\<in>cs. fd + 1 \<le> x \<longrightarrow> x \<noteq> l \<longrightarrow> served x s s'"
        by auto
      have "served x s s'" if "x \<in> cs" "fd \<le> x" "x \<noteq> l" for x
        using s'(2) that False by (cases "x = fd") auto
      with le False s'(1) show ?thesis by (auto simp: sc)
    qed
  next
    case False
    then have "\<forall>x\<in>cs. \<not> fd \<le> x" using 1(3,4) by (fastforce simp: select_ok_def)
    with False show ?thesis by (auto simp: sc)
  qed
qed

section \<open>The properties\<close>

text \<open>A process before its start, and the same process in front of its main loop.\<close>

definition idle_addr :: sockaddr where
  "idle_addr = \<lparr>sa_family = 2, sin_port = 0x3412, sin_addr = 0x0100007f\<rparr>"

definition idle_env :: answers where
  "idle_env = plain_env\<lparr>
     a_gai := \<lambda>n. GaiOk [\<lparr>ai_family = 2, ai_socktype = 1, ai_protocol = 0, ai_addr = idle_addr\<rparr>],
     a_accept := \<lambda>n. AcceptConn idle_addr,
     a_select := \<lambda>n. if n = 4 then SelReady {3} else SelReady {3, 4},
     a_recv := \<lambda>n. RecvData [104, 105]\<rparr>"

definition idle_process :: select_server where
  "idle_process = \<lparr>env = idle_env, tick = 0, open_fds = [2, 1, 0], sent = \<lambda>fd. [], stdout = [],
     gai_live = 0, heap_live = 0, tty_in = [], tty_err = [], all_sockets = {}, max_socket = 0\<rparr>"

definition idle_server :: select_server where
  "idle_server = snd (the (select_start idle_process))"

lemma idle_start: "select_start idle_process = Some (3, idle_server)"
proof -
  have "lowest_fd [2, 1, 0] = 3"
    using lowest_fd_notin [of "[2, 1, 0]"] lowest_fd_nonneg [of "[2, 1, 0]"] lowest_fd_least [of 3 "[2, 1, 0]"]
    by (simp del: lowest_fd_notin lowest_fd_nonneg) 
  then have "\<exists>s. select_start idle_process = Some (3, s)"
    by (simp add: select_start_def sel_bind_and_listen_def sys_getaddrinfo_def Let_def idle_process_def
        idle_env_def plain_env_def printf_def sys_socket_def sys_status_def FD_SET_def FD_SETSIZE_def
        tty_perror_def sys_freeaddrinfo_def)
  then show ?thesis by (auto simp: idle_server_def)
qed

definition busy_server :: select_server where
  "busy_server = (case select_round 3 idle_server of Running s \<Rightarrow> s | _ \<Rightarrow> idle_process)"

lemma busy_round: "select_round 3 idle_server = Running busy_server"
proof -
  have "case select_round 3 idle_server of Running s \<Rightarrow> True | _ \<Rightarrow> False" by code_simp
  then show ?thesis by (auto simp: busy_server_def split: sel_outcome.splits)
qed

lemma busy_fields:
  "all_sockets busy_server = {3, 4}" "set (open_fds busy_server) = {0, 1, 2, 3, 4}"
  "tick busy_server = 6" "a_select (env busy_server) 6 = SelReady {3, 4}"
  by code_simp+

lemma busy_reachable: "reach select_init select_step (3, busy_server)"
proof -
  have "select_init (3, idle_server)"
    using idle_start by (auto simp: select_init_def idle_process_def intro!: exI [of _ idle_process])
  moreover have "select_step (3, idle_server) (3, busy_server)"
    by (simp add: select_step_def busy_round)
  ultimately show ?thesis by (blast intro: reach.intros)
qed

text \<open>
  C20: In every reachable state the set the server waits for is exact: the open descriptors are
  the standard streams and the sockets of the set, the listening socket is one of them, and
  each lies between 3 and \<open>max_socket\<close>, which fits into the set. No connection is leaked and
  no closed descriptor is given to \<open>select\<close>. \<open>find_max_fd\<close> finds a socket of the set, never
  above \<open>max_socket\<close>.
\<close>

theorem waiting_set_exact:
  assumes "reach select_init select_step (l, s)"
  shows "set (open_fds s) = {0, 1, 2} \<union> all_sockets s \<and> l \<in> all_sockets s \<and>
    (\<forall>fd\<in>all_sockets s. 3 \<le> fd \<and> fd \<le> max_socket s) \<and> max_socket s < 1024 \<and>
    find_max_fd (all_sockets s) \<in> all_sockets s \<and> find_max_fd (all_sockets s) \<le> max_socket s"
  using sel.inv_reach [OF assms] find_max_fd_member by (auto simp: select_ok_def FD_SETSIZE_def)

theorem waiting_set_exact_witness:
  "set (open_fds busy_server) = {0, 1, 2} \<union> all_sockets busy_server \<and> 3 \<in> all_sockets busy_server \<and>
   max_socket busy_server < 1024"
  using waiting_set_exact [OF busy_reachable] by blast

text \<open>
  C21: Liveness of a turn: in a reachable state, when \<open>select\<close> reports a set of ready
  descriptors and some descriptor below 1024 is free for a new connection, the turn completes,
  and every ready client was read in it: what it sent (at most 2048 bytes) is printed in hex
  and as text, and an end of stream or an error is reported as closing.
\<close>

theorem ready_clients_served:
  assumes "reach select_init select_step (l, s)" "a_select (env s) (tick s) = SelReady r"
    "3 \<le> x" "x < 1024" "x \<notin> all_sockets s"
  shows "\<exists>s'. select_round l s = Running s' \<and>
    (\<forall>fd\<in>r \<inter> all_sockets s. fd \<noteq> l \<longrightarrow> served fd s s')"
proof -
  note ok = sel.inv_reach [OF assms(1)]
  define s0 where "s0 = printf ''[server] waiting for activity\<newline>'' [] s"
  have f: "all_sockets s0 = all_sockets s" "open_fds s0 = open_fds s" "max_socket s0 = max_socket s"
    "env s0 = env s" "tick s0 = tick s"
    by (simp_all add: s0_def printf_def)
  have in_range: "all_sockets s \<inter> {..<max_socket s + 1} = all_sockets s" "all_sockets s \<subseteq> set (open_fds s)"
    using ok by (fastforce simp: select_ok_def)+
  then have p: "sys_pselect (max_socket s0 + 1) (all_sockets s0) s0 = (SelSet (all_sockets s \<inter> r), step_os s0)"
    using assms(2) by (simp add: sys_pselect_inter f)
  have "select_ok (l, step_os s0)" "fd_free (step_os s0)"
    using ok assms(3-5) by (auto simp: select_ok_def fd_free_def f FD_SETSIZE_def intro!: exI [of _ x])
  then obtain s' where s': "scan_sockets l (all_sockets s \<inter> r) 3 (step_os s0) = Some s'"
    "\<forall>fd\<in>all_sockets s \<inter> r. 3 \<le> fd \<longrightarrow> fd \<noteq> l \<longrightarrow> served fd (step_os s0) s'"
    using scan_sockets_serves [of l "step_os s0" "all_sockets s \<inter> r" 3] f by auto
  have "select_round l s = Running s'"
    using p s'(1) by (simp add: select_round_def Let_def flip: s0_def)
  moreover have "grows s (step_os s0)" by (simp add: grows_def s0_def printf_def)
  then have "\<forall>fd\<in>r \<inter> all_sockets s. fd \<noteq> l \<longrightarrow> served fd s s'"
    using s'(2) ok by (auto simp: select_ok_def intro: served_after)
  ultimately show ?thesis by blast
qed

theorem ready_clients_served_witness:
  "\<exists>s'. select_round 3 busy_server = Running s' \<and> served 4 busy_server s'"
  using ready_clients_served [OF busy_reachable, of "{3, 4}" 5] by (auto simp: busy_fields)

text \<open>
  C38: The server has no limit on its connections: in a process that may open more than 1024
  descriptors, when all of 3 to 1023 are in use and one more connection is ready, it accepts it
  and \<open>FD_SET\<close> writes outside the set.
\<close>

theorem full_set_overruns:
  assumes "set (open_fds s) = {0..1023}" "all_sockets s = {3..1023}" "max_socket s = 1023" "l \<in> {3..1023}"
    "a_select (env s) (tick s) = SelReady {l}" "a_accept (env s) (Suc (tick s)) = AcceptConn a"
  shows "select_round l s = Overrun"
proof -
  define s0 where "s0 = printf ''[server] waiting for activity\<newline>'' [] s"
  have f: "all_sockets s0 = all_sockets s" "open_fds s0 = open_fds s" "max_socket s0 = max_socket s"
    "env s0 = env s" "tick s0 = tick s"
    by (simp_all add: s0_def printf_def)
  have "all_sockets s \<inter> {..<max_socket s + 1} \<inter> {l} = {l}"
    "all_sockets s \<inter> {..<max_socket s + 1} \<subseteq> set (open_fds s)"
    using assms by auto
  then have p: "sys_pselect (max_socket s0 + 1) (all_sockets s0) s0 = (SelSet {l}, step_os s0)"
    unfolding sys_pselect_inter f using assms(5) by simp
  have "\<not> lowest_fd (open_fds s) < 1024"
    using lowest_fd_notin [of "open_fds s"] lowest_fd_nonneg [of "open_fds s"] assms(1)
    by (auto simp del: lowest_fd_notin lowest_fd_nonneg)
  then have acc: "accept_ready l (step_os s0) = None"
    using assms by (auto simp: accept_ready_def printf_def sys_accept_def f FD_SET_def FD_SETSIZE_def)
  have "scan_sockets l {l} fd (step_os s0) = None" if "fd \<le> l" for fd
    using that
  proof (induction "nat (l - fd)" arbitrary: fd rule: less_induct)
    case less
    show ?case
    proof (cases "fd = l")
      case True
      with acc assms(3,4) f show ?thesis
        by (simp add: scan_sockets.simps [of l "{l}" l] serve_ready_def)
    next
      case False
      with less assms(3,4) f show ?thesis
        by (simp add: scan_sockets.simps [of l "{l}" fd])
    qed
  qed
  from this [of 3] p assms(4) show ?thesis by (simp add: select_round_def Let_def flip: s0_def)
qed

theorem full_set_overruns_witness:
  "select_round 3 (idle_process\<lparr>open_fds := map int [0..<1024], all_sockets := {3..1023}, max_socket := 1023,
     tick := 4\<rparr>) = Overrun"
proof (rule full_set_overruns)
  show "set (open_fds (idle_process\<lparr>open_fds := map int [0..<1024], all_sockets := {3..1023},
      max_socket := 1023, tick := 4\<rparr>)) = {0..1023}"
    by (simp add: image_int_atLeastLessThan) auto
qed (simp_all add: idle_process_def idle_env_def)

end
