(* ===== verification/Tools.thy ===== *)
theory Tools
  imports SocketIO Calc
begin

text \<open>
  The small programs of \<open>lab_03\<close>, \<open>lab_04\<close> and \<open>lab_10\<close>: \<open>http_start.c\<close> counts the bytes of a
  page, \<open>dl_request.c\<close> saves one to a file, \<open>read_and_write.c\<close> copies a file in upper case,
  \<open>echo.c\<close> repeats the lines of the terminal. A result \<open>None\<close> is a program that never ends;
  otherwise it holds the exit status.
\<close>

section \<open>\<open>lab_03/http_start.c\<close>\<close>

definition crlf2 :: string where
  "crlf2 = [CHR 0x0D, CHR 0x0A, CHR 0x0D, CHR 0x0A]"

definition http_request :: "byte list" where
  "http_request = ascii (''GET /~kkredo/file.html HTTP/1.0'' @ crlf2)"

fun http_connect_try :: "addrinfo list \<Rightarrow> proc \<Rightarrow> int option \<times> proc" where
  "http_connect_try [] s = (None, s)"
| "http_connect_try (rp # rps) s =
     (case sys_socket s of (fd, s1) \<Rightarrow>
        if fd = - 1 then http_connect_try rps s1
        else (case sys_status a_connect fd s1 of (r, s2) \<Rightarrow>
                if r \<noteq> - 1 then (Some fd, s2) else http_connect_try rps (snd (sys_close fd s2))))"

definition http_lookup_and_connect :: "proc \<Rightarrow> int \<times> proc" where
  "http_lookup_and_connect s =
     (case sys_getaddrinfo s of
        (GaiErr e, s1) \<Rightarrow> (- 1, tty_eprint (vformat ''stream-talk-client: getaddrinfo: %s\<newline>'' [AStr e]) s1)
      | (GaiOk result, s1) \<Rightarrow>
          (case http_connect_try result s1 of
             (None, s2) \<Rightarrow> (- 1, tty_perror ''stream-talk-client: connect'' s2)
           | (Some fd, s2) \<Rightarrow> (fd, sys_freeaddrinfo s2)))"

text \<open>\<open>BUFSIZ\<close> is 8192; the result is the last value of \<open>recv\<close> and the bytes counted.\<close>

partial_function (option) http_receive :: "int \<Rightarrow> nat \<Rightarrow> proc \<Rightarrow> (int \<times> nat \<times> proc) option" where
  "http_receive fd total_bytes s =
     (case sys_recv fd 8192 s of ((r, d), s1) \<Rightarrow>
        if r > 0 then http_receive fd (total_bytes + length d) s1 else Some (r, total_bytes, s1))"

declare http_receive.simps [code]

definition http_fetch :: "int \<Rightarrow> proc \<Rightarrow> (nat \<times> proc) option" where
  "http_fetch fd s =
     (case sys_send fd http_request s of (w, s1) \<Rightarrow>
        if w < 0 then Some (1, tty_perror ''send'' s1)
        else (case http_receive fd 0 s1 of
                None \<Rightarrow> None
              | Some (r, n, s2) \<Rightarrow>
                  if r < 0 then Some (1, tty_perror ''recv'' s2)
                  else Some (0, snd (sys_close fd (printf ''Total bytes received: %zd\<newline>'' [AInt (int n)] s2)))))"

definition http_main :: "proc \<Rightarrow> (nat \<times> proc) option" where
  "http_main s =
     (case http_lookup_and_connect s of (fd, s1) \<Rightarrow> if fd < 0 then Some (1, s1) else http_fetch fd s1)"

section \<open>\<open>lab_04/dl_request.c\<close>\<close>

text \<open>
  \<open>local_file\<close> is the content of the output file, \<open>fwrite_takes\<close> how many bytes each \<open>fwrite\<close>
  accepts at most and \<open>fwrites\<close> the number of these calls so far.
\<close>

record download = proc +
  can_create :: bool
  local_file :: "byte list"
  fwrite_takes :: "nat \<Rightarrow> nat"
  fwrites :: nat

definition fwrite :: "byte list \<Rightarrow> download \<Rightarrow> nat \<times> download" where
  "fwrite d s =
     (let n = min (fwrite_takes s (fwrites s)) (length d)
      in (n, s\<lparr>local_file := local_file s @ take n d, fwrites := Suc (fwrites s)\<rparr>))"

definition dl_request :: "byte list" where
  "dl_request = ascii (''GET /~kkredo/reset_instructions.pdf HTTP/1.0'' @ crlf2)"

partial_function (option) dl_send_loop ::
  "int \<Rightarrow> byte list \<Rightarrow> nat \<Rightarrow> 'a os_scheme \<Rightarrow> (int \<times> 'a os_scheme) option" where
  "dl_send_loop sockfd bytes total_sent s =
     (if total_sent < length bytes then
        (case sys_send sockfd (drop total_sent bytes) s of (snt, s') \<Rightarrow>
           if snt = - 1 then Some (- 1, s')
           else dl_send_loop sockfd bytes (total_sent + nat snt) s')
      else Some (0, s))"

declare dl_send_loop.simps [code]

definition dl_send_bytes :: "int \<Rightarrow> byte list \<Rightarrow> 'a os_scheme \<Rightarrow> (int \<times> 'a os_scheme) option" where
  "dl_send_bytes sockfd bytes s = dl_send_loop sockfd bytes 0 s"

fun dl_connect_try :: "addrinfo list \<Rightarrow> download \<Rightarrow> int option \<times> download" where
  "dl_connect_try [] s = (None, s)"
| "dl_connect_try (rp # rps) s =
     (case sys_socket s of (fd, s1) \<Rightarrow>
        if fd = - 1 then
          dl_connect_try rps (tty_perror ''[dl_request]: connect_socket: socket: failed to create socket'' s1)
        else (case sys_status a_connect fd s1 of (r, s2) \<Rightarrow>
                if r \<noteq> - 1 then (Some fd, s2)
                else dl_connect_try rps (snd (sys_close fd (tty_perror
                  ''[dl_request]: connect_socket: connect: failed connecting to remote address'' s2)))))"

definition dl_connect_socket :: "download \<Rightarrow> int \<times> download" where
  "dl_connect_socket s =
     (case sys_getaddrinfo s of
        (GaiErr e, s1) \<Rightarrow>
          (- 1, tty_eprint (vformat ''[dl_request]: connect_socket: getaddrinfo: %s\<newline>'' [AStr e]) s1)
      | (GaiOk result, s1) \<Rightarrow>
          (case dl_connect_try result s1 of
             (Some fd, s2) \<Rightarrow> (fd, sys_freeaddrinfo s2)
           | (None, s2) \<Rightarrow> (- 1, sys_freeaddrinfo s2)))"

partial_function (option) dl_receive :: "int \<Rightarrow> download \<Rightarrow> download option" where
  "dl_receive fd s =
     (case sys_recv fd 2048 s of ((r, d), s1) \<Rightarrow>
        if r \<le> 0 then
          Some (if r = - 1 then tty_perror ''[dl_request]: main error read data from remote host'' s1 else s1)
        else (case fwrite d s1 of (wrote, s2) \<Rightarrow>
                if wrote = 0 then Some s2 else dl_receive fd s2))"

declare dl_receive.simps [code]

definition dl_transfer :: "int \<Rightarrow> download \<Rightarrow> (nat \<times> download) option" where
  "dl_transfer fd s =
     (case dl_send_bytes fd dl_request s of
        None \<Rightarrow> None
      | Some (r, s1) \<Rightarrow>
          if r = - 1 then
            Some (1, snd (sys_close fd (tty_perror ''[dl_request]: main: failed to send bytes to remote host'' s1)))
          else (case dl_receive fd s1 of
                  None \<Rightarrow> None
                | Some s2 \<Rightarrow> Some (0, snd (sys_close fd s2))))"

definition dl_main :: "download \<Rightarrow> (nat \<times> download) option" where
  "dl_main s =
     (if \<not> can_create s
      then Some (1, tty_perror ''[dl_request]: main: failed to open file for output'' s)
      else case dl_connect_socket (s\<lparr>local_file := []\<rparr>) of (fd, s1) \<Rightarrow>
        if fd < 0 then Some (1, s1) else dl_transfer fd s1)"

section \<open>\<open>lab_04/read_and_write.c\<close>\<close>

text \<open>
  \<open>open\<close> gives the lowest free descriptor or fails, as \<open>socket\<close> does; \<open>read\<close> and \<open>write\<close> on a
  descriptor behave as \<open>recv\<close> and \<open>send\<close>, so the bytes written are in \<open>sent\<close>. \<open>toupper\<close> is
  that of the C locale.
\<close>

definition toupper :: "byte \<Rightarrow> byte" where
  "toupper b = (if 97 \<le> b \<and> b \<le> 122 then b - 32 else b)"

partial_function (option) copy_upper :: "int \<Rightarrow> int \<Rightarrow> proc \<Rightarrow> (nat \<times> proc) option" where
  "copy_upper input_fd output_fd s =
     (case sys_recv input_fd 1024 s of ((bytes_read, d), s1) \<Rightarrow>
        if bytes_read > 0 then
          (case sys_send 1 d s1 of (w, s2) \<Rightarrow>
             if w \<noteq> bytes_read then Some (1, tty_perror ''Error writing to stdout'' s2)
             else (case sys_send output_fd (map toupper d) s2 of (w2, s3) \<Rightarrow>
                     if w2 \<noteq> bytes_read then Some (1, tty_perror ''Error writing to output file'' s3)
                     else copy_upper input_fd output_fd s3))
        else if bytes_read = - 1 then Some (1, tty_perror ''Error reading from input file'' s1)
        else (case sys_close input_fd s1 of (r, s2) \<Rightarrow>
                if r = - 1 then Some (1, tty_perror ''Error closing input file'' s2)
                else (case sys_close output_fd s2 of (r2, s3) \<Rightarrow>
                        if r2 = - 1 then Some (1, tty_perror ''Error closing output file'' s3)
                        else Some (0, s3))))"

declare copy_upper.simps [code]

definition upper_main :: "string list \<Rightarrow> proc \<Rightarrow> (nat \<times> proc) option" where
  "upper_main argv s =
     (if length argv \<noteq> 2 then
        Some (1, tty_eprint (vformat ''Usage: %s <input_file>\<newline>'' [AStr (argv ! 0)]) s)
      else (case sys_socket s of (input_fd, s1) \<Rightarrow>
        if input_fd = - 1 then Some (1, tty_perror ''Error opening input file'' s1)
        else (case sys_socket s1 of (output_fd, s2) \<Rightarrow>
          if output_fd = - 1 then Some (1, tty_perror ''Error opening output file'' s2)
          else copy_upper input_fd output_fd (s2\<lparr>sent := (sent s2)(output_fd := [])\<rparr>))))"

section \<open>\<open>lab_10/echo.c\<close>\<close>

text \<open>\<open>stdin_buf\<close> holds what the \<open>stdin\<close> stream has read from descriptor 0 and not handed out.\<close>

record echo = proc +
  stdin_buf :: "byte list"

definition line_part :: "nat \<Rightarrow> byte list \<Rightarrow> byte list" where
  "line_part n buf = take n (takeWhile (\<lambda>b. b \<noteq> 10) buf @ (if 10 \<in> set buf then [10] else []))"

lemma line_part_nil: "line_part n buf = [] \<Longrightarrow> n = 0 \<or> buf = []"
  by (cases buf) (auto simp: line_part_def split: if_splits)

lemma length_line_part: "length (line_part n buf) \<le> n"
  by (simp add: line_part_def)

text \<open>\<open>fgets\<close> for \<open>n\<close> more bytes; \<open>None\<close> is NULL. The stream reads blocks of at most 4096 bytes.\<close>

function fgets :: "nat \<Rightarrow> byte list \<Rightarrow> echo \<Rightarrow> byte list option \<times> echo" where
  "fgets n acc s =
     (let line = line_part n (stdin_buf s);
          s1 = s\<lparr>stdin_buf := drop (length line) (stdin_buf s)\<rparr>
      in if length line = n \<or> 10 \<in> set line then (Some (acc @ line), s1)
         else (case sys_recv 0 4096 s1 of ((r, d), s2) \<Rightarrow>
                 if r \<le> 0 then (if acc @ line = [] \<or> r < 0 then None else Some (acc @ line), s2)
                 else fgets (n - length line) (acc @ line) (s2\<lparr>stdin_buf := d\<rparr>)))"
  by pat_completeness auto
termination
proof (relation "measures [\<lambda>(n, acc, s). n, \<lambda>(n, acc, s). if stdin_buf s = [] then 1 else 0]")
  fix n acc and s s1 s2 :: echo and line d q and r :: int
  assume line: "line = line_part n (stdin_buf s)" and "\<not> (length line = n \<or> 10 \<in> set line)"
    and s1: "s1 = s\<lparr>stdin_buf := drop (length line) (stdin_buf s)\<rparr>"
    and "(q, s2) = sys_recv 0 4096 s1" "(r, d) = q" "\<not> r \<le> 0"
  then have short: "length line < n" "d \<noteq> []"
    using length_line_part [of n "stdin_buf s"] sys_recv_result [of 0 4096 s1 r d s2] by auto
  show "((n - length line, acc @ line, s2\<lparr>stdin_buf := d\<rparr>), n, acc, s)
      \<in> measures [\<lambda>(n, acc, s). n, \<lambda>(n, acc, s). if stdin_buf s = [] then 1 else 0]"
    using short line line_part_nil [of n "stdin_buf s"] by (cases "line = []") auto
qed simp

declare fgets.simps [simp del]

partial_function (option) echo_main :: "echo \<Rightarrow> (nat \<times> echo) option" where
  "echo_main s =
     (case sys_pselect 1 {0} s of
        (SelError _, s1) \<Rightarrow> Some (0, tty_perror ''[echo] pselect'' s1)
      | (SelSet r, s1) \<Rightarrow>
          if r = {} then Some (0, printf ''input timed out\<newline>'' [] s1)
          else (case fgets 254 [] s1 of
                  (None, s2) \<Rightarrow> Some (0, tty_perror ''[echo] fgets'' s2)
                | (Some line, s2) \<Rightarrow> echo_main (printf ''given: %s'' [AStr (chars (c_str line))] s2)))"

declare echo_main.simps [code]

end
