(* ===== verification/ToolsProps.thy ===== *)
theory ToolsProps
  imports Tools Addresses "HOL-Library.Sublist"
begin

text \<open>
  The small programs: the page counter counts every byte of the stream, the download saves the
  stream byte for byte, the copy program writes the upper case of what it showed whatever
  happens, and the echo program drops lines that arrive together.
\<close>

section \<open>Counting a page\<close>

lemma sys_recv_end:
  "fd \<in> set (open_fds s) \<Longrightarrow> a_recv (env s) (tick s) = RecvData [] \<Longrightarrow>
     sys_recv fd cap s = ((0, []), step_os s)"
  by (simp add: sys_recv_def)

lemma sys_recv_whole:
  "fd \<in> set (open_fds s) \<Longrightarrow> a_recv (env s) (tick s) = RecvData d \<Longrightarrow> length d \<le> cap \<Longrightarrow>
     sys_recv fd cap s = ((int (length d), d), step_os s)"
  by (simp add: sys_recv_def)

lemma chunks_Nil: "chunks s [] (RecvData []) \<Longrightarrow> a_recv (env s) (tick s) = RecvData []"
  by (simp add: chunks_def)

lemma http_receive_chunks:
  assumes "chunks s ds (RecvData [])" "\<forall>d\<in>set ds. length d \<le> 8192" "fd \<in> set (open_fds s)"
  shows "http_receive fd n s = Some (0, n + length (concat ds), s\<lparr>tick := tick s + length ds + 1\<rparr>)"
  using assms
proof (induction ds arbitrary: s n)
  case Nil
  then show ?case by (subst http_receive.simps) (simp add: chunks_Nil sys_recv_end)
next
  case (Cons d ds)
  note c = chunks_Cons [OF Cons.prems(1)]
  have "http_receive fd n s = http_receive fd (n + length d) (step_os s)"
    using c Cons.prems by (subst http_receive.simps) (simp add: sys_recv_whole)
  with Cons.IH [of "step_os s" "n + length d"] c Cons.prems show ?case by simp
qed

text \<open>
  On a connection that takes the request and delivers a page in any pieces, the program
  prints the number of bytes of the whole page, closes the socket and exits with 0.
\<close>

theorem page_counted:
  assumes "fd \<in> set (open_fds s)" "a_send (env s) (tick s) = SendTake n"
    "chunks (step_os s) ds (RecvData [])" "\<forall>d\<in>set ds. length d \<le> 8192"
  shows "\<exists>s'. http_fetch fd s = Some (0, s') \<and> fd \<notin> set (open_fds s') \<and>
    stdout s' = stdout s @ ''Total bytes received: '' @ dec (length (concat ds)) @ ''\<newline>''"
proof -
  obtain w t where w: "sys_send fd http_request s = (w, t)" by fastforce
  have t: "0 \<le> w" "env t = env s" "tick t = Suc (tick s)" "open_fds t = open_fds s" "stdout t = stdout s"
    using w assms(1,2) by (auto simp: sys_send_def Let_def)
  have "chunks t ds (RecvData [])" using assms(3) t by (simp add: chunks_def)
  note r = http_receive_chunks [OF this assms(4), of fd 0]
  define u where "u = printf ''Total bytes received: %zd\<newline>'' [AInt (int (length (concat ds)))]
      (t\<lparr>tick := tick t + length ds + 1\<rparr>)"
  have u: "stdout u = stdout s @ ''Total bytes received: '' @ dec (length (concat ds)) @ ''\<newline>''"
    by (simp add: u_def printf_def t vformat.simps dec_int_def del: length_concat)
  obtain q v where q: "sys_close fd u = (q, v)" by fastforce
  then have "http_fetch fd s = Some (0, v)"
    using w t r assms(1) by (simp add: http_fetch_def u_def del: length_concat)
  moreover have "fd \<notin> set (open_fds v)" using sys_close_open_fds [OF q] by simp
  moreover have "stdout v = stdout u" using q by (auto simp: sys_close_def split: if_splits)
  ultimately show ?thesis using u by auto
qed

theorem page_counted_witness:
  "\<exists>s'. http_fetch 3 (plain_proc (plain_env\<lparr>a_recv := \<lambda>n. if n < 3 then RecvData [65, 66] else RecvData []\<rparr>) [3])
    = Some (0, s') \<and> stdout s' = ''Total bytes received: 4\<newline>''"
proof -
  let ?s = "plain_proc (plain_env\<lparr>a_recv := \<lambda>n. if n < 3 then RecvData [65, 66] else RecvData []\<rparr>) [3]"
  have "chunks (step_os ?s) [[65, 66], [65, 66]] (RecvData [])"
    by (auto simp: chunks_def less_Suc_eq)
  from page_counted [OF _ _ this, of 3 100] have "\<exists>s'. http_fetch 3 ?s = Some (0, s') \<and>
      stdout s' = ''Total bytes received: '' @ dec 4 @ ''\<newline>''"
    by (auto simp: eval_nat_numeral)
  moreover have "dec 4 = ''4''" by code_simp
  ultimately show ?thesis by auto
qed

section \<open>Saving a page\<close>

text \<open>\<open>send_bytes\<close> of \<open>dl_request.c\<close> tests for -1 only; no other negative result occurs.\<close>

lemma sys_send_negative: "sys_send fd bs s = (r, s') \<Longrightarrow> r < 0 \<longleftrightarrow> r = - 1"
  using sys_send_result [of fd bs s r s'] by auto

lemma dl_send_loop_le: "dl_send_loop fd bs n s = Some x \<Longrightarrow> send_loop fd bs n s = Some x"
proof (induction rule: dl_send_loop.raw_induct [rotated, consumes 1])
  case (1 loop fd bs n s x)
  then show ?case
    by (cases x; subst send_loop.simps) (auto split: if_splits prod.splits dest: sys_send_negative)
qed

lemma send_loop_le: "send_loop fd bs n s = Some x \<Longrightarrow> dl_send_loop fd bs n s = Some x"
proof (induction rule: send_loop.raw_induct [rotated, consumes 1])
  case (1 loop fd bs n s x)
  then show ?case
    by (cases x; subst dl_send_loop.simps) (auto split: if_splits prod.splits dest: sys_send_negative)
qed

lemma dl_send_bytes_eq: "dl_send_bytes = send_bytes"
proof (intro ext)
  fix fd bs and s :: "'a os_scheme"
  show "dl_send_bytes fd bs s = send_bytes fd bs s"
    unfolding dl_send_bytes_def send_bytes_def
    by (cases "send_loop fd bs 0 s"; cases "dl_send_loop fd bs 0 s")
      (auto dest: dl_send_loop_le send_loop_le)
qed

interpretation dl: live_sender dl_send_bytes sent send_progress
  unfolding dl_send_bytes_eq by unfold_locales

lemma dl_receive_chunks:
  assumes "chunks s ds (RecvData [])" "\<forall>d\<in>set ds. length d \<le> 2048" "fd \<in> set (open_fds s)"
    "\<forall>k. 2048 \<le> fwrite_takes s k"
  shows "dl_receive fd s = Some (s\<lparr>tick := tick s + length ds + 1,
    local_file := local_file s @ concat ds, fwrites := fwrites s + length ds\<rparr>)"
  using assms
proof (induction ds arbitrary: s)
  case Nil
  then show ?case by (subst dl_receive.simps) (simp add: chunks_Nil sys_recv_end)
next
  case (Cons d ds)
  note c = chunks_Cons [OF Cons.prems(1)]
  have "length d \<le> fwrite_takes s (fwrites s)"
    using Cons.prems(2,4) by (meson le_trans list.set_intros(1))
  then have "fwrite d (step_os s) = (length d, (step_os s)\<lparr>local_file := local_file s @ d, fwrites := Suc (fwrites s)\<rparr>)"
    by (simp add: fwrite_def)
  then have "dl_receive fd s = dl_receive fd ((step_os s)\<lparr>local_file := local_file s @ d, fwrites := Suc (fwrites s)\<rparr>)"
    using c Cons.prems by (subst dl_receive.simps) (simp add: sys_recv_whole)
  with Cons.IH [of "(step_os s)\<lparr>local_file := local_file s @ d, fwrites := Suc (fwrites s)\<rparr>"] c Cons.prems
  show ?case by (simp add: chunks_def)
qed

text \<open>
  C24: The download. When every \<open>send\<close> makes progress the whole request gets out, in whatever
  pieces, and when the stream then ends after any chunks and the file takes every write, the
  program exits with 0, the file holds exactly the bytes of the stream behind what it held, and
  the socket is closed.
\<close>

theorem download_saves_stream:
  assumes "send_works s" "fd \<in> set (open_fds s)" "dl_send_bytes fd dl_request s = Some (r, s1)"
    "chunks s1 ds (RecvData [])" "\<forall>d\<in>set ds. length d \<le> 2048" "\<forall>k. 2048 \<le> fwrite_takes s k"
  shows "\<exists>s'. dl_transfer fd s = Some (0, s') \<and> local_file s' = local_file s @ concat ds \<and>
    sent s' = (sent s)(fd := sent s fd @ dl_request) \<and> fd \<notin> set (open_fds s')"
proof -
  from send_bytes_works [OF assms(1,2), of dl_request] assms(3)
  have r: "r = 0" "sent s1 = (sent s)(fd := sent s fd @ dl_request)"
    by (auto simp: dl_send_bytes_eq)
  from send_bytes_frame [OF assms(3) [unfolded dl_send_bytes_eq]]
  have f: "open_fds s1 = open_fds s" "os.more s1 = os.more s" by auto
  then have "local_file s1 = local_file s" "fwrite_takes s1 = fwrite_takes s"
    by (cases s; cases s1; simp)+
  with dl_receive_chunks [OF assms(4,5), of fd] f assms(2,6) obtain u where
    u: "dl_receive fd s1 = Some u" "local_file u = local_file s @ concat ds" "sent u = sent s1"
    by auto
  obtain q v where q: "sys_close fd u = (q, v)" by fastforce
  have "local_file v = local_file u" "sent v = sent u"
    using sys_close_state [OF q] by auto
  moreover have "fd \<notin> set (open_fds v)" using sys_close_open_fds [OF q] by simp
  ultimately show ?thesis using assms(3) r u q by (simp add: dl_transfer_def)
qed

definition dl_start :: download where
  "dl_start = proc.extend (plain_proc (plain_env\<lparr>a_recv := \<lambda>n. if n < 3 then RecvData [65, 66] else RecvData []\<rparr>) [3])
     (download.fields True [] (\<lambda>k. 4096) 0)"

theorem download_saves_stream_witness:
  "\<exists>s'. dl_transfer 3 dl_start = Some (0, s') \<and> local_file s' = [65, 66, 65, 66] \<and> sent s' 3 = dl_request"
proof -
  have d: "env dl_start = plain_env\<lparr>a_recv := \<lambda>n. if n < 3 then RecvData [65, 66] else RecvData []\<rparr>"
    "tick dl_start = 0" "open_fds dl_start = [3]" "sent dl_start = (\<lambda>fd. [])" "local_file dl_start = []"
    "fwrite_takes dl_start = (\<lambda>k. 4096)"
    by (simp_all add: dl_start_def proc.extend_def download.fields_def plain_proc_def)
  have works: "send_works dl_start" by (simp add: send_works_def d)
  have l: "length dl_request = 48" by code_simp
  have "sys_send 3 dl_request dl_start = (48, (step_os dl_start)\<lparr>sent := (\<lambda>fd. [])(3 := dl_request)\<rparr>)"
    using l by (simp add: sys_send_def d)
  then have s: "dl_send_bytes 3 dl_request dl_start = Some (0, (step_os dl_start)\<lparr>sent := (\<lambda>fd. [])(3 := dl_request)\<rparr>)"
    using l by (simp add: dl_send_bytes_def dl_send_loop.simps)
  have "chunks ((step_os dl_start)\<lparr>sent := (\<lambda>fd. [])(3 := dl_request)\<rparr>) [[65, 66], [65, 66]] (RecvData [])"
    by (auto simp: chunks_def d less_Suc_eq)
  from download_saves_stream [OF works _ s this] show ?thesis by (auto simp: d)
qed

text \<open>The address loops of both programs leave nothing open behind.\<close>

interpretation http_addresses: address_loop http_connect_try a_connect id id id "\<lambda>s. (gai_live s, sent s)"
  by unfold_locales (auto simp: sys_status_def split: prod.splits)

interpretation dl_addresses: address_loop dl_connect_try a_connect
  "tty_perror ''[dl_request]: connect_socket: socket: failed to create socket''"
  "tty_perror ''[dl_request]: connect_socket: connect: failed connecting to remote address''" id
  "\<lambda>s. (gai_live s, sent s)"
  by unfold_locales (auto simp: tty_perror_def sys_status_def split: prod.splits)

lemma dl_connect_socket_exact:
  assumes "dl_connect_socket s = (fd, s')"
  shows "gai_live s' = gai_live s" "fd = - 1 \<and> set (open_fds s') = set (open_fds s) \<or>
    0 \<le> fd \<and> fd \<notin> set (open_fds s) \<and> set (open_fds s') = insert fd (set (open_fds s))"
  using assms
  by (auto simp: dl_connect_socket_def sys_getaddrinfo_def sys_freeaddrinfo_def Let_def tty_eprint_def
      split: gai_ans.splits option.splits prod.splits dest!: dl_addresses.exact)

section \<open>Copying a file in upper case\<close>

definition copied :: "int \<Rightarrow> proc \<Rightarrow> nat \<times> proc \<Rightarrow> bool" where
  "copied out s res \<longleftrightarrow> (case res of (r, s') \<Rightarrow>
     \<exists>xs ys. sent s' 1 = sent s 1 @ xs \<and> sent s' out = sent s out @ map toupper ys \<and>
       prefix ys xs \<and> (r = 0 \<longrightarrow> ys = xs))"

lemma copiedI:
  "sent s' 1 = sent s 1 @ xs \<Longrightarrow> sent s' out = sent s out @ map toupper ys \<Longrightarrow> prefix ys xs \<Longrightarrow>
     r = 0 \<longrightarrow> ys = xs \<Longrightarrow> copied out s (r, s')"
  unfolding copied_def by blast

lemma copied_step:
  assumes "copied out t (r, s')" "sent t 1 = sent s 1 @ d" "sent t out = sent s out @ map toupper d"
  shows "copied out s (r, s')"
proof -
  from assms(1) obtain xs ys where x: "sent s' 1 = sent t 1 @ xs" "sent s' out = sent t out @ map toupper ys"
    "prefix ys xs" "r = 0 \<longrightarrow> ys = xs"
    unfolding copied_def by blast
  with assms(2,3) show ?thesis by (intro copiedI [of _ _ "d @ xs" _ "d @ ys"]) auto
qed

lemma copy_upper_effect:
  assumes "copy_upper inp out s = Some res" "out \<noteq> 1" shows "copied out s res"
  using assms
proof (induction rule: copy_upper.raw_induct [rotated, consumes 1])
  case (1 loop inp out s res)
  note IH = 1(1) and run = 1(2) and out = 1(3)
  obtain n d s1 where n: "sys_recv inp 1024 s = ((n, d), s1)" by (metis surj_pair)
  then have s1: "sent s1 = sent s" "n = int (length d) \<or> n = - 1" by (auto dest: sys_recv_result)
  obtain w s2 where w: "sys_send 1 d s1 = (w, s2)" by fastforce
  note w' = sys_send_result [OF w]
  obtain w2 s3 where w2: "sys_send out (map toupper d) s2 = (w2, s3)" by fastforce
  note w2' = sys_send_result [OF w2]
  obtain r s' where res: "res = (r, s')" by fastforce
  consider "\<not> n > 0" | "n > 0" "w \<noteq> n" | "n > 0" "w = n" "w2 \<noteq> n" | "n > 0" "w = n" "w2 = n" by blast
  then show ?case
  proof cases
    case 1
    with run n s1 res have "sent s' = sent s"
      by (auto simp: tty_perror_def sys_close_def split: if_splits prod.splits)
    with res show ?thesis by (auto intro: copiedI [of _ _ "[]" _ "[]"])
  next
    case 2
    with run n w res have r: "r = 1" "sent s' = sent s2" by (auto simp: tty_perror_def)
    define xs where "xs = (if w < 0 then [] else take (nat w) d)"
    have "sent s2 1 = sent s 1 @ xs" "sent s2 out = sent s out" using w' s1 out by (auto simp: xs_def)
    with r res show ?thesis by (auto intro: copiedI [of _ _ xs _ "[]"])
  next
    case 3
    with run n w w2 res have r: "r = 1" "sent s' = sent s3" by (auto simp: tty_perror_def)
    define ys where "ys = (if w2 < 0 then [] else take (nat w2) d)"
    have "sent s3 1 = sent s 1 @ d" "sent s3 out = sent s out @ map toupper ys"
      using w' w2' s1 out 3 by (auto simp: ys_def take_map)
    with r res show ?thesis by (auto simp: ys_def take_is_prefix intro: copiedI [of _ _ d _ ys])
  next
    case 4
    with run n w w2 have "loop inp out s3 = Some res" by simp
    from IH [OF this out] have "copied out s3 (r, s')" by (simp add: res)
    moreover have "sent s3 1 = sent s 1 @ d" "sent s3 out = sent s out @ map toupper d"
      using w' w2' s1 out 4 by auto
    ultimately show ?thesis using res by (auto intro: copied_step)
  qed
qed

text \<open>
  C25: Whatever the files and the terminal do, the output file of \<open>read_and_write\<close> gains the
  upper case of an initial part of what the program showed on the terminal; when it exits with
  0, of all of it.
\<close>

theorem output_is_upper_case:
  assumes "copy_upper inp out s = Some (r, s')" "out \<noteq> 1"
  shows "\<exists>shown copied. sent s' 1 = sent s 1 @ shown \<and> sent s' out = sent s out @ map toupper copied \<and>
    prefix copied shown \<and> (r = 0 \<longrightarrow> copied = shown)"
  using copy_upper_effect [OF assms] by (simp add: copied_def)

definition copy_env :: answers where
  "copy_env = plain_env\<lparr>a_recv := \<lambda>n. if n = 0 then RecvData [72, 105, 33] else RecvData []\<rparr>"

theorem output_is_upper_case_witness:
  "\<exists>s'. copy_upper 3 4 (plain_proc copy_env [4, 3, 2, 1, 0]) = Some (0, s') \<and> sent s' 1 = [72, 105, 33] \<and>
    sent s' 4 = [72, 73, 33]"
proof -
  have run: "case copy_upper 3 4 (plain_proc copy_env [4, 3, 2, 1, 0]) of
      Some (r, s') \<Rightarrow> r = 0 \<and> sent s' 1 = [72, 105, 33] | None \<Rightarrow> False"
    by code_simp
  then obtain s' where s': "copy_upper 3 4 (plain_proc copy_env [4, 3, 2, 1, 0]) = Some (0, s')"
    "sent s' 1 = [72, 105, 33]"
    by (auto split: option.splits)
  from output_is_upper_case [OF s'(1)] s' show ?thesis by (auto simp: toupper_def)
qed

section \<open>Lines that arrive together\<close>

lemma line_part_newline:
  "10 \<notin> set l \<Longrightarrow> length l < n \<Longrightarrow> line_part n (l @ 10 # r) = l @ [10]"
proof -
  assume "10 \<notin> set l" "length l < n"
  moreover from this(1) have "takeWhile (\<lambda>b. b \<noteq> 10) (l @ 10 # r) = l"
    by (subst takeWhile_append2) auto
  ultimately show ?thesis by (simp add: line_part_def)
qed

lemma chars_newline: "chars [10] = ''\<newline>''" "chars (xs @ ys) = chars xs @ chars ys"
  by code_simp (simp add: chars_def)

lemma fgets_one_read:
  assumes "0 \<in> set (open_fds s)" "stdin_buf s = []" "a_recv (env s) (tick s) = RecvData (l @ 10 # rest)"
    "10 \<notin> set l" "length l < n" "length (l @ 10 # rest) \<le> 4096"
  shows "fgets n [] s = (Some (l @ [10]), (step_os s)\<lparr>stdin_buf := rest\<rparr>)"
proof -
  have e: "line_part n [] = []" by (simp add: line_part_def)
  have "sys_recv 0 4096 (s\<lparr>stdin_buf := []\<rparr>) =
      ((int (length (l @ 10 # rest)), l @ 10 # rest), (step_os s)\<lparr>stdin_buf := []\<rparr>)"
    using assms by (simp add: sys_recv_def)
  then have "fgets n [] s = fgets n [] ((step_os s)\<lparr>stdin_buf := l @ 10 # rest\<rparr>)"
    using assms(2,5) e by (subst fgets.simps) simp
  also have "\<dots> = (Some (l @ [10]), (step_os s)\<lparr>stdin_buf := rest\<rparr>)"
    using line_part_newline [OF assms(4,5), of rest]
    by (subst fgets.simps) simp
  finally show ?thesis .
qed

text \<open>
  C39: \<open>echo\<close> waits on the descriptor, not on the stream: when two lines arrive in one piece,
  the first is echoed, the second stays in the buffer of the stream, and if nothing more
  arrives the program reports a timeout and exits without echoing it.
\<close>

theorem buffered_line_lost:
  assumes "0 \<in> set (open_fds s)" "stdin_buf s = []"
    "a_select (env s) (tick s) = SelReady {0}"
    "a_recv (env s) (Suc (tick s)) = RecvData (l @ 10 # rest)"
    "a_select (env s) (Suc (Suc (tick s))) = SelReady {}"
    "10 \<notin> set l" "0 \<notin> set l" "length l < 254" "length (l @ 10 # rest) \<le> 4096"
  shows "\<exists>s'. echo_main s = Some (0, s') \<and> stdin_buf s' = rest \<and>
    stdout s' = stdout s @ ''given: '' @ chars l @ ''\<newline>input timed out\<newline>''"
proof -
  have p: "sys_pselect 1 {0} s = (SelSet {0}, step_os s)"
    using assms(1,3) by (simp add: sys_pselect_inter)
  note g = fgets_one_read [of "step_os s" l rest 254]
  define t where "t = printf ''given: %s'' [AStr (chars (c_str (l @ [10])))] ((step_os (step_os s))\<lparr>stdin_buf := rest\<rparr>)"
  have "c_str (l @ [10]) = l @ [10]" using assms(7) by simp
  then have t: "open_fds t = open_fds s" "env t = env s" "tick t = Suc (Suc (tick s))" "stdin_buf t = rest"
    "stdout t = stdout s @ ''given: '' @ chars l @ ''\<newline>''"
    by (simp_all add: t_def printf_def vformat.simps chars_newline)
  have "echo_main s = echo_main t"
    using p g assms by (subst echo_main.simps) (simp add: t_def)
  moreover have "sys_pselect 1 {0} t = (SelSet {}, step_os t)"
    using assms(1,5) t by (simp add: sys_pselect_inter)
  then have "echo_main t = Some (0, printf ''input timed out\<newline>'' [] (step_os t))"
    by (subst echo_main.simps) simp
  ultimately show ?thesis using t by (simp add: printf_def vformat.simps)
qed

definition echo_start :: echo where
  "echo_start = proc.extend (plain_proc (plain_env\<lparr>a_recv := \<lambda>n. RecvData [104, 105, 10, 111, 107, 10],
     a_select := \<lambda>n. if n = 0 then SelReady {0} else SelReady {}\<rparr>) [2, 1, 0]) (echo.fields [])"

theorem buffered_line_lost_witness:
  "\<exists>s'. echo_main echo_start = Some (0, s') \<and> stdin_buf s' = [111, 107, 10] \<and>
    stdout s' = ''given: hi\<newline>input timed out\<newline>''"
proof -
  have "echo_main echo_start = echo_main echo_start \<and> chars [104, 105] = ''hi''" by (simp add: chars_def) code_simp
  with buffered_line_lost [of echo_start "[104, 105]" "[111, 107, 10]"] show ?thesis
    by (simp add: echo_start_def proc.extend_def echo.fields_def plain_proc_def)
qed

end
