(* ===== verification/Spec2Isabelle.thy ===== *)
theory Spec2Isabelle
  imports RegProps RegRequests ProtoProps PeerTypes Peer2Props H1Props CalcProps SelectProps ToolsProps
begin

text \<open>
  Verification of the C programs of this repository: the programs of a networking course, all
  built on the socket API.

  \<^bold>\<open>The programs and how they interact.\<close> \<open>src/program_04/registry.c\<close> is the registry server of a
  peer-to-peer file exchange: peers connect over TCP, JOIN under an identifier, PUBLISH the names
  of their files and SEARCH for the owner of a name. \<open>src/program_03/peer.c\<close> is the interactive
  peer that talks to it and fetches files from other peers, \<open>src/program_02/peer.c\<close> its earlier
  version without FETCH. \<open>src/program_01/h1-counter.c\<close> downloads a page and counts its
  \<open><h1>\<close> tags. \<open>src/lab_03\<close> has a calculator client and server and a page counter
  (\<open>http_start.c\<close>), \<open>src/lab_04\<close> a downloader and a program that copies a file in upper case,
  \<open>src/lab_10\<close> a server built on \<open>select\<close> and an echo program.

  \<^bold>\<open>The world they run in.\<close> Theory \<open>Prelude\<close> fixes the machine types and the generic lemmas,
  \<open>Libc\<close> the standard library as pure functions (byte order, C strings, \<open>printf\<close>, \<open>inet_ntop\<close>),
  \<open>Os\<close> the operating system: open descriptors, bytes sent per connection, text printed, heap and
  address lists in use. What a call returns is decided by a record \<open>answers\<close>, indexed by the
  number of calls made so far; every property holds for all its values unless it names a
  hypothesis, so short reads, partial sends, failing allocations and any order of events are
  covered. \<open>Terminal\<close> adds the terminal of a small program. \<open>SocketIO\<close> holds \<open>send_bytes\<close> and
  the contracts (locales) \<open>stream_sender\<close> and \<open>live_sender\<close> its callers rely on; \<open>Addresses\<close> the
  loop over the addresses of a host, proved exact about descriptors once (locale \<open>address_loop\<close>)
  and interpreted on the loops of five programs; \<open>Machine\<close> the notion of reachable states and the
  contract \<open>invariant_machine\<close> of an inductive invariant, interpreted on the registry, the select
  server and the peer.

  \<^bold>\<open>Conventions.\<close> A C function is a HOL function on the state record of its program, which extends
  \<open>os\<close>. \<open>None\<close> is a call without a defined result: a read outside an object, a use of an
  uninitialised buffer, or a loop that does not end. Loops with a bound are \<open>fun\<close> or \<open>function\<close> with
  a measure; loops that may not end are \<open>partial_function (option)\<close>, and that they return is proved
  where it is claimed. No fuel is used. Integers keep their width (\<open>u16\<close>, \<open>u32\<close>, \<open>u64\<close>), sizes
  are naturals with the wrap-around of a subtraction written out (\<open>size_sub\<close>).

  \<^bold>\<open>The registry\<close> (\<open>Reg*\<close>). \<open>RegTypes\<close>: \<open>struct server\<close>, \<open>struct client\<close>, logging, \<open>clear_client\<close>.
  \<open>RegText\<close>: the text of addresses and buffers. \<open>RegHandlers\<close>: JOIN, PUBLISH and SEARCH on the
  receive buffer. \<open>RegServer\<close>: accepting and closing, the scan over the ready descriptors, the main
  loop, start, shutdown and the whole of \<open>main\<close>. \<open>RegMachine\<close> gives the same program as a transition
  system whose steps are the turns of its loops. Lemmas: \<open>RegFrame\<close> (what an operation leaves
  alone), \<open>RegPublish\<close> and \<open>RegSearch\<close> (the loops of the handlers against reference definitions),
  \<open>RegTable\<close> and \<open>RegInv\<close> (the invariant of the client table and of the watched sockets, kept by
  every operation), \<open>RegInit\<close> (start and shutdown, the interpretation of \<open>invariant_machine\<close>),
  \<open>RegOutcome\<close> (when the handlers return), \<open>RegDemo\<close> (a concrete server). \<open>RegProps\<close> shows: the
  count of clients, the watched set and the heap are exact in every reachable state; the loop
  refines to the transition system; the shutdown frees and closes everything; a ready socket always
  has its client; and three defects of the code. \<open>RegRequests\<close> shows the exact effect of each
  request on table, log, wire and heap, on all branches.

  \<^bold>\<open>The peers.\<close> \<open>Peer\<close> and \<open>PeerFacts\<close> model \<open>program_03\<close>, \<open>Proto\<close> and \<open>ProtoProps\<close> compose it
  with the registry: each request the peer encodes is what the registry decodes (locale
  \<open>message_codec\<close> with three interpretations), each answer the registry packs is what the peer
  reads, and JOIN, PUBLISH and SEARCH have their effect end to end. \<open>PeerTypes\<close> shows that
  whatever is typed and answered the peer only sends well-formed requests. \<open>Peer2\<close> and
  \<open>Peer2Props\<close> model \<open>program_02\<close> on its own state and show that \<open>program_03\<close> extends it
  conservatively, through the map \<open>forget\<close>.

  \<^bold>\<open>The page counter\<close> (\<open>H1Counter\<close>, \<open>H1Facts\<close>, \<open>H1Props\<close>): the counting loop, the two read modes,
  \<open>strtoul\<close>, the options and \<open>main\<close>; the count does not depend on how the page is cut, is never too
  high, and misses adjacent tags; numbers are parsed exactly; a buffer size of 0 never ends.

  \<^bold>\<open>The lab programs.\<close> \<open>Calc\<close>, \<open>CalcProps\<close>: the calculator; a sum travels exactly when messages
  stay whole, and what goes wrong when they do not. \<open>Select\<close>, \<open>SelectProps\<close>: the select server; its
  set is exact in every reachable state (again \<open>invariant_machine\<close>), every client reported ready is
  served in the same turn, and \<open>FD_SET\<close> overruns at descriptor 1024. \<open>Tools\<close>, \<open>ToolsProps\<close>: the
  page counter of \<open>lab_03\<close>, the downloader (its \<open>send_bytes\<close> is another instance of \<open>live_sender\<close>),
  the upper-case copy and the echo program with the buffer of its stream.

  \<^bold>\<open>Bounds.\<close> Those of the source: 50 clients, 10 names, 2048 bytes of receive buffer, 1200 bytes of
  a PUBLISH, 100 characters of a name, 1024 descriptors of a set. No other bound is introduced.

  \<^bold>\<open>Not modelled.\<close> The Rust programs, which implement the same peers a second time, and the build
  files. In the C programs: the flags and hints of socket calls and the host, service and port they
  are given (the answer of \<open>getaddrinfo\<close> is a parameter), signal masks and handlers (a signal is the
  answer EINTR of \<open>pselect\<close>), the time in the name of the log file, \<open>getopt_long\<close> (its answers are a parameter), the
  padding of address structures, \<open>atoi\<close> and \<open>gethostbyname\<close> (parameters of the peer's \<open>main\<close>), and
  the buffering of output files: what \<open>fwrite\<close> accepts counts as written.
\<close>

end
